theory Spec2Isabelle
  imports Main
begin

section \<open>Bootstrap of the go-cli template: paths, configuration, logging, runtime context\<close>

text \<open>
  The development embeds the Go package \<^verbatim>\<open>internal/app\<close> (paths, config, logging, runtime
  context, flags, util) and the persistent pre-run hook of \<^verbatim>\<open>cmd/root.go\<close>.
  Go strings are byte sequences and are modelled as \<^typ>\<open>string\<close>; Go's \<^verbatim>\<open>int\<close> is only
  compared and copied by this code and is modelled as \<^typ>\<open>int\<close>; a nilable \<^verbatim>\<open>*int\<close> is an
  \<^typ>\<open>int option\<close>. Functions that touch the operating system take the world and return it
  next to their result; a failing call returns \<open>Inl\<close> of an error value.
\<close>

subsection \<open>Standard-library string functions used by the package\<close>

definition asciiRange :: "nat \<Rightarrow> nat \<Rightarrow> char \<Rightarrow> bool" where
  "asciiRange lo hi c = (lo \<le> (of_char c :: nat) \<and> (of_char c :: nat) \<le> hi)"

definition isUpperAZ :: "char \<Rightarrow> bool" where
  "isUpperAZ c = asciiRange 65 90 c"

definition isLowerAZ :: "char \<Rightarrow> bool" where
  "isLowerAZ c = asciiRange 97 122 c"

definition isDigit09 :: "char \<Rightarrow> bool" where
  "isDigit09 c = asciiRange 48 57 c"

text \<open>
  \<^verbatim>\<open>strings.ToLower\<close> and \<^verbatim>\<open>strings.ToUpper\<close> on the bytes of a string. Go maps whole
  runes; on ASCII bytes the two agree with the functions below, and bytes above 127 are
  kept here. The only non-ASCII runes Go lowers to an ASCII letter are U+212A (to k) and
  U+0130 (to i), letters that occur in none of the level names compared against.
\<close>

definition toLowerByte :: "char \<Rightarrow> char" where
  "toLowerByte c = (if isUpperAZ c then char_of ((of_char c :: nat) + 32) else c)"

definition toUpperByte :: "char \<Rightarrow> char" where
  "toUpperByte c = (if isLowerAZ c then char_of ((of_char c :: nat) - 32) else c)"

definition strings_ToLower :: "string \<Rightarrow> string" where
  "strings_ToLower s = map toLowerByte s"

definition strings_ToUpper :: "string \<Rightarrow> string" where
  "strings_ToUpper s = map toUpperByte s"

definition strings_HasPrefix :: "string \<Rightarrow> string \<Rightarrow> bool" where
  "strings_HasPrefix s p = (length p \<le> length s \<and> take (length p) s = p)"

text \<open>\<^verbatim>\<open>strings.NewReplacer(old, new).Replace\<close> for a one-byte \<open>old\<close>.\<close>

definition Replacer_Replace :: "char \<Rightarrow> string \<Rightarrow> string \<Rightarrow> string" where
  "Replacer_Replace old new s = concat (map (\<lambda>c. if c = old then new else [c]) s)"

text \<open>\<^verbatim>\<open>strings.Join\<close>.\<close>

fun strings_Join :: "string list \<Rightarrow> string \<Rightarrow> string" where
  "strings_Join [] sep = []"
| "strings_Join [x] sep = x"
| "strings_Join (x # y # ys) sep = x @ sep @ strings_Join (y # ys) sep"

text \<open>Splitting at every occurrence of a byte (\<^verbatim>\<open>strings.Split\<close> with a one-byte separator).\<close>

fun splitOn :: "char \<Rightarrow> string \<Rightarrow> string list" where
  "splitOn sep [] = [[]]"
| "splitOn sep (c # cs) =
     (if c = sep then [] # splitOn sep cs
      else (case splitOn sep cs of
              [] \<Rightarrow> [[c]]
            | x # xs \<Rightarrow> (c # x) # xs))"

subsection \<open>\<^verbatim>\<open>os.Expand\<close>: shell-style variable references\<close>

definition isShellSpecialVar :: "char \<Rightarrow> bool" where
  "isShellSpecialVar c = (c \<in> set ''*#$@!?-0123456789'')"

definition isAlphaNum :: "char \<Rightarrow> bool" where
  "isAlphaNum c = (c = CHR ''_'' \<or> isDigit09 c \<or> isLowerAZ c \<or> isUpperAZ c)"

text \<open>Position of the first closing brace at index 1 or later, as the scan loop finds it.\<close>

fun findBrace :: "nat \<Rightarrow> string \<Rightarrow> nat option" where
  "findBrace i [] = None"
| "findBrace i (c # cs) = (if c = CHR ''}'' then Some i else findBrace (Suc i) cs)"

text \<open>
  \<^verbatim>\<open>getShellName\<close>: the name after a dollar sign and the number of bytes it takes.
  It is only called on a non-empty string.
\<close>

definition getShellName :: "string \<Rightarrow> string \<times> nat" where
  "getShellName s =
     (case s of
        [] \<Rightarrow> ([], 0)
      | c # cs \<Rightarrow>
          if c = CHR ''{'' then
            (if length s > 2 \<and> isShellSpecialVar (s ! 1) \<and> s ! 2 = CHR ''}''
             then ([s ! 1], 3)
             else (case findBrace 1 cs of
                     None \<Rightarrow> ([], 1)
                   | Some i \<Rightarrow> if i = 1 then ([], 2) else (take (i - 1) cs, i + 1)))
          else if isShellSpecialVar c then ([c], 1)
          else (let name = takeWhile isAlphaNum s in (name, length name)))"

fun os_Expand :: "(string \<Rightarrow> string) \<Rightarrow> string \<Rightarrow> string" where
  "os_Expand mapping [] = []"
| "os_Expand mapping (c # rest) =
     (if c = CHR ''$'' \<and> rest \<noteq> [] then
        (let name = fst (getShellName rest); w = snd (getShellName rest)
         in (if name = [] \<and> w > 0 then []
             else if name = [] then [c]
             else mapping name) @ os_Expand mapping (drop w rest))
      else c # os_Expand mapping rest)"

subsection \<open>\<^verbatim>\<open>path/filepath\<close> on slash-separated systems\<close>

text \<open>
  \<^verbatim>\<open>filepath.Clean\<close>, \<^verbatim>\<open>filepath.Join\<close> and \<^verbatim>\<open>filepath.Dir\<close> as they behave where the
  separator is the slash and there are no volume names. \<open>cleanStep\<close> keeps the elements
  written so far, last one first: an empty element and a dot are dropped, a double dot
  removes the last real element, is kept on a relative path when there is nothing to
  remove, and is dropped at the root.
\<close>

definition cleanStep :: "bool \<Rightarrow> string \<Rightarrow> string list \<Rightarrow> string list" where
  "cleanStep rooted el out =
     (if el = [] \<or> el = ''.'' then out
      else if el = ''..'' then
        (case out of
           [] \<Rightarrow> if rooted then [] else [''..'']
         | el0 # below \<Rightarrow> if el0 = ''..'' then ''..'' # out else below)
      else el # out)"

definition filepath_Clean :: "string \<Rightarrow> string" where
  "filepath_Clean path =
     (if path = [] then ''.''
      else (let rooted = (hd path = CHR ''/'');
                out = rev (fold (cleanStep rooted) (splitOn CHR ''/'' path) [])
            in if rooted then ''/'' @ strings_Join out ''/''
               else if out = [] then ''.''
               else strings_Join out ''/''))"

definition filepath_Join :: "string list \<Rightarrow> string" where
  "filepath_Join elem =
     (case dropWhile (\<lambda>e. e = []) elem of
        [] \<Rightarrow> []
      | e # es \<Rightarrow> filepath_Clean (strings_Join (e # es) ''/''))"

text \<open>The part of a path up to and including its last slash (empty when there is none).\<close>

definition uptoLastSlash :: "string \<Rightarrow> string" where
  "uptoLastSlash path = rev (dropWhile (\<lambda>c. c \<noteq> CHR ''/'') (rev path))"

definition filepath_Dir :: "string \<Rightarrow> string" where
  "filepath_Dir path = filepath_Clean (uptoLastSlash path)"

subsection \<open>The operating system as the package sees it\<close>

text \<open>
  The world holds what the package reads from its process (target system, environment,
  the per-user directories the standard library reports, what standard error is
  attached to, the clock, which names denote which file) and what it can change (the
  file system, the table of opened files, the text written to standard error).

  A name denotes a file through \<open>fileId\<close>: the cleaned name is mapped to the identity of
  the file it reaches, so that a relative and an absolute name of one file, or a name
  that goes through a link, have one identity; the file system maps identities to nodes.
  The root and the current directory always exist. \<open>denied\<close> marks the names on which
  every call fails for lack of permission. \<open>trace\<close> lists, in order, the calls that named
  a path or an opened file.
\<close>

datatype node = RegFile string | Dir

text \<open>
  What a standard stream is: a nil pointer, a file that was closed, or a descriptor
  attached to a terminal, to another character device (the null device, say), or to
  something that is no character device (a regular file, a pipe, a socket).
\<close>

datatype attachment = Terminal | OtherCharDevice | NotCharDevice

datatype osFile = NilFile | ClosedFile | Attached attachment

text \<open>Of \<^verbatim>\<open>os.FileInfo\<close> the package reads one bit of the mode.\<close>

record FileInfo =
  ModeCharDevice :: bool

datatype errno = ENOENT | ENOTDIR | EISDIR | EACCES | EEXIST | ErrClosed

datatype syscall =
    SysStat string
  | SysReadFile string
  | SysMkdirAll string
  | SysWriteFile string
  | SysOpenFile string
  | SysWrite nat
  | SysClose nat

record world =
  goos :: string
  env :: "string \<Rightarrow> string option"
  userConfigDir :: "string option"
  userCacheDir :: "string option"
  osStderr :: osFile
  clock :: string
  fileId :: "string \<Rightarrow> string"
  denied :: "string \<Rightarrow> bool"
  fs :: "string \<Rightarrow> node option"
  files :: "(string \<times> bool) list"
  stderr :: "string list"
  trace :: "syscall list"

definition traced :: "syscall \<Rightarrow> world \<Rightarrow> world" where
  "traced ev w = w\<lparr>trace := trace w @ [ev]\<rparr>"

text \<open>The file a path denotes, and the node there.\<close>

definition fileOf :: "world \<Rightarrow> string \<Rightarrow> string" where
  "fileOf w path = fileId w (filepath_Clean path)"

definition nodeAt :: "world \<Rightarrow> string \<Rightarrow> node option" where
  "nodeAt w path =
     (if path = [] then None
      else (let p = filepath_Clean path
            in if p = ''/'' \<or> p = ''.'' then Some Dir else fs w (fileOf w path)))"

text \<open>
  The error for a path with no node: the system walks the path from the root, so what
  it reports depends on the closest ancestor that exists, \<^verbatim>\<open>ENOTDIR\<close> when that is a
  regular file and \<^verbatim>\<open>ENOENT\<close> when it is a directory. \<open>firstPresent\<close> climbs at most as
  many steps as the path has characters.
\<close>

fun firstPresent :: "nat \<Rightarrow> world \<Rightarrow> string \<Rightarrow> node option" where
  "firstPresent 0 w p = None"
| "firstPresent (Suc n) w p =
     (case nodeAt w (filepath_Dir p) of
        Some x \<Rightarrow> Some x
      | None \<Rightarrow> firstPresent n w (filepath_Dir p))"

definition absentErr :: "world \<Rightarrow> string \<Rightarrow> errno" where
  "absentErr w path =
     (case firstPresent (length path) w (filepath_Clean path) of
        Some (RegFile c) \<Rightarrow> ENOTDIR
      | _ \<Rightarrow> ENOENT)"

definition statNode :: "world \<Rightarrow> string \<Rightarrow> errno + node" where
  "statNode w path =
     (if path = [] then Inl ENOENT
      else if denied w (filepath_Clean path) then Inl EACCES
      else (case nodeAt w path of None \<Rightarrow> Inl (absentErr w path) | Some n \<Rightarrow> Inr n))"

text \<open>\<^verbatim>\<open>os.Getenv\<close>, \<^verbatim>\<open>os.LookupEnv\<close>, \<^verbatim>\<open>os.ExpandEnv\<close>, \<^verbatim>\<open>os.UserHomeDir\<close>.\<close>

definition os_LookupEnv :: "world \<Rightarrow> string \<Rightarrow> string option" where
  "os_LookupEnv w key = env w key"

definition os_Getenv :: "world \<Rightarrow> string \<Rightarrow> string" where
  "os_Getenv w key = (case env w key of None \<Rightarrow> [] | Some v \<Rightarrow> v)"

definition os_ExpandEnv :: "world \<Rightarrow> string \<Rightarrow> string" where
  "os_ExpandEnv w s = os_Expand (os_Getenv w) s"

definition os_UserHomeDir :: "world \<Rightarrow> string option" where
  "os_UserHomeDir w =
     (let name = (if goos w = ''windows'' then ''USERPROFILE''
                  else if goos w = ''plan9'' then ''home''
                  else ''HOME'');
          v = os_Getenv w name
      in if v \<noteq> [] then Some v
         else if goos w = ''android'' then Some ''/sdcard''
         else if goos w = ''ios'' then Some ''/''
         else None)"

text \<open>\<^verbatim>\<open>os.Stat\<close> and reading a whole file.\<close>

definition os_Stat :: "world \<Rightarrow> string \<Rightarrow> (errno + node) \<times> world" where
  "os_Stat w path = (statNode w path, traced (SysStat path) w)"

definition os_IsNotExist :: "errno \<Rightarrow> bool" where
  "os_IsNotExist e = (e = ENOENT)"

definition os_ReadFile :: "world \<Rightarrow> string \<Rightarrow> (errno + string) \<times> world" where
  "os_ReadFile w path =
     ((case statNode w path of
         Inl e \<Rightarrow> Inl e
       | Inr Dir \<Rightarrow> Inl EISDIR
       | Inr (RegFile c) \<Rightarrow> Inr c),
      traced (SysReadFile path) w)"

text \<open>
  \<^verbatim>\<open>os.Mkdir\<close> creates one directory below an existing one. \<^verbatim>\<open>os.MkdirAll\<close> follows the
  standard library: done if the path is a directory, an error if it is a file, else the
  parent first and then the path itself.
\<close>

definition mkdir :: "world \<Rightarrow> string \<Rightarrow> errno option \<times> world" where
  "mkdir w path =
     (if path = [] then (Some ENOENT, w)
      else (let p = filepath_Clean path
            in if denied w p then (Some EACCES, w)
               else if nodeAt w path \<noteq> None then (Some EEXIST, w)
               else (case nodeAt w (filepath_Dir p) of
                       None \<Rightarrow> (Some (absentErr w path), w)
                     | Some (RegFile c) \<Rightarrow> (Some ENOTDIR, w)
                     | Some Dir \<Rightarrow> (None, w\<lparr>fs := (fs w)(fileOf w path := Some Dir)\<rparr>))))"

definition mkdirParent :: "string \<Rightarrow> string" where
  "mkdirParent path =
     rev (dropWhile (\<lambda>c. c \<noteq> CHR ''/'') (dropWhile (\<lambda>c. c = CHR ''/'') (rev path)))"

function mkdirAll :: "world \<Rightarrow> string \<Rightarrow> errno option \<times> world" where
  "mkdirAll w path =
     (case statNode w path of
        Inr Dir \<Rightarrow> (None, w)
      | Inr (RegFile c) \<Rightarrow> (Some ENOTDIR, w)
      | Inl e \<Rightarrow>
          (let parent = mkdirParent path;
               up = (if parent \<noteq> [] then mkdirAll w parent else (None, w))
           in (case fst up of
                 Some e1 \<Rightarrow> (Some e1, snd up)
               | None \<Rightarrow>
                   (case fst (mkdir (snd up) path) of
                      None \<Rightarrow> mkdir (snd up) path
                    | Some e2 \<Rightarrow>
                        (case statNode (snd up) path of
                           Inr Dir \<Rightarrow> (None, snd up)
                         | _ \<Rightarrow> (Some e2, snd up))))))"
  by pat_completeness auto
termination
proof (relation "measure (\<lambda>(w, path). length path)")
  show "wf (measure (\<lambda>(w, path). length path))" by simp
next
  fix w :: world and path parent :: string and e :: errno
  assume par: "parent = mkdirParent path" and ne: "parent \<noteq> []"
  define ys where "ys = dropWhile (\<lambda>c. c = CHR ''/'') (rev path)"
  have parent: "parent = rev (dropWhile (\<lambda>c. c \<noteq> CHR ''/'') ys)"
    using par unfolding mkdirParent_def ys_def by simp
  have ys: "ys \<noteq> []" using ne parent by (cases ys) simp_all
  then have "\<not> hd ys = CHR ''/''" unfolding ys_def by (rule hd_dropWhile)
  then have "dropWhile (\<lambda>c. c \<noteq> CHR ''/'') ys = dropWhile (\<lambda>c. c \<noteq> CHR ''/'') (tl ys)"
    using ys by (cases ys) simp_all
  moreover have "length (dropWhile (\<lambda>c. c \<noteq> CHR ''/'') (tl ys)) \<le> length (tl ys)"
    by (rule length_dropWhile_le)
  moreover have "length (tl ys) < length ys" using ys by (cases ys) simp_all
  moreover have "length ys \<le> length (rev path)" unfolding ys_def by (rule length_dropWhile_le)
  ultimately have "length parent < length path" using parent by simp
  then show "((w, parent), (w, path)) \<in> measure (\<lambda>(w, path). length path)" by simp
qed

declare mkdirAll.simps [simp del]

definition os_MkdirAll :: "world \<Rightarrow> string \<Rightarrow> errno option \<times> world" where
  "os_MkdirAll w path =
     (fst (mkdirAll w path), traced (SysMkdirAll path) (snd (mkdirAll w path)))"

text \<open>
  \<^verbatim>\<open>os.WriteFile\<close> creates or truncates a file in an existing directory.
  \<^verbatim>\<open>os.OpenFile\<close> is modelled for the flags the package passes (append, create, write
  only): an existing file is left as it is, a missing one is created empty; the result
  is the index of the new entry of the table of opened files, which holds the identity
  of the file and whether the entry is still open.
\<close>

definition os_WriteFile :: "world \<Rightarrow> string \<Rightarrow> string \<Rightarrow> errno option \<times> world" where
  "os_WriteFile w path content =
     (let w1 = traced (SysWriteFile path) w; p = filepath_Clean path; k = fileOf w path
      in if path = [] then (Some ENOENT, w1)
         else if denied w p then (Some EACCES, w1)
         else (case nodeAt w path of
                 Some Dir \<Rightarrow> (Some EISDIR, w1)
               | Some (RegFile c) \<Rightarrow> (None, w1\<lparr>fs := (fs w)(k := Some (RegFile content))\<rparr>)
               | None \<Rightarrow>
                   (case nodeAt w (filepath_Dir p) of
                      None \<Rightarrow> (Some (absentErr w path), w1)
                    | Some (RegFile c) \<Rightarrow> (Some ENOTDIR, w1)
                    | Some Dir \<Rightarrow> (None, w1\<lparr>fs := (fs w)(k := Some (RegFile content))\<rparr>))))"

definition os_OpenFile :: "world \<Rightarrow> string \<Rightarrow> (errno + nat) \<times> world" where
  "os_OpenFile w path =
     (let w1 = traced (SysOpenFile path) w; p = filepath_Clean path; k = fileOf w path;
          opened = (\<lambda>w2. (Inr (length (files w)), w2\<lparr>files := files w @ [(k, True)]\<rparr>))
      in if path = [] then (Inl ENOENT, w1)
         else if denied w p then (Inl EACCES, w1)
         else (case nodeAt w path of
                 Some Dir \<Rightarrow> (Inl EISDIR, w1)
               | Some (RegFile c) \<Rightarrow> opened w1
               | None \<Rightarrow>
                   (case nodeAt w (filepath_Dir p) of
                      None \<Rightarrow> (Inl (absentErr w path), w1)
                    | Some (RegFile c) \<Rightarrow> (Inl ENOTDIR, w1)
                    | Some Dir \<Rightarrow> opened (w1\<lparr>fs := (fs w)(k := Some (RegFile []))\<rparr>))))"

text \<open>
  Writing through an opened file appends to the file it names; \<^verbatim>\<open>Close\<close> on a file
  that was closed before returns \<^verbatim>\<open>os.ErrClosed\<close> and does nothing.
\<close>

definition isOpen :: "world \<Rightarrow> nat \<Rightarrow> bool" where
  "isOpen w h = (h < length (files w) \<and> snd (files w ! h))"

definition File_Write :: "world \<Rightarrow> nat \<Rightarrow> string \<Rightarrow> errno option \<times> world" where
  "File_Write w h s =
     (if isOpen w h then
        (let p = fst (files w ! h); w1 = traced (SysWrite h) w
         in (case fs w p of
               Some (RegFile c) \<Rightarrow> (None, w1\<lparr>fs := (fs w)(p := Some (RegFile (c @ s)))\<rparr>)
             | _ \<Rightarrow> (None, w1)))
      else (Some ErrClosed, w))"

definition File_Close :: "world \<Rightarrow> nat \<Rightarrow> errno option \<times> world" where
  "File_Close w h =
     (if isOpen w h then
        (None, traced (SysClose h) (w\<lparr>files := (files w)[h := (fst (files w ! h), False)]\<rparr>))
      else (Some ErrClosed, w))"

text \<open>
  \<^verbatim>\<open>Stat\<close> on a standard stream: the error of a closed file, else the mode, in which the
  character-device bit is set for a terminal and for every other character device.
\<close>

definition File_Stat :: "osFile \<Rightarrow> errno + FileInfo" where
  "File_Stat f =
     (case f of
        Attached a \<Rightarrow> Inr \<lparr>ModeCharDevice = (a \<noteq> NotCharDevice)\<rparr>
      | _ \<Rightarrow> Inl ErrClosed)"

subsection \<open>Flags, paths, configuration document and errors\<close>

text \<open>\<^verbatim>\<open>flags.go\<close>: the global options shared by all commands.\<close>

record CommonFlags =
  ConfigPath :: string
  Quiet :: bool
  Verbose :: int
  Debug :: bool
  Trace :: bool
  JSON :: bool
  YAML :: bool
  NoColor :: bool
  Color :: string
  DryRun :: bool
  AssumeYes :: bool
  TimeoutSeconds :: "int option"
  Parallelism :: "int option"
  NoProgress :: bool
  Diagnostics :: bool

text \<open>\<^verbatim>\<open>paths.go\<close>: the resolved locations.\<close>

record AppPaths =
  ConfigFile :: string
  DataDir :: string
  StateDir :: string

text \<open>\<^verbatim>\<open>config.go\<close>: the configuration schema.\<close>

record LoggingConfig =
  Level :: string
  File :: string

record RuntimeConfig =
  Parallelism :: "int option"
  TimeoutSeconds :: "int option"
  FailFast :: bool

record PathsConfig =
  DataDir :: string
  StateDir :: string

record AppConfig =
  Profile :: string
  Logging :: LoggingConfig
  Runtime :: RuntimeConfig
  Paths :: PathsConfig

text \<open>
  The errors the package returns, one constructor for each \<^verbatim>\<open>fmt.Errorf\<close> or passed-on
  error, with the path or system error it reports.
\<close>

datatype viperError = ConfigFileNotFoundError | ReadError errno | ConfigParseError

datatype error =
    ErrExpand string
  | ErrDetermineHome
  | ErrStatConfig errno
  | ErrCreateConfigDir errno
  | ErrWriteConfig errno
  | ErrReadConfig viperError
  | ErrDecodeConfig
  | ErrExpandLogFile string
  | ErrCreatingDirectory string errno
  | ErrOpenLogFile string errno
  | ErrConflictingOutputFormat
  | ErrInvalidColor string
  | ErrClose errno

subsection \<open>\<^verbatim>\<open>util.go\<close>\<close>

definition appName :: string where
  "appName = ''go-cli''"

definition expandPath :: "world \<Rightarrow> string \<Rightarrow> error + string" where
  "expandPath w path =
     (if path = [] then Inr []
      else (let result = os_ExpandEnv w path
            in if strings_HasPrefix result ''~'' then
                 (case os_UserHomeDir w of
                    None \<Rightarrow> Inl (ErrExpand path)
                  | Some home \<Rightarrow>
                      Inr (filepath_Clean
                            (if result = ''~'' then home
                             else if strings_HasPrefix result ''~/''
                               then filepath_Join [home, drop 2 result]
                             else result)))
               else Inr (filepath_Clean result)))"

text \<open>
  \<^verbatim>\<open>toEnvPrefix\<close> maps each rune; the model maps each byte, which is the same on the
  ASCII names the package passes.
\<close>

definition toEnvPrefix :: "string \<Rightarrow> string" where
  "toEnvPrefix name =
     map (\<lambda>r. if isLowerAZ r then char_of ((of_char r :: nat) - 32)
               else if isUpperAZ r then r
               else if isDigit09 r then r
               else CHR ''_'') name"

definition EnvPrefix :: string where
  "EnvPrefix = toEnvPrefix appName"

definition isTerminal :: "osFile \<Rightarrow> bool" where
  "isTerminal f =
     (if f = NilFile then False
      else (case File_Stat f of
              Inl err \<Rightarrow> False
            | Inr info \<Rightarrow> ModeCharDevice info))"

subsection \<open>\<^verbatim>\<open>paths.go\<close>\<close>

definition homeJoin :: "world \<Rightarrow> string list \<Rightarrow> error + string" where
  "homeJoin w els =
     (case os_UserHomeDir w of
        None \<Rightarrow> Inl ErrDetermineHome
      | Some home \<Rightarrow> Inr (filepath_Join (home # els)))"

definition defaultConfigDir :: "world \<Rightarrow> string \<Rightarrow> error + string" where
  "defaultConfigDir w app =
     (if os_Getenv w ''XDG_CONFIG_HOME'' \<noteq> [] then
        Inr (filepath_Join [os_Getenv w ''XDG_CONFIG_HOME'', app])
      else if goos w = ''windows'' \<and> os_Getenv w ''APPDATA'' \<noteq> [] then
        Inr (filepath_Join [os_Getenv w ''APPDATA'', app])
      else (case userConfigDir w of
              Some dir \<Rightarrow>
                if dir \<noteq> [] then Inr (filepath_Join [dir, app])
                else homeJoin w [''.config'', app]
            | None \<Rightarrow> homeJoin w [''.config'', app]))"

definition defaultDataDir :: "world \<Rightarrow> string \<Rightarrow> error + string" where
  "defaultDataDir w app =
     (if os_Getenv w ''XDG_DATA_HOME'' \<noteq> [] then
        Inr (filepath_Join [os_Getenv w ''XDG_DATA_HOME'', app])
      else if goos w = ''windows'' \<and> os_Getenv w ''LOCALAPPDATA'' \<noteq> [] then
        Inr (filepath_Join [os_Getenv w ''LOCALAPPDATA'', app])
      else (case userCacheDir w of
              Some dir \<Rightarrow>
                if dir \<noteq> [] \<and> goos w = ''darwin'' then Inr (filepath_Join [dir, app])
                else homeJoin w [''.local'', ''share'', app]
            | None \<Rightarrow> homeJoin w [''.local'', ''share'', app]))"

definition defaultStateDir :: "world \<Rightarrow> string \<Rightarrow> error + string" where
  "defaultStateDir w app =
     (if os_Getenv w ''XDG_STATE_HOME'' \<noteq> [] then
        Inr (filepath_Join [os_Getenv w ''XDG_STATE_HOME'', app])
      else if goos w = ''windows'' \<and> os_Getenv w ''LOCALAPPDATA'' \<noteq> [] then
        Inr (filepath_Join [os_Getenv w ''LOCALAPPDATA'', app])
      else homeJoin w [''.local'', ''state'', app])"

definition resolveConfigFile :: "world \<Rightarrow> string \<Rightarrow> string \<Rightarrow> (error + string) \<times> world" where
  "resolveConfigFile w app override =
     (if override \<noteq> [] then
        (case expandPath w override of
           Inl e \<Rightarrow> (Inl e, w)
         | Inr path \<Rightarrow>
             (case fst (os_Stat w path) of
                Inr Dir \<Rightarrow> (Inr (filepath_Join [path, ''config.toml'']), snd (os_Stat w path))
              | _ \<Rightarrow> (Inr path, snd (os_Stat w path))))
      else (case defaultConfigDir w app of
              Inl e \<Rightarrow> (Inl e, w)
            | Inr dir \<Rightarrow> (Inr (filepath_Join [dir, ''config.toml'']), w)))"

definition DiscoverPaths :: "world \<Rightarrow> string \<Rightarrow> string \<Rightarrow> (error + AppPaths) \<times> world" where
  "DiscoverPaths w app override =
     (case resolveConfigFile w app override of
        (Inl e, w1) \<Rightarrow> (Inl e, w1)
      | (Inr configFile, w1) \<Rightarrow>
          (case defaultDataDir w1 app of
             Inl e \<Rightarrow> (Inl e, w1)
           | Inr dataDir \<Rightarrow>
               (case defaultStateDir w1 app of
                  Inl e \<Rightarrow> (Inl e, w1)
                | Inr stateDir \<Rightarrow>
                    (Inr \<lparr>ConfigFile = configFile, AppPaths.DataDir = dataDir,
                          AppPaths.StateDir = stateDir\<rparr>, w1))))"

definition ApplyPathOverrides :: "world \<Rightarrow> AppPaths \<Rightarrow> AppConfig \<Rightarrow> error + AppPaths" where
  "ApplyPathOverrides w paths cfg =
     (case (if PathsConfig.DataDir (Paths cfg) \<noteq> [] then
              (case expandPath w (PathsConfig.DataDir (Paths cfg)) of
                 Inl e \<Rightarrow> Inl e
               | Inr v \<Rightarrow> Inr (paths\<lparr>AppPaths.DataDir := v\<rparr>))
            else Inr paths) of
        Inl e \<Rightarrow> Inl e
      | Inr current \<Rightarrow>
          (if PathsConfig.StateDir (Paths cfg) \<noteq> [] then
             (case expandPath w (PathsConfig.StateDir (Paths cfg)) of
                Inl e \<Rightarrow> Inl e
              | Inr v \<Rightarrow> Inr (current\<lparr>AppPaths.StateDir := v\<rparr>))
           else Inr current))"

fun ensureEach :: "world \<Rightarrow> string list \<Rightarrow> error option \<times> world" where
  "ensureEach w [] = (None, w)"
| "ensureEach w (dir # dirs) =
     (if dir = [] then ensureEach w dirs
      else (case fst (os_MkdirAll w dir) of
              Some e \<Rightarrow> (Some (ErrCreatingDirectory dir e), snd (os_MkdirAll w dir))
            | None \<Rightarrow> ensureEach (snd (os_MkdirAll w dir)) dirs))"

definition EnsureDirectories :: "world \<Rightarrow> AppPaths \<Rightarrow> CommonFlags \<Rightarrow> error option \<times> world" where
  "EnsureDirectories w paths flags =
     (if DryRun flags then (None, w)
      else ensureEach w [AppPaths.DataDir paths, AppPaths.StateDir paths])"

subsection \<open>The configuration library as the loader uses it\<close>

text \<open>
  The loader drives a \<^verbatim>\<open>viper\<close> instance: it names the file and its type, sets the
  environment prefix and key replacer, turns automatic environment lookup on, registers
  four defaults, reads the file and decodes the merged settings into the struct. The
  instance is a record of what these calls store. Settings are kept flat, under their
  lower-case dotted keys. Decoding the TOML text and the library's conversions between
  value kinds (a string read from the environment into an integer field, say) are not
  part of this repository: they are the fields of \<open>codec\<close>, and every general theorem
  below holds for all of them. A value of the kind of its field is stored as it is.
\<close>

datatype tomlValue = VString string | VInt int | VBool bool | VOther string

type_synonym settings = "string \<Rightarrow> tomlValue option"

record codec =
  toml_parse :: "string \<Rightarrow> settings option"
  weak_string :: "tomlValue \<Rightarrow> string option"
  weak_int :: "tomlValue \<Rightarrow> int option"
  weak_bool :: "tomlValue \<Rightarrow> bool option"

record Viper =
  configFile :: string
  configType :: string
  envPrefix :: string
  envKeyReplacer :: "(char \<times> string) option"
  automaticEnvApplied :: bool
  defaults :: settings
  config :: settings

definition viper_New :: Viper where
  "viper_New = \<lparr>configFile = [], configType = [], envPrefix = [], envKeyReplacer = None,
     automaticEnvApplied = False, defaults = Map.empty, config = Map.empty\<rparr>"

definition SetConfigFile :: "string \<Rightarrow> Viper \<Rightarrow> Viper" where
  "SetConfigFile path v = v\<lparr>configFile := path\<rparr>"

definition SetConfigType :: "string \<Rightarrow> Viper \<Rightarrow> Viper" where
  "SetConfigType t v = v\<lparr>configType := t\<rparr>"

definition SetEnvPrefix :: "string \<Rightarrow> Viper \<Rightarrow> Viper" where
  "SetEnvPrefix p v = v\<lparr>envPrefix := p\<rparr>"

definition SetEnvKeyReplacer :: "char \<Rightarrow> string \<Rightarrow> Viper \<Rightarrow> Viper" where
  "SetEnvKeyReplacer old new v = v\<lparr>envKeyReplacer := Some (old, new)\<rparr>"

definition AutomaticEnv :: "Viper \<Rightarrow> Viper" where
  "AutomaticEnv v = v\<lparr>automaticEnvApplied := True\<rparr>"

definition SetDefault :: "string \<Rightarrow> tomlValue \<Rightarrow> Viper \<Rightarrow> Viper" where
  "SetDefault key val v = v\<lparr>defaults := (defaults v)(strings_ToLower key \<mapsto> val)\<rparr>"

text \<open>
  The name of the environment variable for a key: prefix, underscore and key in upper
  case, then the key replacer. A variable that is unset or empty does not count.
\<close>

definition mergeWithEnvPrefix :: "Viper \<Rightarrow> string \<Rightarrow> string" where
  "mergeWithEnvPrefix v key =
     (if envPrefix v \<noteq> [] then strings_ToUpper (envPrefix v @ ''_'' @ key)
      else strings_ToUpper key)"

definition getEnv :: "Viper \<Rightarrow> world \<Rightarrow> string \<Rightarrow> string option" where
  "getEnv v w key =
     (let k = (case envKeyReplacer v of
                 None \<Rightarrow> key
               | Some (old, new) \<Rightarrow> Replacer_Replace old new key)
      in (case os_LookupEnv w k of
            None \<Rightarrow> None
          | Some val \<Rightarrow> if val \<noteq> [] then Some val else None))"

text \<open>
  Looking a key up: the environment first, then the file, then the defaults. Only keys
  that the file or the defaults mention are decoded into the struct.
\<close>

definition viper_find :: "Viper \<Rightarrow> world \<Rightarrow> string \<Rightarrow> tomlValue option" where
  "viper_find v w key =
     (case (if automaticEnvApplied v then getEnv v w (mergeWithEnvPrefix v key) else None) of
        Some val \<Rightarrow> Some (VString val)
      | None \<Rightarrow> (case config v key of Some x \<Rightarrow> Some x | None \<Rightarrow> defaults v key))"

definition viper_isKey :: "Viper \<Rightarrow> string \<Rightarrow> bool" where
  "viper_isKey v key = (config v key \<noteq> None \<or> defaults v key \<noteq> None)"

definition viper_setting :: "Viper \<Rightarrow> world \<Rightarrow> string \<Rightarrow> tomlValue option" where
  "viper_setting v w key = (if viper_isKey v key then viper_find v w key else None)"

text \<open>
  \<^verbatim>\<open>ReadInConfig\<close>: with no file named the library searches its (empty) list of
  directories and reports that no configuration file was found; else it reads the named
  file and parses it.
\<close>

definition ReadInConfig :: "codec \<Rightarrow> Viper \<Rightarrow> world \<Rightarrow> (viperError + Viper) \<times> world" where
  "ReadInConfig cdc v w =
     (if configFile v = [] then (Inl ConfigFileNotFoundError, w)
      else (case fst (os_ReadFile w (configFile v)) of
              Inl e \<Rightarrow> (Inl (ReadError e), snd (os_ReadFile w (configFile v)))
            | Inr text \<Rightarrow>
                (case toml_parse cdc text of
                   None \<Rightarrow> (Inl ConfigParseError, snd (os_ReadFile w (configFile v)))
                 | Some s \<Rightarrow> (Inr (v\<lparr>config := s\<rparr>), snd (os_ReadFile w (configFile v))))))"

definition isNotFound :: "viperError \<Rightarrow> bool" where
  "isNotFound e = (e = ConfigFileNotFoundError)"

definition viper_IsNotExist :: "viperError \<Rightarrow> bool" where
  "viper_IsNotExist e = (case e of ReadError x \<Rightarrow> os_IsNotExist x | _ \<Rightarrow> False)"

text \<open>Decoding one setting into a field: an absent setting leaves the field as it is.\<close>

definition decode_string :: "codec \<Rightarrow> tomlValue \<Rightarrow> string option" where
  "decode_string cdc x = (case x of VString s \<Rightarrow> Some s | _ \<Rightarrow> weak_string cdc x)"

definition decode_int :: "codec \<Rightarrow> tomlValue \<Rightarrow> int option" where
  "decode_int cdc x = (case x of VInt n \<Rightarrow> Some n | _ \<Rightarrow> weak_int cdc x)"

definition decode_bool :: "codec \<Rightarrow> tomlValue \<Rightarrow> bool option" where
  "decode_bool cdc x = (case x of VBool b \<Rightarrow> Some b | _ \<Rightarrow> weak_bool cdc x)"

definition field :: "(tomlValue \<Rightarrow> 'a option) \<Rightarrow> tomlValue option \<Rightarrow> 'a \<Rightarrow> 'a option" where
  "field dec x old = (case x of None \<Rightarrow> Some old | Some y \<Rightarrow> dec y)"

definition ptrField ::
    "(tomlValue \<Rightarrow> 'a option) \<Rightarrow> tomlValue option \<Rightarrow> 'a option \<Rightarrow> 'a option option" where
  "ptrField dec x old = (case x of None \<Rightarrow> Some old | Some y \<Rightarrow> map_option Some (dec y))"

definition Unmarshal :: "codec \<Rightarrow> Viper \<Rightarrow> world \<Rightarrow> AppConfig \<Rightarrow> error + AppConfig" where
  "Unmarshal cdc v w cfg =
     (case field (decode_string cdc) (viper_setting v w ''profile'') (Profile cfg) of
        None \<Rightarrow> Inl ErrDecodeConfig
      | Some profile \<Rightarrow>
     (case field (decode_string cdc) (viper_setting v w ''logging.level'')
             (LoggingConfig.Level (Logging cfg)) of
        None \<Rightarrow> Inl ErrDecodeConfig
      | Some level \<Rightarrow>
     (case field (decode_string cdc) (viper_setting v w ''logging.file'')
             (LoggingConfig.File (Logging cfg)) of
        None \<Rightarrow> Inl ErrDecodeConfig
      | Some file \<Rightarrow>
     (case ptrField (decode_int cdc) (viper_setting v w ''runtime.parallelism'')
             (RuntimeConfig.Parallelism (Runtime cfg)) of
        None \<Rightarrow> Inl ErrDecodeConfig
      | Some parallelism \<Rightarrow>
     (case ptrField (decode_int cdc) (viper_setting v w ''runtime.timeout'')
             (RuntimeConfig.TimeoutSeconds (Runtime cfg)) of
        None \<Rightarrow> Inl ErrDecodeConfig
      | Some timeout \<Rightarrow>
     (case field (decode_bool cdc) (viper_setting v w ''runtime.fail_fast'')
             (FailFast (Runtime cfg)) of
        None \<Rightarrow> Inl ErrDecodeConfig
      | Some failFast \<Rightarrow>
     (case field (decode_string cdc) (viper_setting v w ''paths.data_dir'')
             (PathsConfig.DataDir (Paths cfg)) of
        None \<Rightarrow> Inl ErrDecodeConfig
      | Some dataDir \<Rightarrow>
     (case field (decode_string cdc) (viper_setting v w ''paths.state_dir'')
             (PathsConfig.StateDir (Paths cfg)) of
        None \<Rightarrow> Inl ErrDecodeConfig
      | Some stateDir \<Rightarrow>
          Inr \<lparr>Profile = profile,
               Logging = \<lparr>LoggingConfig.Level = level, LoggingConfig.File = file\<rparr>,
               Runtime = \<lparr>RuntimeConfig.Parallelism = parallelism,
                          RuntimeConfig.TimeoutSeconds = timeout, FailFast = failFast\<rparr>,
               Paths = \<lparr>PathsConfig.DataDir = dataDir,
                        PathsConfig.StateDir = stateDir\<rparr>\<rparr>))))))))"

subsection \<open>\<^verbatim>\<open>config.go\<close>\<close>

definition defaultConfig :: AppConfig where
  "defaultConfig =
     \<lparr>Profile = ''default'',
      Logging = \<lparr>LoggingConfig.Level = ''info'', LoggingConfig.File = []\<rparr>,
      Runtime = \<lparr>RuntimeConfig.Parallelism = None, RuntimeConfig.TimeoutSeconds = Some 60,
                 FailFast = True\<rparr>,
      Paths = \<lparr>PathsConfig.DataDir = [], PathsConfig.StateDir = []\<rparr>\<rparr>"

definition defaultConfigHeader :: "string \<Rightarrow> string" where
  "defaultConfigHeader path =
     ''# Configuration for '' @ appName @ ''\<newline># File: '' @ path @ ''\<newline>\<newline>''"

definition defaultConfigLines :: "string list" where
  \<open>defaultConfigLines =
     [''profile = "default"'',
      [],
      ''[logging]'',
      ''# Valid levels: error, warn, info, debug, trace'',
      ''level = "info"'',
      ''# Optional path for log file output; supports ~ and environment variables.'',
      ''# file = "~/Library/Logs/'' @ appName @ ''.log"'',
      [],
      ''[runtime]'',
      ''# Override the worker pool size; defaults to logical CPU count when unset.'',
      ''# parallelism = 8'',
      ''# Timeout in seconds for long-running operations.'',
      ''timeout = 60'',
      ''fail_fast = true'',
      [],
      ''[paths]'',
      ''# Uncomment to move persistent data/state to custom directories.'',
      ''# data_dir = "$XDG_DATA_HOME/'' @ appName @ ''"'',
      ''# state_dir = "$XDG_STATE_HOME/'' @ appName @ ''"'']\<close>

definition defaultConfigBody :: string where
  "defaultConfigBody = concat (map (\<lambda>l. l @ ''\<newline>'') defaultConfigLines)"

definition writeDefaultConfig :: "world \<Rightarrow> string \<Rightarrow> error option \<times> world" where
  "writeDefaultConfig w path =
     (case fst (os_MkdirAll w (filepath_Dir path)) of
        Some e \<Rightarrow> (Some (ErrCreateConfigDir e), snd (os_MkdirAll w (filepath_Dir path)))
      | None \<Rightarrow>
          (let w1 = snd (os_MkdirAll w (filepath_Dir path));
               body = defaultConfigHeader path @ defaultConfigBody
           in (case fst (os_WriteFile w1 path body) of
                 Some e \<Rightarrow> (Some (ErrWriteConfig e), snd (os_WriteFile w1 path body))
               | None \<Rightarrow> (None, snd (os_WriteFile w1 path body)))))"

definition eprint :: "string \<Rightarrow> world \<Rightarrow> world" where
  "eprint s w = w\<lparr>stderr := stderr w @ [s]\<rparr>"

text \<open>The first statement of \<^verbatim>\<open>LoadOrInitConfig\<close>: make sure the file is there.\<close>

definition ensureConfigFile :: "world \<Rightarrow> AppPaths \<Rightarrow> CommonFlags \<Rightarrow> error option \<times> world" where
  "ensureConfigFile w paths flags =
     (let w1 = snd (os_Stat w (ConfigFile paths))
      in (case fst (os_Stat w (ConfigFile paths)) of
            Inr n \<Rightarrow> (None, w1)
          | Inl e \<Rightarrow>
              if os_IsNotExist e then
                (if DryRun flags then
                   (None, eprint (''dry-run: would create default config at ''
                                   @ ConfigFile paths @ ''\<newline>'') w1)
                 else writeDefaultConfig w1 (ConfigFile paths))
              else (Some (ErrStatConfig e), w1)))"

text \<open>The instance as the loader configures it before reading.\<close>

definition configuredViper :: "AppPaths \<Rightarrow> AppConfig \<Rightarrow> Viper" where
  "configuredViper paths cfg =
     (SetDefault ''runtime.fail_fast'' (VBool True)
      (SetDefault ''runtime.timeout'' (VInt 60)
      (SetDefault ''logging.level'' (VString (LoggingConfig.Level (Logging cfg)))
      (SetDefault ''profile'' (VString (Profile cfg))
      (AutomaticEnv
      (SetEnvKeyReplacer CHR ''.'' ''__''
      (SetEnvPrefix EnvPrefix
      (SetConfigType ''toml''
      (SetConfigFile (ConfigFile paths) viper_New)))))))))"

text \<open>The last two statements: expand the log file path, fill in the timeout.\<close>

definition finishConfig :: "world \<Rightarrow> AppConfig \<Rightarrow> error + AppConfig" where
  "finishConfig w cfg =
     (case (if LoggingConfig.File (Logging cfg) \<noteq> [] then
              (case expandPath w (LoggingConfig.File (Logging cfg)) of
                 Inl e \<Rightarrow> Inl (ErrExpandLogFile (LoggingConfig.File (Logging cfg)))
               | Inr expanded \<Rightarrow>
                   Inr (cfg\<lparr>Logging := (Logging cfg)\<lparr>LoggingConfig.File := expanded\<rparr>\<rparr>))
            else Inr cfg) of
        Inl e \<Rightarrow> Inl e
      | Inr cfg1 \<Rightarrow>
          Inr (if RuntimeConfig.TimeoutSeconds (Runtime cfg1) = None
               then cfg1\<lparr>Runtime := (Runtime cfg1)\<lparr>RuntimeConfig.TimeoutSeconds := Some 60\<rparr>\<rparr>
               else cfg1))"

definition LoadOrInitConfig ::
    "codec \<Rightarrow> world \<Rightarrow> AppPaths \<Rightarrow> CommonFlags \<Rightarrow> (error + AppConfig) \<times> world" where
  "LoadOrInitConfig cdc w paths flags =
     (case ensureConfigFile w paths flags of
        (Some e, w1) \<Rightarrow> (Inl e, w1)
      | (None, w1) \<Rightarrow>
          (let cfg = defaultConfig;
               v = configuredViper paths cfg;
               rd = ReadInConfig cdc v w1;
               w2 = snd rd
           in (case (case fst rd of
                       Inr v1 \<Rightarrow> Inr v1
                     | Inl err \<Rightarrow>
                         if \<not> isNotFound err \<and> \<not> (DryRun flags \<and> viper_IsNotExist err)
                         then Inl (ErrReadConfig err) else Inr v) of
                 Inl e \<Rightarrow> (Inl e, w2)
               | Inr v1 \<Rightarrow>
                   (case Unmarshal cdc v1 w2 cfg of
                      Inl e \<Rightarrow> (Inl e, w2)
                    | Inr cfg1 \<Rightarrow> (finishConfig w2 cfg1, w2)))))"

definition WithProfileOverride :: "AppConfig \<Rightarrow> string \<Rightarrow> AppConfig" where
  "WithProfileOverride cfg profile = (if profile \<noteq> [] then cfg\<lparr>Profile := profile\<rparr> else cfg)"

subsection \<open>\<^verbatim>\<open>logging.go\<close>\<close>

text \<open>The severities, in the order of their \<^verbatim>\<open>iota\<close> values.\<close>

datatype Level = LevelError | LevelWarn | LevelInfo | LevelDebug | LevelTrace

fun levelValue :: "Level \<Rightarrow> nat" where
  "levelValue LevelError = 0"
| "levelValue LevelWarn = 1"
| "levelValue LevelInfo = 2"
| "levelValue LevelDebug = 3"
| "levelValue LevelTrace = 4"

text \<open>
  An \<^verbatim>\<open>io.Writer\<close> of the logger is standard error, \<^verbatim>\<open>io.Discard\<close> or an opened file.
  The mutex of the logger is left out: the model runs one call at a time.
\<close>

datatype writer = Stderr | Discard | FileWriter nat

record LogSettings =
  Level :: Level
  Diagnostics :: bool
  Colorize :: bool
  Writers :: "writer list"
  FileHandle :: "nat option"

record Logger =
  settings :: LogSettings

definition ConfigureLogger :: "LogSettings \<Rightarrow> Logger" where
  "ConfigureLogger s =
     \<lparr>settings = (if length (Writers s) = 0 then s\<lparr>Writers := [Discard]\<rparr> else s)\<rparr>"

definition Logger_Close :: "Logger \<Rightarrow> world \<Rightarrow> errno option \<times> world" where
  "Logger_Close l w =
     (case FileHandle (settings l) of
        Some h \<Rightarrow> File_Close w h
      | None \<Rightarrow> (None, w))"

definition io_WriteString :: "writer \<Rightarrow> string \<Rightarrow> world \<Rightarrow> world" where
  "io_WriteString wr s w =
     (case wr of
        Stderr \<Rightarrow> eprint s w
      | Discard \<Rightarrow> w
      | FileWriter h \<Rightarrow> snd (File_Write w h s))"

definition esc :: string where
  "esc = [CHR 0x1B]"

definition levelAttributes :: "Level \<Rightarrow> string \<times> string" where
  "levelAttributes level =
     (case level of
        LevelError \<Rightarrow> (''ERROR'', esc @ ''[31m'')
      | LevelWarn \<Rightarrow> (''WARN'', esc @ ''[33m'')
      | LevelInfo \<Rightarrow> (''INFO'', esc @ ''[36m'')
      | LevelDebug \<Rightarrow> (''DEBUG'', esc @ ''[35m'')
      | LevelTrace \<Rightarrow> (''TRACE'', esc @ ''[34m''))"

definition resetColor :: string where
  "resetColor = esc @ ''[0m''"

text \<open>The verb \<^verbatim>\<open>%-5s\<close>: left-justified in a field of five.\<close>

definition padRight5 :: "string \<Rightarrow> string" where
  "padRight5 s = s @ replicate (5 - length s) CHR '' ''"

text \<open>\<open>body\<close> is the message after \<^verbatim>\<open>fmt.Sprintf(msg, args...)\<close>.\<close>

definition formatMessage :: "world \<Rightarrow> Level \<Rightarrow> LogSettings \<Rightarrow> string \<Rightarrow> string" where
  "formatMessage w level s body =
     (let levelLabel = fst (levelAttributes level); color = snd (levelAttributes level);
          label = (if Colorize s \<and> color \<noteq> [] then color @ levelLabel @ resetColor
                   else levelLabel)
      in if LogSettings.Diagnostics s
         then ''['' @ clock w @ ''] '' @ padRight5 label @ '' '' @ body
         else padRight5 label @ '' '' @ body)"

definition Logger_log :: "Logger \<Rightarrow> Level \<Rightarrow> string \<Rightarrow> world \<Rightarrow> world" where
  "Logger_log l level body w =
     (if levelValue level > levelValue (LogSettings.Level (settings l)) then w
      else (let formatted = formatMessage w level (settings l) body
            in fold (\<lambda>wr w1. io_WriteString wr ''\<newline>'' (io_WriteString wr formatted w1))
                 (Writers (settings l)) w))"

definition Logger_Debug :: "Logger \<Rightarrow> string \<Rightarrow> world \<Rightarrow> world" where
  "Logger_Debug l body w = Logger_log l LevelDebug body w"

definition parseLevel :: "string \<Rightarrow> Level" where
  "parseLevel v =
     (let s = strings_ToLower v
      in if s = ''trace'' then LevelTrace
         else if s = ''debug'' then LevelDebug
         else if s = ''warn'' then LevelWarn
         else if s = ''error'' then LevelError
         else LevelInfo)"

definition shouldColorize :: "world \<Rightarrow> string \<Rightarrow> bool" where
  "shouldColorize w policy =
     (if policy = ''always'' then True
      else if policy = ''never'' then False
      else isTerminal (osStderr w))"

definition ResolveLogSettings ::
    "world \<Rightarrow> CommonFlags \<Rightarrow> AppConfig \<Rightarrow> (error + LogSettings) \<times> world" where
  "ResolveLogSettings w flags cfg =
     (let level0 = parseLevel (LoggingConfig.Level (Logging cfg));
          level = (if Trace flags then LevelTrace
                   else if Debug flags then LevelDebug
                   else if Verbose flags \<ge> 2 then LevelTrace
                   else if Verbose flags = 1 then LevelDebug
                   else if Quiet flags \<and> levelValue level0 > levelValue LevelError
                     then LevelError
                   else level0);
          colorPolicy = (if NoColor flags then ''never'' else Color flags);
          colorize = shouldColorize w colorPolicy;
          writers = (if Quiet flags then [Discard] else [Stderr]);
          file = LoggingConfig.File (Logging cfg)
      in if file \<noteq> [] \<and> \<not> DryRun flags then
           (case fst (os_OpenFile w file) of
              Inl e \<Rightarrow> (Inl (ErrOpenLogFile file e), snd (os_OpenFile w file))
            | Inr h \<Rightarrow>
                (Inr \<lparr>LogSettings.Level = level,
                      LogSettings.Diagnostics = CommonFlags.Diagnostics flags,
                      Colorize = colorize,
                      Writers = (if \<not> Quiet flags then writers @ [FileWriter h]
                                 else [FileWriter h]),
                      FileHandle = Some h\<rparr>,
                 snd (os_OpenFile w file)))
         else (Inr \<lparr>LogSettings.Level = level,
                    LogSettings.Diagnostics = CommonFlags.Diagnostics flags,
                    Colorize = colorize, Writers = writers, FileHandle = None\<rparr>, w))"

subsection \<open>\<^verbatim>\<open>context.go\<close>\<close>

text \<open>
  The runtime context. The embedded \<^verbatim>\<open>context.Context\<close> only carries the context
  itself under \<^verbatim>\<open>ContextKey\<close>; it is the \<open>cmdContext\<close> value the pre-run hook stores.
\<close>

record RuntimeContext =
  Common :: CommonFlags
  Paths :: AppPaths
  Config :: AppConfig
  Logger :: Logger
  LogSettings :: LogSettings

datatype cmdContext = CtxNil | CtxBackground | CtxWithRuntime "RuntimeContext option"

definition FromContext :: "cmdContext \<Rightarrow> RuntimeContext option" where
  "FromContext ctx = (case ctx of CtxWithRuntime (Some rtx) \<Rightarrow> Some rtx | _ \<Rightarrow> None)"

definition resolvedPathsMessage :: "AppPaths \<Rightarrow> string" where
  "resolvedPathsMessage p =
     ''resolved paths: config='' @ ConfigFile p @ '' data='' @ AppPaths.DataDir p
       @ '' state='' @ AppPaths.StateDir p"

definition NewRuntimeContext ::
    "codec \<Rightarrow> world \<Rightarrow> CommonFlags \<Rightarrow> (error + RuntimeContext) \<times> world" where
  "NewRuntimeContext cdc w flags =
     (case DiscoverPaths w appName (ConfigPath flags) of
        (Inl e, w1) \<Rightarrow> (Inl e, w1)
      | (Inr paths, w1) \<Rightarrow>
          (case LoadOrInitConfig cdc w1 paths flags of
             (Inl e, w2) \<Rightarrow> (Inl e, w2)
           | (Inr cfg, w2) \<Rightarrow>
               (case ApplyPathOverrides w2 paths cfg of
                  Inl e \<Rightarrow> (Inl e, w2)
                | Inr effPaths \<Rightarrow>
                    (case EnsureDirectories w2 effPaths flags of
                       (Some e, w3) \<Rightarrow> (Inl e, w3)
                     | (None, w3) \<Rightarrow>
                         (case ResolveLogSettings w3 flags cfg of
                            (Inl e, w4) \<Rightarrow> (Inl e, w4)
                          | (Inr logSettings, w4) \<Rightarrow>
                              (let logger = ConfigureLogger logSettings;
                                   rtx = \<lparr>Common = flags, RuntimeContext.Paths = effPaths,
                                          Config = cfg, Logger = logger,
                                          LogSettings = logSettings\<rparr>
                               in (Inr rtx,
                                   Logger_Debug logger (resolvedPathsMessage effPaths) w4)))))))"

definition RuntimeContext_Close :: "RuntimeContext option \<Rightarrow> world \<Rightarrow> errno option \<times> world" where
  "RuntimeContext_Close rtx w =
     (case rtx of
        None \<Rightarrow> (None, w)
      | Some r \<Rightarrow> Logger_Close (Logger r) w)"

subsection \<open>\<^verbatim>\<open>flags.go\<close> and the persistent pre-run hook of \<^verbatim>\<open>cmd/root.go\<close>\<close>

definition ValidateColor :: "CommonFlags \<Rightarrow> error option" where
  "ValidateColor c =
     (if Color c = [] \<or> Color c = ''auto'' \<or> Color c = ''always'' \<or> Color c = ''never''
      then None
      else Some (ErrInvalidColor (Color c)))"

text \<open>
  The hook reads the package-level flag variables the argument parser filled:
  \<open>commonFlags\<close>, and \<open>timeoutFlag\<close> and \<open>parallelFlag\<close> with whether each was given.
  It returns its error, the context of the command afterwards, and the world.
\<close>

definition PersistentPreRunE ::
    "codec \<Rightarrow> world \<Rightarrow> cmdContext \<Rightarrow> CommonFlags \<Rightarrow> int option \<Rightarrow> int option
      \<Rightarrow> error option \<times> cmdContext \<times> world" where
  "PersistentPreRunE cdc w ctx commonFlags timeoutFlag parallelFlag =
     (case FromContext ctx of
        Some rtx \<Rightarrow> (None, ctx, w)
      | None \<Rightarrow>
          (let flags0 = commonFlags;
               flags1 = (case timeoutFlag of
                           Some t \<Rightarrow> flags0\<lparr>CommonFlags.TimeoutSeconds := Some t\<rparr>
                         | None \<Rightarrow> flags0);
               flags = (case parallelFlag of
                          Some p \<Rightarrow> flags1\<lparr>CommonFlags.Parallelism := Some p\<rparr>
                        | None \<Rightarrow> flags1)
           in if JSON flags \<and> YAML flags then (Some ErrConflictingOutputFormat, ctx, w)
              else (case ValidateColor flags of
                      Some e \<Rightarrow> (Some e, ctx, w)
                    | None \<Rightarrow>
                        (case NewRuntimeContext cdc w flags of
                           (Inl e, w1) \<Rightarrow> (Some e, ctx, w1)
                         | (Inr rtx, w1) \<Rightarrow> (None, CtxWithRuntime (Some rtx), w1)))))"

subsection \<open>The specification's wording, for comparison with the code\<close>

text \<open>
  Two bytes are the same letter when they are equal or are the two cases of one ASCII
  letter; two strings are equal ignoring case when they are so byte by byte.
\<close>

definition sameLetter :: "char \<Rightarrow> char \<Rightarrow> bool" where
  "sameLetter a b =
     (a = b
      \<or> (isUpperAZ a \<and> (of_char b :: nat) = of_char a + 32)
      \<or> (isUpperAZ b \<and> (of_char a :: nat) = of_char b + 32))"

definition equalIgnoringCase :: "string \<Rightarrow> string \<Rightarrow> bool" where
  "equalIgnoringCase s t = list_all2 sameLetter s t"

text \<open>
  The configured level: one of the five names, in any mix of cases; anything else is
  \<open>info\<close>.
\<close>

definition spec_configuredLevel :: "string \<Rightarrow> Level" where
  "spec_configuredLevel v =
     (if equalIgnoringCase v ''error'' then LevelError
      else if equalIgnoringCase v ''warn'' then LevelWarn
      else if equalIgnoringCase v ''info'' then LevelInfo
      else if equalIgnoringCase v ''debug'' then LevelDebug
      else if equalIgnoringCase v ''trace'' then LevelTrace
      else LevelInfo)"

text \<open>Quiet clamps a level to at most \<open>error\<close> and never raises it.\<close>

definition spec_clampToError :: "Level \<Rightarrow> Level" where
  "spec_clampToError l = (if levelValue l \<le> levelValue LevelError then l else LevelError)"

text \<open>The precedence of section 4.6, highest first.\<close>

definition spec_effectiveLevel :: "CommonFlags \<Rightarrow> AppConfig \<Rightarrow> Level" where
  "spec_effectiveLevel flags cfg =
     (if Trace flags then LevelTrace
      else if Debug flags then LevelDebug
      else if Verbose flags \<ge> 2 then LevelTrace
      else if Verbose flags = 1 then LevelDebug
      else if Quiet flags
        then spec_clampToError (spec_configuredLevel (LoggingConfig.Level (Logging cfg)))
      else spec_configuredLevel (LoggingConfig.Level (Logging cfg)))"

text \<open>
  Whether a sink is an interactive terminal: standard error is one when it is attached
  to a terminal, the discard target never is, and a log file opened by path is taken
  not to be. The primary sink is the first of the list. The color policy in the
  specification's words: \<open>never\<close> when \<open>noColor\<close> is set, else the flag, with \<open>auto\<close>
  looking at the primary sink.
\<close>

definition sinkIsTerminal :: "world \<Rightarrow> writer \<Rightarrow> bool" where
  "sinkIsTerminal w wr = (case wr of Stderr \<Rightarrow> osStderr w = Attached Terminal | _ \<Rightarrow> False)"

definition spec_colorize :: "world \<Rightarrow> CommonFlags \<Rightarrow> writer list \<Rightarrow> bool" where
  "spec_colorize w flags sinks =
     (if NoColor flags then False
      else if Color flags = ''always'' then True
      else if Color flags = ''never'' then False
      else (case sinks of [] \<Rightarrow> False | primary # others \<Rightarrow> sinkIsTerminal w primary))"

text \<open>
  The path expander in the words of section 4.2: environment variables first; then the
  home directory is substituted when the result is the tilde alone or starts with a
  tilde and a slash, which fails when the home directory is unknown; any other form,
  \<open>~user\<close> included, is left as it is; the result is cleaned.
\<close>

definition spec_expandPath :: "world \<Rightarrow> string \<Rightarrow> error + string" where
  "spec_expandPath w path =
     (if path = [] then Inr []
      else (let result = os_ExpandEnv w path
            in if result = ''~'' \<or> strings_HasPrefix result ''~/'' then
                 (case os_UserHomeDir w of
                    None \<Rightarrow> Inl (ErrExpand path)
                  | Some home \<Rightarrow>
                      Inr (filepath_Clean
                            (if result = ''~'' then home
                             else filepath_Join [home, drop 2 result])))
               else Inr (filepath_Clean result)))"

text \<open>
  The configuration file exists, is read by the decoder, and does not mention
  \<open>runtime.timeout\<close>.
\<close>

definition timeoutAbsentFromFile :: "codec \<Rightarrow> world \<Rightarrow> string \<Rightarrow> bool" where
  "timeoutAbsentFromFile cdc w path =
     (case statNode w path of
        Inr (RegFile text) \<Rightarrow>
          (case toml_parse cdc text of
             Some s \<Rightarrow> s ''runtime.timeout'' = None
           | None \<Rightarrow> False)
      | _ \<Rightarrow> False)"

text \<open>
  What the generated document says, as settings: the four lines of
  \<^verbatim>\<open>defaultConfigBody\<close> that are not comments. A codec reads the document generated for
  a path when it parses its text to these settings.
\<close>

definition templateSettings :: settings where
  "templateSettings =
     [''profile'' \<mapsto> VString ''default'', ''logging.level'' \<mapsto> VString ''info'',
      ''runtime.timeout'' \<mapsto> VInt 60, ''runtime.fail_fast'' \<mapsto> VBool True]"

definition readsTemplate :: "codec \<Rightarrow> string \<Rightarrow> bool" where
  "readsTemplate cdc path =
     (toml_parse cdc (defaultConfigHeader path @ defaultConfigBody) = Some templateSettings)"

subsection \<open>Concrete inputs\<close>

text \<open>
  A Linux process of user \<open>u\<close> whose home directory exists and holds nothing yet, with
  standard error on a terminal and every file under one name only; the flags as the
  argument parser leaves them when none is given; a configuration document with the
  built-in defaults.
\<close>

definition linuxWorld :: world where
  "linuxWorld =
     \<lparr>goos = ''linux'',
      env = [''HOME'' \<mapsto> ''/home/u''],
      userConfigDir = Some ''/home/u/.config'',
      userCacheDir = Some ''/home/u/.cache'',
      osStderr = Attached Terminal,
      clock = ''2025-01-01T00:00:00Z'',
      fileId = (\<lambda>p. p),
      denied = (\<lambda>p. False),
      fs = [''/home'' \<mapsto> Dir, ''/home/u'' \<mapsto> Dir],
      files = [],
      stderr = [],
      trace = []\<rparr>"

definition noFlags :: CommonFlags where
  "noFlags =
     \<lparr>ConfigPath = [], Quiet = False, Verbose = 0, Debug = False, Trace = False,
      JSON = False, YAML = False, NoColor = False, Color = ''auto'', DryRun = False,
      AssumeYes = False, CommonFlags.TimeoutSeconds = None, CommonFlags.Parallelism = None,
      NoProgress = False, CommonFlags.Diagnostics = False\<rparr>"

definition quietFlags :: CommonFlags where
  "quietFlags = noFlags\<lparr>Quiet := True\<rparr>"

definition debugLevelConfig :: AppConfig where
  "debugLevelConfig = defaultConfig\<lparr>Logging := \<lparr>LoggingConfig.Level = ''debug'', LoggingConfig.File = []\<rparr>\<rparr>"

text \<open>
  The same process with a configuration file already in place. \<open>profileOnlyText\<close> sets
  the profile and nothing else; \<open>logFileText\<close> asks for debug logging into a file of its
  own; \<open>selfLogText\<close> names the configuration file itself as the log file;
  \<open>workLogText\<close> names a file in a working directory.
\<close>

definition configPath :: string where
  "configPath = ''/home/u/.config/go-cli/config.toml''"

definition profileOnlyText :: string where
  \<open>profileOnlyText = ''profile = "dev"\<newline>''\<close>

definition logFileText :: string where
  \<open>logFileText = ''[logging]\<newline>level = "debug"\<newline>file = "/home/u/app.log"\<newline>''\<close>

definition selfLogText :: string where
  \<open>selfLogText =
     ''[logging]\<newline>level = "debug"\<newline>file = "/home/u/.config/go-cli/config.toml"\<newline>''\<close>

definition workLogText :: string where
  \<open>workLogText =
     ''[logging]\<newline>level = "debug"\<newline>file = "/home/u/work/config.toml"\<newline>''\<close>

definition withConfig :: "string \<Rightarrow> world" where
  "withConfig text =
     linuxWorld\<lparr>fs := [''/home'' \<mapsto> Dir, ''/home/u'' \<mapsto> Dir, ''/home/u/.config'' \<mapsto> Dir,
                       ''/home/u/.config/go-cli'' \<mapsto> Dir, configPath \<mapsto> RegFile text]\<rparr>"

text \<open>
  A codec for these inputs: it reads the four texts above and the generated default
  document as a TOML decoder does and rejects every other text; of the conversions
  between kinds it has the one from a string of decimal digits to an integer.
\<close>

definition parseDecimal :: "string \<Rightarrow> int option" where
  "parseDecimal s =
     (if s \<noteq> [] \<and> list_all isDigit09 s
      then Some (foldl (\<lambda>a c. a * 10 + (int (of_char c) - 48)) 0 s)
      else None)"

definition exampleToml :: "string \<Rightarrow> settings option" where
  "exampleToml text =
     (if text = profileOnlyText then Some [''profile'' \<mapsto> VString ''dev'']
      else if text = logFileText then
        Some [''logging.level'' \<mapsto> VString ''debug'', ''logging.file'' \<mapsto> VString ''/home/u/app.log'']
      else if text = selfLogText then
        Some [''logging.level'' \<mapsto> VString ''debug'', ''logging.file'' \<mapsto> VString configPath]
      else if text = workLogText then
        Some [''logging.level'' \<mapsto> VString ''debug'',
              ''logging.file'' \<mapsto> VString ''/home/u/work/config.toml'']
      else if text = defaultConfigHeader configPath @ defaultConfigBody then
        Some templateSettings
      else None)"

definition exampleCodec :: codec where
  "exampleCodec =
     \<lparr>toml_parse = exampleToml,
      weak_string = (\<lambda>x. None),
      weak_int = (\<lambda>x. case x of VString s \<Rightarrow> parseDecimal s | _ \<Rightarrow> None),
      weak_bool = (\<lambda>x. None)\<rparr>"

definition examplePaths :: AppPaths where
  "examplePaths =
     \<lparr>ConfigFile = configPath, AppPaths.DataDir = ''/home/u/.local/share/go-cli'',
      AppPaths.StateDir = ''/home/u/.local/state/go-cli''\<rparr>"

text \<open>
  Two processes that differ in one environment variable only, a configuration that
  places the data directory below that variable, a process without \<open>HOME\<close>, and a
  configuration whose state directory starts with a tilde.
\<close>

definition storeWorldA :: world where
  "storeWorldA = linuxWorld\<lparr>env := [''HOME'' \<mapsto> ''/home/u'', ''STORE'' \<mapsto> ''/mnt/a'']\<rparr>"

definition storeWorldB :: world where
  "storeWorldB = linuxWorld\<lparr>env := [''HOME'' \<mapsto> ''/home/u'', ''STORE'' \<mapsto> ''/mnt/b'']\<rparr>"

definition storeConfig :: AppConfig where
  "storeConfig =
     defaultConfig\<lparr>AppConfig.Paths := \<lparr>PathsConfig.DataDir = ''$STORE/data'', PathsConfig.StateDir = []\<rparr>\<rparr>"

definition storePaths :: AppPaths where
  "storePaths = examplePaths\<lparr>AppPaths.DataDir := ''/mnt/a/data''\<rparr>"

definition homelessWorld :: world where
  "homelessWorld = linuxWorld\<lparr>env := Map.empty\<rparr>"

definition tildeStateConfig :: AppConfig where
  "tildeStateConfig =
     defaultConfig\<lparr>AppConfig.Paths := \<lparr>PathsConfig.DataDir = [], PathsConfig.StateDir = ''~/state''\<rparr>\<rparr>"

text \<open>
  The process with the file that only sets the profile, and the same with a timeout of
  thirty seconds in the environment. The variable is set under the name the library
  derives (prefix, one underscore, key) and under the name with two underscores after
  the prefix.
\<close>

definition timeoutEnvWorld :: world where
  "timeoutEnvWorld =
     (withConfig profileOnlyText)
       \<lparr>env := [''HOME'' \<mapsto> ''/home/u'', ''GO_CLI_RUNTIME__TIMEOUT'' \<mapsto> ''30'',
                ''GO_CLI__RUNTIME__TIMEOUT'' \<mapsto> ''30'']\<rparr>"

text \<open>The flags of a dry run.\<close>

definition dryFlags :: CommonFlags where
  "dryFlags = noFlags\<lparr>DryRun := True\<rparr>"

text \<open>
  The context of the first run of that process without flags: the paths of the
  platform, the built-in configuration, information-level logging to standard error.
\<close>

definition firstContext :: RuntimeContext where
  "firstContext =
     \<lparr>Common = noFlags, RuntimeContext.Paths = examplePaths, Config = defaultConfig,
      Logger = \<lparr>settings = \<lparr>LogSettings.Level = LevelInfo, LogSettings.Diagnostics = False,
                            Colorize = True, Writers = [Stderr], FileHandle = None\<rparr>\<rparr>,
      LogSettings = \<lparr>LogSettings.Level = LevelInfo, LogSettings.Diagnostics = False,
                     Colorize = True, Writers = [Stderr], FileHandle = None\<rparr>\<rparr>"

text \<open>The same process with standard error redirected to the null device.\<close>

definition nullStderrWorld :: world where
  "nullStderrWorld = linuxWorld\<lparr>osStderr := Attached OtherCharDevice\<rparr>"

text \<open>
  A process started in the working directory \<open>/home/u/work\<close>, which holds a
  configuration file that names itself, by its absolute path, as the log file; the
  relative name \<open>config.toml\<close> denotes that file. The flags give the relative name.
\<close>

definition workWorld :: world where
  "workWorld =
     linuxWorld
       \<lparr>fileId := (\<lambda>p. if p = ''config.toml'' then ''/home/u/work/config.toml'' else p),
        fs := [''/home'' \<mapsto> Dir, ''/home/u'' \<mapsto> Dir, ''/home/u/work'' \<mapsto> Dir,
               ''/home/u/work/config.toml'' \<mapsto> RegFile workLogText]\<rparr>"

definition workFlags :: CommonFlags where
  "workFlags = noFlags\<lparr>ConfigPath := ''config.toml''\<rparr>"

text \<open>
  The context of the first run with the configuration that logs at debug level into
  \<open>/home/u/app.log\<close>: the log file is the first entry of the table of opened files.
\<close>

definition logConfig :: AppConfig where
  "logConfig =
     defaultConfig\<lparr>Logging := \<lparr>LoggingConfig.Level = ''debug'',
                                   LoggingConfig.File = ''/home/u/app.log''\<rparr>\<rparr>"

definition logContext :: RuntimeContext where
  "logContext =
     \<lparr>Common = noFlags, RuntimeContext.Paths = examplePaths, Config = logConfig,
      Logger = \<lparr>settings = \<lparr>LogSettings.Level = LevelDebug, LogSettings.Diagnostics = False,
                            Colorize = True, Writers = [Stderr, FileWriter 0],
                            FileHandle = Some 0\<rparr>\<rparr>,
      LogSettings = \<lparr>LogSettings.Level = LevelDebug, LogSettings.Diagnostics = False,
                     Colorize = True, Writers = [Stderr, FileWriter 0], FileHandle = Some 0\<rparr>\<rparr>"

subsection \<open>Notions used in the proofs\<close>

text \<open>
  Two worlds belong to the same process when they agree on everything the package only
  reads: target system, environment, the per-user directories, standard error, the
  clock, the naming of files and the permissions.
\<close>

definition sameProcess :: "world \<Rightarrow> world \<Rightarrow> bool" where
  "sameProcess w w' =
     (goos w' = goos w \<and> env w' = env w \<and> userConfigDir w' = userConfigDir w
      \<and> userCacheDir w' = userCacheDir w \<and> osStderr w' = osStderr w
      \<and> clock w' = clock w \<and> fileId w' = fileId w \<and> denied w' = denied w)"

text \<open>Two worlds name files alike: the same identities and the same permissions.\<close>

definition sameNames :: "world \<Rightarrow> world \<Rightarrow> bool" where
  "sameNames w w' = (fileId w' = fileId w \<and> denied w' = denied w)"

text \<open>A call that only looks at the file system.\<close>

definition readOnlyCall :: "syscall \<Rightarrow> bool" where
  "readOnlyCall ev = (case ev of SysStat p \<Rightarrow> True | SysReadFile p \<Rightarrow> True | _ \<Rightarrow> False)"

text \<open>
  From \<open>w\<close> to \<open>w'\<close> the calls recorded are those of \<open>w\<close> followed by calls that only
  look at the file system.
\<close>

definition onlyReads :: "world \<Rightarrow> world \<Rightarrow> bool" where
  "onlyReads w w' =
     (take (length (trace w)) (trace w') = trace w
      \<and> list_all readOnlyCall (drop (length (trace w)) (trace w')))"

text \<open>
  From \<open>w\<close> to \<open>w'\<close> the file system only grew: every node of \<open>w\<close> is in \<open>w'\<close> as it
  was; \<open>addsDirs\<close> says that all it gained are directories. The weaker
  \<open>keepsKinds\<close> lets the text of a file change.
\<close>

definition extends :: "world \<Rightarrow> world \<Rightarrow> bool" where
  "extends w w' = (\<forall>p. fs w p \<noteq> None \<longrightarrow> fs w' p = fs w p)"

definition addsDirs :: "world \<Rightarrow> world \<Rightarrow> bool" where
  "addsDirs w w' = (\<forall>p. fs w' p = fs w p \<or> (fs w p = None \<and> fs w' p = Some Dir))"

definition keepsKinds :: "world \<Rightarrow> world \<Rightarrow> bool" where
  "keepsKinds w w' =
     (\<forall>p. (fs w p = Some Dir \<longrightarrow> fs w' p = Some Dir)
          \<and> (\<forall>c. fs w p = Some (RegFile c) \<longrightarrow> (\<exists>c'. fs w' p = Some (RegFile c'))))"

text \<open>
  What \<^verbatim>\<open>ReadInConfig\<close> returns, as a function of what \<^verbatim>\<open>Stat\<close> says about the file,
  and what the loader makes of it afterwards.
\<close>

definition readOutcome :: "codec \<Rightarrow> Viper \<Rightarrow> errno + node \<Rightarrow> viperError + Viper" where
  "readOutcome cdc v st =
     (if configFile v = [] then Inl ConfigFileNotFoundError
      else (case st of
              Inl e \<Rightarrow> Inl (ReadError e)
            | Inr Dir \<Rightarrow> Inl (ReadError EISDIR)
            | Inr (RegFile text) \<Rightarrow>
                (case toml_parse cdc text of
                   None \<Rightarrow> Inl ConfigParseError
                 | Some s \<Rightarrow> Inr (v\<lparr>config := s\<rparr>))))"

definition decodeOutcome ::
    "codec \<Rightarrow> world \<Rightarrow> AppPaths \<Rightarrow> CommonFlags \<Rightarrow> viperError + Viper \<Rightarrow> error + AppConfig" where
  "decodeOutcome cdc w paths flags r =
     (case (case r of
              Inr v1 \<Rightarrow> Inr v1
            | Inl err \<Rightarrow>
                if \<not> isNotFound err \<and> \<not> (DryRun flags \<and> viper_IsNotExist err)
                then Inl (ErrReadConfig err)
                else Inr (configuredViper paths defaultConfig)) of
        Inl e \<Rightarrow> Inl e
      | Inr v1 \<Rightarrow>
          (case Unmarshal cdc v1 w defaultConfig of
             Inl e \<Rightarrow> Inl e
           | Inr cfg1 \<Rightarrow> finishConfig w cfg1))"

text \<open>
  The configuration file that path discovery arrives at is there before the run.
\<close>

definition configFilePresent :: "world \<Rightarrow> CommonFlags \<Rightarrow> bool" where
  "configFilePresent w flags =
     (case fst (DiscoverPaths w appName (ConfigPath flags)) of
        Inl e \<Rightarrow> False
      | Inr paths \<Rightarrow> (case statNode w (ConfigFile paths) of Inl e \<Rightarrow> False | Inr n \<Rightarrow> True))"

text \<open>
  The same for a configuration file that is missing: path discovery arrives at a path
  for which \<^verbatim>\<open>Stat\<close> reports that nothing is there.
\<close>

definition configFileMissing :: "world \<Rightarrow> CommonFlags \<Rightarrow> bool" where
  "configFileMissing w flags =
     (case fst (DiscoverPaths w appName (ConfigPath flags)) of
        Inl e \<Rightarrow> False
      | Inr paths \<Rightarrow> statNode w (ConfigFile paths) = Inl ENOENT)"

text \<open>The codec reads the document that would be generated at that path.\<close>

definition readsGenerated :: "codec \<Rightarrow> world \<Rightarrow> CommonFlags \<Rightarrow> bool" where
  "readsGenerated cdc w flags =
     (case fst (DiscoverPaths w appName (ConfigPath flags)) of
        Inl e \<Rightarrow> False
      | Inr paths \<Rightarrow> readsTemplate cdc (ConfigFile paths))"

text \<open>
  None of the four settings for which the loader registers a default is set through
  its environment variable.
\<close>

definition noEnvOverrides :: "world \<Rightarrow> bool" where
  "noEnvOverrides w =
     (os_Getenv w ''GO_CLI_PROFILE'' = [] \<and> os_Getenv w ''GO_CLI_LOGGING__LEVEL'' = []
      \<and> os_Getenv w ''GO_CLI_RUNTIME__TIMEOUT'' = []
      \<and> os_Getenv w ''GO_CLI_RUNTIME__FAIL_FAST'' = [])"

text \<open>
  The worlds between the steps of \<^verbatim>\<open>NewRuntimeContext\<close>: after path discovery, after
  loading with the paths discovered, after creating the directories of the effective
  paths, after resolving the log settings for the loaded document.
\<close>

definition afterDiscover :: "world \<Rightarrow> CommonFlags \<Rightarrow> world" where
  "afterDiscover w flags = snd (DiscoverPaths w appName (ConfigPath flags))"

definition afterLoad :: "codec \<Rightarrow> world \<Rightarrow> CommonFlags \<Rightarrow> AppPaths \<Rightarrow> world" where
  "afterLoad cdc w flags paths = snd (LoadOrInitConfig cdc (afterDiscover w flags) paths flags)"

definition afterDirs :: "codec \<Rightarrow> world \<Rightarrow> CommonFlags \<Rightarrow> AppPaths \<Rightarrow> AppPaths \<Rightarrow> world" where
  "afterDirs cdc w flags paths eff =
     snd (EnsureDirectories (afterLoad cdc w flags paths) eff flags)"

definition afterLog ::
    "codec \<Rightarrow> world \<Rightarrow> CommonFlags \<Rightarrow> AppPaths \<Rightarrow> AppPaths \<Rightarrow> AppConfig \<Rightarrow> world" where
  "afterLog cdc w flags paths eff cfg =
     snd (ResolveLogSettings (afterDirs cdc w flags paths eff) flags cfg)"

section \<open>Properties\<close>

subsection \<open>What each call leaves alone\<close>

lemma traced_fields [simp]:
  "fs (traced ev w) = fs w" "denied (traced ev w) = denied w" "env (traced ev w) = env w"
  "goos (traced ev w) = goos w" "files (traced ev w) = files w" "stderr (traced ev w) = stderr w"
  "userConfigDir (traced ev w) = userConfigDir w" "userCacheDir (traced ev w) = userCacheDir w"
  "osStderr (traced ev w) = osStderr w" "clock (traced ev w) = clock w"
  "fileId (traced ev w) = fileId w"
  "trace (traced ev w) = trace w @ [ev]"
  by (simp_all add: traced_def)

lemma eprint_fields [simp]:
  "fs (eprint s w) = fs w" "denied (eprint s w) = denied w" "env (eprint s w) = env w"
  "goos (eprint s w) = goos w" "files (eprint s w) = files w" "trace (eprint s w) = trace w"
  "userConfigDir (eprint s w) = userConfigDir w" "userCacheDir (eprint s w) = userCacheDir w"
  "osStderr (eprint s w) = osStderr w" "clock (eprint s w) = clock w"
  "fileId (eprint s w) = fileId w"
  "stderr (eprint s w) = stderr w @ [s]"
  by (simp_all add: eprint_def)

lemma sameProcess_refl [simp]: "sameProcess w w"
  by (simp add: sameProcess_def)

lemma sameProcess_trans: "sameProcess a b \<Longrightarrow> sameProcess b c \<Longrightarrow> sameProcess a c"
  by (simp add: sameProcess_def)

lemma sameProcess_sym: "sameProcess a b \<Longrightarrow> sameProcess b a"
  by (simp add: sameProcess_def)

lemma sameProcess_traced [simp]: "sameProcess w (traced ev w')  = sameProcess w w'"
  by (simp add: sameProcess_def)

lemma sameProcess_eprint [simp]: "sameProcess w (eprint s w') = sameProcess w w'"
  by (simp add: sameProcess_def)

lemma sameProcess_fs [simp]: "sameProcess w (w'\<lparr>fs := f\<rparr>) = sameProcess w w'"
  by (simp add: sameProcess_def)

lemma sameProcess_files [simp]: "sameProcess w (w'\<lparr>files := f\<rparr>) = sameProcess w w'"
  by (simp add: sameProcess_def)

lemma sameNames_refl [simp]: "sameNames w w"
  by (simp add: sameNames_def)

lemma sameNames_trans: "sameNames a b \<Longrightarrow> sameNames b c \<Longrightarrow> sameNames a c"
  by (simp add: sameNames_def)

lemma sameProcess_names: "sameProcess w w' \<Longrightarrow> sameNames w w'"
  by (simp add: sameProcess_def sameNames_def)

lemma sameNames_fileOf: "sameNames w w' \<Longrightarrow> fileOf w' p = fileOf w p"
  by (simp add: sameNames_def fileOf_def)

lemma sameNames_denied: "sameNames w w' \<Longrightarrow> denied w' = denied w"
  by (simp add: sameNames_def)

lemma nodeAt_cong: "fs w' = fs w \<Longrightarrow> sameNames w w' \<Longrightarrow> nodeAt w' = nodeAt w"
  by (rule ext) (simp add: nodeAt_def Let_def fileOf_def sameNames_def)

lemma firstPresent_cong:
  assumes "nodeAt w' = nodeAt w"
  shows "firstPresent n w' p = firstPresent n w p"
proof (induction n arbitrary: p)
  case 0
  show ?case by simp
next
  case (Suc n)
  show ?case by (simp add: assms Suc.IH split: option.split)
qed

lemma absentErr_cong:
  assumes "nodeAt w' = nodeAt w"
  shows "absentErr w' p = absentErr w p"
  unfolding absentErr_def firstPresent_cong [OF assms] by (rule refl)

lemma statNode_cong:
  assumes "fs w' = fs w" and "sameNames w w'"
  shows "statNode w' p = statNode w p"
proof -
  have n: "nodeAt w' = nodeAt w" using assms by (rule nodeAt_cong)
  have d: "denied w' = denied w" using assms(2) by (simp add: sameNames_def)
  show ?thesis unfolding statNode_def n d absentErr_cong [OF n] by (rule refl)
qed

lemma fileOf_fields [simp]:
  "fileOf (traced ev w) p = fileOf w p" "fileOf (eprint s w) p = fileOf w p"
  "fileOf (w\<lparr>fs := f\<rparr>) p = fileOf w p" "fileOf (w\<lparr>files := t\<rparr>) p = fileOf w p"
  by (simp_all add: fileOf_def)

lemma sameNames_fields [simp]:
  "sameNames w (traced ev w') = sameNames w w'" "sameNames w (eprint s w') = sameNames w w'"
  "sameNames w (w'\<lparr>fs := f\<rparr>) = sameNames w w'" "sameNames w (w'\<lparr>files := t\<rparr>) = sameNames w w'"
  by (simp_all add: sameNames_def)

lemma statNode_traced [simp]: "statNode (traced ev w) p = statNode w p"
  by (rule statNode_cong) (simp_all add: sameNames_def)

lemma statNode_eprint [simp]: "statNode (eprint s w) p = statNode w p"
  by (rule statNode_cong) (simp_all add: sameNames_def)

lemma os_Stat_simps [simp]:
  "fst (os_Stat w p) = statNode w p" "snd (os_Stat w p) = traced (SysStat p) w"
  by (simp_all add: os_Stat_def)

lemma os_ReadFile_snd [simp]: "snd (os_ReadFile w p) = traced (SysReadFile p) w"
  by (simp add: os_ReadFile_def)

lemma ReadInConfig_fst: "fst (ReadInConfig cdc v w) = readOutcome cdc v (statNode w (configFile v))"
  unfolding ReadInConfig_def readOutcome_def os_ReadFile_def
  by (simp split: sum.split node.split option.split)

lemma ReadInConfig_snd:
  "snd (ReadInConfig cdc v w) = (if configFile v = [] then w else traced (SysReadFile (configFile v)) w)"
  unfolding ReadInConfig_def
  by (simp split: sum.split option.split)

lemma addsDirs_refl [simp]: "addsDirs w w"
  by (simp add: addsDirs_def)

lemma addsDirs_trans: "addsDirs a b \<Longrightarrow> addsDirs b c \<Longrightarrow> addsDirs a c"
  unfolding addsDirs_def by metis

lemma addsDirs_extends: "addsDirs w w' \<Longrightarrow> extends w w'"
  unfolding addsDirs_def extends_def by metis

lemma extends_refl [simp]: "extends w w"
  by (simp add: extends_def)

lemma extends_trans: "extends a b \<Longrightarrow> extends b c \<Longrightarrow> extends a c"
  unfolding extends_def by metis

lemma extends_keepsKinds: "extends w w' \<Longrightarrow> keepsKinds w w'"
  unfolding extends_def keepsKinds_def by auto

lemma keepsKinds_refl [simp]: "keepsKinds w w"
  by (simp add: keepsKinds_def)

lemma keepsKinds_trans: "keepsKinds a b \<Longrightarrow> keepsKinds b c \<Longrightarrow> keepsKinds a c"
  unfolding keepsKinds_def by metis

lemma extends_traced [simp]: "extends w (traced ev w') = extends w w'"
  by (simp add: extends_def)

lemma addsDirs_traced [simp]: "addsDirs w (traced ev w') = addsDirs w w'"
  by (simp add: addsDirs_def)

lemma extends_eprint [simp]: "extends w (eprint s w') = extends w w'"
  by (simp add: extends_def)

text \<open>One directory.\<close>

lemma mkdir_sameProcess: "sameProcess w (snd (mkdir w p))"
  unfolding mkdir_def Let_def by (simp split: option.split node.split)

lemma mkdir_files: "files (snd (mkdir w p)) = files w"
  unfolding mkdir_def Let_def by (simp split: option.split node.split)

lemma mkdir_trace: "trace (snd (mkdir w p)) = trace w"
  unfolding mkdir_def Let_def by (simp split: option.split node.split)

lemma mkdir_stderr: "stderr (snd (mkdir w p)) = stderr w"
  unfolding mkdir_def Let_def by (simp split: option.split node.split)

lemma nodeAt_None: "nodeAt w p = None \<Longrightarrow> p \<noteq> [] \<Longrightarrow> fs w (fileOf w p) = None"
  unfolding nodeAt_def Let_def by (auto split: if_splits)

lemma statNode_Inr:
  "statNode w p = Inr n \<longleftrightarrow>
     p \<noteq> [] \<and> \<not> denied w (filepath_Clean p)
     \<and> (if filepath_Clean p = ''/'' \<or> filepath_Clean p = ''.'' then n = Dir
         else fs w (fileOf w p) = Some n)"
  unfolding statNode_def nodeAt_def Let_def by (auto split: option.splits)

lemma sameProcess_fileOf: "sameProcess w w' \<Longrightarrow> fileOf w' p = fileOf w p"
  by (simp add: sameProcess_def fileOf_def)

lemma sameProcess_deniedD: "sameProcess w w' \<Longrightarrow> denied w' = denied w"
  by (simp add: sameProcess_def)

lemma mkdir_addsDirs: "addsDirs w (snd (mkdir w p))"
proof (cases "p = [] \<or> denied w (filepath_Clean p) \<or> nodeAt w p \<noteq> None")
  case True
  then show ?thesis unfolding mkdir_def Let_def by auto
next
  case False
  then have "fs w (fileOf w p) = None" by (simp add: nodeAt_None)
  then show ?thesis
    unfolding mkdir_def Let_def addsDirs_def using False
    by (auto split: option.split node.split)
qed

lemma mkdir_ok:
  assumes "fst (mkdir w p) = None"
  shows "statNode (snd (mkdir w p)) p = Inr Dir"
proof -
  from assms have a: "p \<noteq> []" "\<not> denied w (filepath_Clean p)" "nodeAt w p = None"
    "nodeAt w (filepath_Dir (filepath_Clean p)) = Some Dir"
    unfolding mkdir_def Let_def by (auto split: if_splits option.splits node.splits)
  then have "snd (mkdir w p) = w\<lparr>fs := (fs w)(fileOf w p := Some Dir)\<rparr>"
    unfolding mkdir_def Let_def by simp
  with a show ?thesis
    unfolding statNode_Inr nodeAt_def Let_def by (simp split: if_splits)
qed

text \<open>The world after \<open>mkdirAll\<close>: the one it got, the one after the parent, or that
  with the directory itself made.\<close>

lemma mkdirAll_Inr: "statNode w path = Inr n \<Longrightarrow> mkdirAll w path = (case n of Dir \<Rightarrow> None | RegFile c \<Rightarrow> Some ENOTDIR, w)"
  by (subst mkdirAll.simps) (simp split: node.split)

lemma mkdirAll_Inl:
  assumes "statNode w path = Inl e"
    and "up = (if mkdirParent path \<noteq> [] then mkdirAll w (mkdirParent path) else (None, w))"
  shows "mkdirAll w path =
     (case fst up of
        Some e1 \<Rightarrow> (Some e1, snd up)
      | None \<Rightarrow>
          (case fst (mkdir (snd up) path) of
             None \<Rightarrow> mkdir (snd up) path
           | Some e2 \<Rightarrow>
               (case statNode (snd up) path of
                  Inr Dir \<Rightarrow> (None, snd up)
                | _ \<Rightarrow> (Some e2, snd up))))"
  using mkdirAll.simps [of w path] unfolding assms(2) by (simp add: assms(1) Let_def)

lemma mkdirAll_snd:
  assumes "statNode w path = Inl e"
    and "up = (if mkdirParent path \<noteq> [] then mkdirAll w (mkdirParent path) else (None, w))"
  shows "snd (mkdirAll w path) = snd up \<or> snd (mkdirAll w path) = snd (mkdir (snd up) path)"
  unfolding mkdirAll_Inl [OF assms]
  by (cases "fst up"; cases "fst (mkdir (snd up) path)"; cases "statNode (snd up) path")
     (simp_all split: node.split)

lemma mkdirAll_rel:
  assumes r: "\<And>w. R w w" and t: "\<And>a b c. R a b \<Longrightarrow> R b c \<Longrightarrow> R a c"
    and s: "\<And>w p. R w (snd (mkdir w p))"
  shows "R w (snd (mkdirAll w path))"
proof (induction w path rule: mkdirAll.induct)
  case (1 w path)
  show ?case
  proof (cases "statNode w path")
    case (Inr n)
    then show ?thesis by (simp add: mkdirAll_Inr r)
  next
    case (Inl e)
    define up where "up = (if mkdirParent path \<noteq> [] then mkdirAll w (mkdirParent path) else (None, w))"
    have up: "R w (snd up)"
    proof (cases "mkdirParent path \<noteq> []")
      case True
      with "1.IH" [OF Inl refl True] show ?thesis by (simp add: up_def)
    next
      case False
      then show ?thesis by (simp add: r up_def)
    qed
    have step: "R w (snd (mkdir (snd up) path))" by (rule t [OF up s])
    from mkdirAll_snd [OF Inl up_def] up step show ?thesis by auto
  qed
qed

lemma mkdirAll_sameProcess: "sameProcess w (snd (mkdirAll w path))"
  by (rule mkdirAll_rel) (auto intro: sameProcess_trans mkdir_sameProcess)

lemma mkdirAll_addsDirs: "addsDirs w (snd (mkdirAll w path))"
  by (rule mkdirAll_rel) (auto intro: addsDirs_trans mkdir_addsDirs)

lemma mkdirAll_files: "files (snd (mkdirAll w path)) = files w"
  by (rule mkdirAll_rel [where R = "\<lambda>a b. files b = files a"]) (simp_all add: mkdir_files)

lemma mkdirAll_trace: "trace (snd (mkdirAll w path)) = trace w"
  by (rule mkdirAll_rel [where R = "\<lambda>a b. trace b = trace a"]) (simp_all add: mkdir_trace)

lemma mkdirAll_stderr: "stderr (snd (mkdirAll w path)) = stderr w"
  by (rule mkdirAll_rel [where R = "\<lambda>a b. stderr b = stderr a"]) (simp_all add: mkdir_stderr)

lemma mkdirAll_ok:
  assumes "fst (mkdirAll w path) = None"
  shows "statNode (snd (mkdirAll w path)) path = Inr Dir"
proof (cases "statNode w path")
  case (Inr n)
  with assms show ?thesis by (cases n) (simp_all add: mkdirAll_Inr)
next
  case (Inl e)
  define up where "up = (if mkdirParent path \<noteq> [] then mkdirAll w (mkdirParent path) else (None, w))"
  note eq = mkdirAll_Inl [OF Inl up_def]
  from assms have u: "fst up = None" unfolding eq by (cases "fst up") simp_all
  show ?thesis
  proof (cases "fst (mkdir (snd up) path)")
    case None
    with u have "mkdirAll w path = mkdir (snd up) path" unfolding eq by simp
    with mkdir_ok [OF None] show ?thesis by simp
  next
    case (Some e2)
    show ?thesis
    proof (cases "statNode (snd up) path = Inr Dir")
      case True
      with u Some have "mkdirAll w path = (None, snd up)" unfolding eq by simp
      with True show ?thesis by simp
    next
      case False
      with u Some have "fst (mkdirAll w path) = Some e2"
        unfolding eq by (simp split: sum.split node.split)
      with assms show ?thesis by simp
    qed
  qed
qed

lemma os_MkdirAll_simps [simp]:
  "fst (os_MkdirAll w p) = fst (mkdirAll w p)"
  "fs (snd (os_MkdirAll w p)) = fs (snd (mkdirAll w p))"
  "files (snd (os_MkdirAll w p)) = files w"
  "stderr (snd (os_MkdirAll w p)) = stderr w"
  "trace (snd (os_MkdirAll w p)) = trace w @ [SysMkdirAll p]"
  by (simp_all add: os_MkdirAll_def mkdirAll_files mkdirAll_stderr mkdirAll_trace)

lemma os_MkdirAll_sameProcess: "sameProcess w (snd (os_MkdirAll w p))"
  by (simp add: os_MkdirAll_def mkdirAll_sameProcess)

lemma os_MkdirAll_addsDirs: "addsDirs w (snd (os_MkdirAll w p))"
  by (simp add: os_MkdirAll_def mkdirAll_addsDirs)

lemma os_MkdirAll_ok:
  assumes "fst (os_MkdirAll w p) = None"
  shows "statNode (snd (os_MkdirAll w p)) p = Inr Dir"
proof -
  have "statNode (snd (os_MkdirAll w p)) p = statNode (snd (mkdirAll w p)) p"
    by (simp add: os_MkdirAll_def)
  with mkdirAll_ok assms show ?thesis by simp
qed

lemma os_MkdirAll_present:
  assumes "statNode w p = Inr Dir"
  shows "fst (os_MkdirAll w p) = None" "fs (snd (os_MkdirAll w p)) = fs w"
  using assms by (simp_all add: mkdirAll_Inr)

text \<open>Writing and opening a file.\<close>

lemma os_WriteFile_sameProcess: "sameProcess w (snd (os_WriteFile w p c))"
  unfolding os_WriteFile_def Let_def by (simp split: option.split node.split)

lemma os_WriteFile_files: "files (snd (os_WriteFile w p c)) = files w"
  unfolding os_WriteFile_def Let_def by (simp split: option.split node.split)

lemma os_WriteFile_stderr: "stderr (snd (os_WriteFile w p c)) = stderr w"
  unfolding os_WriteFile_def Let_def by (simp split: option.split node.split)

lemma os_WriteFile_trace: "trace (snd (os_WriteFile w p c)) = trace w @ [SysWriteFile p]"
  unfolding os_WriteFile_def Let_def by (simp split: option.split node.split)

lemma os_WriteFile_fs:
  "fs (snd (os_WriteFile w p c)) = fs w
   \<or> (fst (os_WriteFile w p c) = None \<and> p \<noteq> [] \<and> \<not> denied w (filepath_Clean p)
      \<and> nodeAt w p \<noteq> Some Dir
      \<and> fs (snd (os_WriteFile w p c)) = (fs w)(fileOf w p := Some (RegFile c)))"
  unfolding os_WriteFile_def Let_def by (simp split: option.split node.split)

lemma os_WriteFile_ok:
  assumes "fst (os_WriteFile w p c) = None"
  shows "statNode (snd (os_WriteFile w p c)) p = Inr (RegFile c)"
proof -
  from assms have a: "p \<noteq> []" "\<not> denied w (filepath_Clean p)" "nodeAt w p \<noteq> Some Dir"
    unfolding os_WriteFile_def Let_def by (auto split: if_splits option.splits node.splits)
  with assms have f: "fs (snd (os_WriteFile w p c)) = (fs w)(fileOf w p := Some (RegFile c))"
    unfolding os_WriteFile_def Let_def by (auto split: if_splits option.splits node.splits)
  note d = sameProcess_deniedD [OF os_WriteFile_sameProcess, of w p c]
    sameProcess_fileOf [OF os_WriteFile_sameProcess, of w p c p]
  from a have "filepath_Clean p \<noteq> ''/'' \<and> filepath_Clean p \<noteq> ''.''"
    unfolding nodeAt_def Let_def by (auto split: if_splits)
  with a f d show ?thesis unfolding statNode_Inr by simp
qed

lemma os_OpenFile_sameProcess: "sameProcess w (snd (os_OpenFile w p))"
  unfolding os_OpenFile_def Let_def by (simp split: option.split node.split)

lemma os_OpenFile_stderr: "stderr (snd (os_OpenFile w p)) = stderr w"
  unfolding os_OpenFile_def Let_def by (simp split: option.split node.split)

lemma os_OpenFile_trace: "trace (snd (os_OpenFile w p)) = trace w @ [SysOpenFile p]"
  unfolding os_OpenFile_def Let_def by (simp split: option.split node.split)

lemma os_OpenFile_extends: "extends w (snd (os_OpenFile w p))"
proof (cases "nodeAt w p")
  case None
  have "p = [] \<or> fs w (fileOf w p) = None"
    by (cases "p = []") (simp_all add: nodeAt_None [OF None])
  then show ?thesis
    unfolding os_OpenFile_def Let_def extends_def using None
    by (auto split: option.split node.split)
next
  case (Some n)
  then show ?thesis
    unfolding os_OpenFile_def Let_def extends_def by (cases n) auto
qed

text \<open>A successful open: the handle is the next index of the table, its entry holds the
  identity of the file and is open, and the path is a regular file afterwards.\<close>

lemma os_OpenFile_ok:
  assumes "fst (os_OpenFile w p) = Inr h"
  shows "h = length (files w)"
    and "files (snd (os_OpenFile w p)) = files w @ [(fileOf w p, True)]"
    and "\<exists>c. statNode (snd (os_OpenFile w p)) p = Inr (RegFile c)"
proof -
  from assms have a: "p \<noteq> []" "\<not> denied w (filepath_Clean p)" "nodeAt w p \<noteq> Some Dir"
    unfolding os_OpenFile_def Let_def by (auto split: if_splits option.splits node.splits)
  from assms show "h = length (files w)"
    unfolding os_OpenFile_def Let_def by (auto split: if_splits option.splits node.splits)
  from assms show "files (snd (os_OpenFile w p)) = files w @ [(fileOf w p, True)]"
    unfolding os_OpenFile_def Let_def by (auto split: if_splits option.splits node.splits)
  from a have sp: "filepath_Clean p \<noteq> ''/'' \<and> filepath_Clean p \<noteq> ''.''"
    unfolding nodeAt_def Let_def by (auto split: if_splits)
  from assms a have "\<exists>c. fs (snd (os_OpenFile w p)) (fileOf w p) = Some (RegFile c)"
    unfolding os_OpenFile_def Let_def nodeAt_def
    by (auto split: if_splits option.splits node.splits)
  moreover note sameProcess_deniedD [OF os_OpenFile_sameProcess, of w p]
    sameProcess_fileOf [OF os_OpenFile_sameProcess, of w p p]
  ultimately show "\<exists>c. statNode (snd (os_OpenFile w p)) p = Inr (RegFile c)"
    using a sp unfolding statNode_Inr by auto
qed

lemma os_OpenFile_present:
  assumes "statNode w p = Inr (RegFile c)"
  shows "fst (os_OpenFile w p) = Inr (length (files w))" "fs (snd (os_OpenFile w p)) = fs w"
proof -
  from assms have a: "p \<noteq> []" "\<not> denied w (filepath_Clean p)" "nodeAt w p = Some (RegFile c)"
    unfolding statNode_def by (auto split: if_splits option.splits)
  then show "fst (os_OpenFile w p) = Inr (length (files w))" "fs (snd (os_OpenFile w p)) = fs w"
    unfolding os_OpenFile_def Let_def by simp_all
qed

text \<open>Writing through a handle and closing it.\<close>

lemma File_Write_sameProcess: "sameProcess w (snd (File_Write w h s))"
  unfolding File_Write_def Let_def by (simp split: option.split node.split)

lemma File_Write_files: "files (snd (File_Write w h s)) = files w"
  unfolding File_Write_def Let_def by (simp split: option.split node.split)

lemma File_Write_keepsKinds: "keepsKinds w (snd (File_Write w h s))"
  unfolding File_Write_def Let_def keepsKinds_def by (auto split: option.split node.split)

lemma File_Write_elsewhere:
  "h < length (files w) \<Longrightarrow> p \<noteq> fst (files w ! h) \<Longrightarrow> fs (snd (File_Write w h s)) p = fs w p"
  unfolding File_Write_def Let_def by (simp split: option.split node.split)

lemma File_Write_closed: "\<not> isOpen w h \<Longrightarrow> File_Write w h s = (Some ErrClosed, w)"
  unfolding File_Write_def by simp

text \<open>Reading depends on the process only.\<close>

lemma os_Getenv_cong: "env w' = env w \<Longrightarrow> os_Getenv w' = os_Getenv w"
  by (rule ext) (simp add: os_Getenv_def)

lemma os_UserHomeDir_cong:
  assumes "env w' = env w" and "goos w' = goos w"
  shows "os_UserHomeDir w' = os_UserHomeDir w"
  unfolding os_UserHomeDir_def os_Getenv_cong [OF assms(1)] assms(2) by (rule refl)

lemma expandPath_cong:
  assumes "env w' = env w" and "goos w' = goos w"
  shows "expandPath w' = expandPath w"
proof (rule ext)
  fix p
  show "expandPath w' p = expandPath w p"
    unfolding expandPath_def os_ExpandEnv_def os_UserHomeDir_cong [OF assms]
      os_Getenv_cong [OF assms(1)] by (rule refl)
qed

lemma expandPath_sameProcess: "sameProcess w w' \<Longrightarrow> expandPath w' = expandPath w"
  by (rule expandPath_cong) (simp_all add: sameProcess_def)

lemma viper_setting_cong:
  assumes "env w' = env w"
  shows "viper_setting v w' = viper_setting v w"
proof (rule ext)
  fix k
  have "getEnv v w' = getEnv v w"
    by (rule ext) (simp add: getEnv_def os_LookupEnv_def assms)
  then show "viper_setting v w' k = viper_setting v w k"
    unfolding viper_setting_def viper_find_def by simp
qed

lemma Unmarshal_cong:
  assumes "env w' = env w"
  shows "Unmarshal cdc v w' cfg = Unmarshal cdc v w cfg"
  unfolding Unmarshal_def viper_setting_cong [OF assms] by (rule refl)

lemma finishConfig_cong:
  assumes "sameProcess w w'"
  shows "finishConfig w' cfg = finishConfig w cfg"
  unfolding finishConfig_def expandPath_sameProcess [OF assms] by (rule refl)

lemma decodeOutcome_cong:
  assumes "sameProcess w w'"
  shows "decodeOutcome cdc w' paths flags r = decodeOutcome cdc w paths flags r"
proof -
  have e: "env w' = env w" using assms by (simp add: sameProcess_def)
  have u: "Unmarshal cdc v w' = Unmarshal cdc v w" for v
    by (rule ext) (rule Unmarshal_cong [OF e])
  have f: "finishConfig w' = finishConfig w"
    by (rule ext) (rule finishConfig_cong [OF assms])
  show ?thesis unfolding decodeOutcome_def u f by (rule refl)
qed

lemma ApplyPathOverrides_cong:
  assumes "sameProcess w w'"
  shows "ApplyPathOverrides w' paths cfg = ApplyPathOverrides w paths cfg"
  unfolding ApplyPathOverrides_def expandPath_sameProcess [OF assms] by (rule refl)

lemma defaultDirs_cong:
  assumes "sameProcess w w'"
  shows "defaultConfigDir w' app = defaultConfigDir w app"
    and "defaultDataDir w' app = defaultDataDir w app"
    and "defaultStateDir w' app = defaultStateDir w app"
proof -
  from assms have e: "env w' = env w" and g: "goos w' = goos w"
    and c: "userConfigDir w' = userConfigDir w" and d: "userCacheDir w' = userCacheDir w"
    by (simp_all add: sameProcess_def)
  have h: "homeJoin w' = homeJoin w"
    by (rule ext) (simp add: homeJoin_def os_UserHomeDir_cong [OF e g])
  show "defaultConfigDir w' app = defaultConfigDir w app"
    unfolding defaultConfigDir_def os_Getenv_cong [OF e] g c h by (rule refl)
  show "defaultDataDir w' app = defaultDataDir w app"
    unfolding defaultDataDir_def os_Getenv_cong [OF e] g d h by (rule refl)
  show "defaultStateDir w' app = defaultStateDir w app"
    unfolding defaultStateDir_def os_Getenv_cong [OF e] g h by (rule refl)
qed

text \<open>Creating the default configuration file.\<close>

lemma writeDefaultConfig_snd:
  "snd (writeDefaultConfig w path) = snd (os_MkdirAll w (filepath_Dir path))
   \<or> snd (writeDefaultConfig w path)
       = snd (os_WriteFile (snd (os_MkdirAll w (filepath_Dir path))) path
               (defaultConfigHeader path @ defaultConfigBody))"
  unfolding writeDefaultConfig_def Let_def by (simp split: option.split)

lemma writeDefaultConfig_sameProcess: "sameProcess w (snd (writeDefaultConfig w path))"
proof -
  let ?w1 = "snd (os_MkdirAll w (filepath_Dir path))"
  have a: "sameProcess w ?w1" by (rule os_MkdirAll_sameProcess)
  have "sameProcess ?w1 (snd (os_WriteFile ?w1 path (defaultConfigHeader path @ defaultConfigBody)))"
    by (rule os_WriteFile_sameProcess)
  with a have b: "sameProcess w (snd (os_WriteFile ?w1 path (defaultConfigHeader path @ defaultConfigBody)))"
    by (rule sameProcess_trans)
  from writeDefaultConfig_snd [of w path] a b show ?thesis by auto
qed

lemma writeDefaultConfig_files: "files (snd (writeDefaultConfig w path)) = files w"
  using writeDefaultConfig_snd [of w path] by (auto simp: os_WriteFile_files)

lemma writeDefaultConfig_stderr: "stderr (snd (writeDefaultConfig w path)) = stderr w"
  using writeDefaultConfig_snd [of w path] by (auto simp: os_WriteFile_stderr)

lemma statNode_ENOENT: "statNode w p = Inl ENOENT \<Longrightarrow> p = [] \<or> fs w (fileOf w p) = None"
  unfolding statNode_def nodeAt_def Let_def by (auto split: if_splits option.splits)

lemma writeDefaultConfig_extends:
  assumes "statNode w path = Inl ENOENT"
  shows "extends w (snd (writeDefaultConfig w path))"
proof -
  let ?w1 = "snd (os_MkdirAll w (filepath_Dir path))"
  let ?body = "defaultConfigHeader path @ defaultConfigBody"
  have a: "addsDirs w ?w1" by (rule os_MkdirAll_addsDirs)
  then have e1: "extends w ?w1" by (rule addsDirs_extends)
  have "extends w (snd (os_WriteFile ?w1 path ?body))"
  proof (cases "fs (snd (os_WriteFile ?w1 path ?body)) = fs ?w1")
    case True
    with e1 show ?thesis by (simp add: extends_def)
  next
    case False
    with os_WriteFile_fs [of ?w1 path ?body]
    have p: "path \<noteq> []" and nd: "nodeAt ?w1 path \<noteq> Some Dir"
      and f: "fs (snd (os_WriteFile ?w1 path ?body)) = (fs ?w1)(fileOf ?w1 path := Some (RegFile ?body))"
      by auto
    from statNode_ENOENT [OF assms] p have "fs w (fileOf w path) = None" by simp
    moreover have "fileOf ?w1 path = fileOf w path"
      by (rule sameProcess_fileOf [OF os_MkdirAll_sameProcess])
    ultimately show ?thesis using e1 f by (simp add: extends_def)
  qed
  with e1 writeDefaultConfig_snd [of w path] show ?thesis by auto
qed

lemma writeDefaultConfig_ok:
  assumes "fst (writeDefaultConfig w path) = None"
  shows "statNode (snd (writeDefaultConfig w path)) path
           = Inr (RegFile (defaultConfigHeader path @ defaultConfigBody))"
proof -
  let ?w1 = "snd (os_MkdirAll w (filepath_Dir path))"
  let ?body = "defaultConfigHeader path @ defaultConfigBody"
  from assms have m: "fst (os_MkdirAll w (filepath_Dir path)) = None"
    unfolding writeDefaultConfig_def Let_def by (auto split: option.splits)
  with assms have k: "fst (os_WriteFile ?w1 path ?body) = None"
    unfolding writeDefaultConfig_def Let_def by (auto split: option.splits)
  with m have "snd (writeDefaultConfig w path) = snd (os_WriteFile ?w1 path ?body)"
    unfolding writeDefaultConfig_def Let_def by (auto split: option.splits)
  with os_WriteFile_ok [OF k] show ?thesis by simp
qed

text \<open>Making sure the configuration file is there.\<close>

lemma ensureConfigFile_present:
  assumes "statNode w (ConfigFile paths) = Inr n"
  shows "ensureConfigFile w paths flags = (None, traced (SysStat (ConfigFile paths)) w)"
  unfolding ensureConfigFile_def Let_def by (simp add: assms)

lemma ensureConfigFile_dry:
  assumes "DryRun flags"
  shows "fs (snd (ensureConfigFile w paths flags)) = fs w"
    and "files (snd (ensureConfigFile w paths flags)) = files w"
    and "trace (snd (ensureConfigFile w paths flags)) = trace w @ [SysStat (ConfigFile paths)]"
    and "sameProcess w (snd (ensureConfigFile w paths flags))"
  using assms unfolding ensureConfigFile_def Let_def
  by (simp_all split: sum.split)

lemma ensureConfigFile_sameProcess: "sameProcess w (snd (ensureConfigFile w paths flags))"
proof -
  have "sameProcess (traced (SysStat (ConfigFile paths)) w)
          (snd (writeDefaultConfig (traced (SysStat (ConfigFile paths)) w) (ConfigFile paths)))"
    by (rule writeDefaultConfig_sameProcess)
  then have "sameProcess w (snd (writeDefaultConfig (traced (SysStat (ConfigFile paths)) w) (ConfigFile paths)))"
    by (simp add: sameProcess_def)
  then show ?thesis
    unfolding ensureConfigFile_def Let_def by (simp split: sum.split)
qed

lemma ensureConfigFile_files: "files (snd (ensureConfigFile w paths flags)) = files w"
  unfolding ensureConfigFile_def Let_def by (simp add: writeDefaultConfig_files split: sum.split)

lemma ensureConfigFile_extends: "extends w (snd (ensureConfigFile w paths flags))"
proof (cases "statNode w (ConfigFile paths)")
  case (Inr n)
  then show ?thesis by (simp add: ensureConfigFile_present)
next
  case (Inl e)
  show ?thesis
  proof (cases "e = ENOENT \<and> \<not> DryRun flags")
    case True
    with Inl have "statNode (traced (SysStat (ConfigFile paths)) w) (ConfigFile paths) = Inl ENOENT"
      by simp
    from writeDefaultConfig_extends [OF this]
    have "extends w (snd (writeDefaultConfig (traced (SysStat (ConfigFile paths)) w) (ConfigFile paths)))"
      by (simp add: extends_def)
    with Inl True show ?thesis
      unfolding ensureConfigFile_def Let_def by (simp add: os_IsNotExist_def)
  next
    case False
    with Inl show ?thesis
      unfolding ensureConfigFile_def Let_def by (auto simp: os_IsNotExist_def)
  qed
qed

text \<open>After a successful run that is not a dry run the file is there.\<close>

lemma ensureConfigFile_ok:
  assumes "fst (ensureConfigFile w paths flags) = None" and "\<not> DryRun flags"
  shows "\<exists>n. statNode (snd (ensureConfigFile w paths flags)) (ConfigFile paths) = Inr n"
proof (cases "statNode w (ConfigFile paths)")
  case (Inr n)
  then show ?thesis by (simp add: ensureConfigFile_present)
next
  case (Inl e)
  let ?w1 = "traced (SysStat (ConfigFile paths)) w"
  from assms Inl have e: "e = ENOENT"
    unfolding ensureConfigFile_def Let_def by (auto simp: os_IsNotExist_def split: if_splits)
  with assms Inl have eq: "ensureConfigFile w paths flags = writeDefaultConfig ?w1 (ConfigFile paths)"
    unfolding ensureConfigFile_def Let_def by (simp add: os_IsNotExist_def)
  with assms have "fst (writeDefaultConfig ?w1 (ConfigFile paths)) = None" by simp
  from writeDefaultConfig_ok [OF this] show ?thesis unfolding eq by blast
qed

text \<open>Loading: what is returned, and the world afterwards.\<close>

lemma configuredViper_fields:
  "configFile (configuredViper paths cfg) = ConfigFile paths"
  "automaticEnvApplied (configuredViper paths cfg)"
  "envPrefix (configuredViper paths cfg) = EnvPrefix"
  "envKeyReplacer (configuredViper paths cfg) = Some (CHR ''.'', ''__'')"
  "config (configuredViper paths cfg) = Map.empty"
  by (simp_all add: configuredViper_def SetDefault_def AutomaticEnv_def SetEnvKeyReplacer_def
      SetEnvPrefix_def SetConfigType_def SetConfigFile_def viper_New_def)

lemma ReadInConfig_sameProcess: "sameProcess w (snd (ReadInConfig cdc v w))"
  by (simp add: ReadInConfig_snd)

lemma ReadInConfig_fields:
  "fs (snd (ReadInConfig cdc v w)) = fs w"
  "files (snd (ReadInConfig cdc v w)) = files w"
  "stderr (snd (ReadInConfig cdc v w)) = stderr w"
  by (simp_all add: ReadInConfig_snd)

lemma LoadOrInitConfig_snd:
  "snd (LoadOrInitConfig cdc w paths flags) =
     (case fst (ensureConfigFile w paths flags) of
        Some e \<Rightarrow> snd (ensureConfigFile w paths flags)
      | None \<Rightarrow> snd (ReadInConfig cdc (configuredViper paths defaultConfig)
                      (snd (ensureConfigFile w paths flags))))"
  unfolding LoadOrInitConfig_def Let_def
  by (cases "ensureConfigFile w paths flags") (simp split: option.split sum.split)

lemma LoadOrInitConfig_sameProcess: "sameProcess w (snd (LoadOrInitConfig cdc w paths flags))"
proof -
  have a: "sameProcess w (snd (ensureConfigFile w paths flags))"
    by (rule ensureConfigFile_sameProcess)
  have "sameProcess (snd (ensureConfigFile w paths flags))
          (snd (ReadInConfig cdc (configuredViper paths defaultConfig)
                 (snd (ensureConfigFile w paths flags))))"
    by (rule ReadInConfig_sameProcess)
  with a have "sameProcess w (snd (ReadInConfig cdc (configuredViper paths defaultConfig)
                 (snd (ensureConfigFile w paths flags))))"
    by (rule sameProcess_trans)
  with a show ?thesis unfolding LoadOrInitConfig_snd by (simp split: option.split)
qed

lemma LoadOrInitConfig_fs:
  "fs (snd (LoadOrInitConfig cdc w paths flags)) = fs (snd (ensureConfigFile w paths flags))"
  unfolding LoadOrInitConfig_snd by (simp add: ReadInConfig_fields split: option.split)

lemma LoadOrInitConfig_files: "files (snd (LoadOrInitConfig cdc w paths flags)) = files w"
  unfolding LoadOrInitConfig_snd
  by (simp add: ReadInConfig_fields ensureConfigFile_files split: option.split)

lemma LoadOrInitConfig_extends: "extends w (snd (LoadOrInitConfig cdc w paths flags))"
  using ensureConfigFile_extends [of w paths flags]
  by (simp add: extends_def LoadOrInitConfig_fs)

lemma LoadOrInitConfig_fst:
  "fst (LoadOrInitConfig cdc w paths flags) =
     (case fst (ensureConfigFile w paths flags) of
        Some e \<Rightarrow> Inl e
      | None \<Rightarrow>
          decodeOutcome cdc w paths flags
            (readOutcome cdc (configuredViper paths defaultConfig)
               (statNode (snd (ensureConfigFile w paths flags)) (ConfigFile paths))))"
proof (cases "ensureConfigFile w paths flags")
  case (Pair r w1)
  show ?thesis
  proof (cases r)
    case (Some e)
    with Pair show ?thesis unfolding LoadOrInitConfig_def by simp
  next
    case None
    let ?v = "configuredViper paths defaultConfig"
    let ?w2 = "snd (ReadInConfig cdc ?v w1)"
    from ensureConfigFile_sameProcess [of w paths flags] Pair have "sameProcess w w1" by simp
    moreover have "sameProcess w1 ?w2" by (rule ReadInConfig_sameProcess)
    ultimately have sp: "sameProcess w ?w2" by (rule sameProcess_trans)
    have "fst (LoadOrInitConfig cdc w paths flags)
            = decodeOutcome cdc ?w2 paths flags (fst (ReadInConfig cdc ?v w1))"
      unfolding LoadOrInitConfig_def decodeOutcome_def Let_def Pair None
      by (simp split: sum.split)
    also have "\<dots> = decodeOutcome cdc w paths flags (fst (ReadInConfig cdc ?v w1))"
      by (rule decodeOutcome_cong [OF sp])
    finally show ?thesis
      using Pair None by (simp add: ReadInConfig_fst configuredViper_fields)
  qed
qed

text \<open>With the file there, loading reads it and writes nothing.\<close>

lemma LoadOrInitConfig_present:
  assumes "statNode w (ConfigFile paths) = Inr n"
  shows "fst (LoadOrInitConfig cdc w paths flags)
           = decodeOutcome cdc w paths flags
               (readOutcome cdc (configuredViper paths defaultConfig) (Inr n))"
    and "snd (LoadOrInitConfig cdc w paths flags)
           = traced (SysReadFile (ConfigFile paths)) (traced (SysStat (ConfigFile paths)) w)"
proof -
  from assms have ne: "ConfigFile paths \<noteq> []" by (auto simp: statNode_def)
  show "fst (LoadOrInitConfig cdc w paths flags)
           = decodeOutcome cdc w paths flags
               (readOutcome cdc (configuredViper paths defaultConfig) (Inr n))"
    unfolding LoadOrInitConfig_fst ensureConfigFile_present [OF assms] by (simp add: assms)
  show "snd (LoadOrInitConfig cdc w paths flags)
           = traced (SysReadFile (ConfigFile paths)) (traced (SysStat (ConfigFile paths)) w)"
    unfolding LoadOrInitConfig_snd ensureConfigFile_present [OF assms]
    by (simp add: ReadInConfig_snd configuredViper_fields ne)
qed

text \<open>What \<^verbatim>\<open>Stat\<close> says after the file system grew.\<close>

lemma statNode_extends:
  assumes "extends w w'" and "sameNames w w'" and "statNode w p = Inr n"
  shows "statNode w' p = Inr n"
  using assms(1,3)
  unfolding statNode_Inr sameNames_fileOf [OF assms(2)] sameNames_denied [OF assms(2)] extends_def
  by (auto split: if_splits)

lemma statNode_keeps_Dir:
  assumes "keepsKinds w w'" and "sameNames w w'" and "statNode w p = Inr Dir"
  shows "statNode w' p = Inr Dir"
  using assms(1,3)
  unfolding statNode_Inr sameNames_fileOf [OF assms(2)] sameNames_denied [OF assms(2)] keepsKinds_def
  by (auto split: if_splits)

lemma statNode_keeps_File:
  assumes "keepsKinds w w'" and "sameNames w w'" and "statNode w p = Inr (RegFile c)"
  shows "\<exists>c'. statNode w' p = Inr (RegFile c')"
proof -
  from assms(3) have a: "p \<noteq> []" "\<not> denied w (filepath_Clean p)"
    "filepath_Clean p \<noteq> ''/''" "filepath_Clean p \<noteq> ''.''"
    "fs w (fileOf w p) = Some (RegFile c)"
    unfolding statNode_Inr by (auto split: if_splits)
  from a(5) assms(1) obtain c' where "fs w' (fileOf w p) = Some (RegFile c')"
    unfolding keepsKinds_def by blast
  with a have "statNode w' p = Inr (RegFile c')"
    unfolding statNode_Inr sameNames_fileOf [OF assms(2)] sameNames_denied [OF assms(2)] by simp
  then show ?thesis by blast
qed

text \<open>Creating the data and state directories.\<close>

lemma ensureEach_rel:
  assumes r: "\<And>w. R w w" and t: "\<And>a b c. R a b \<Longrightarrow> R b c \<Longrightarrow> R a c"
    and s: "\<And>w p. R w (snd (os_MkdirAll w p))"
  shows "R w (snd (ensureEach w dirs))"
proof (induction dirs arbitrary: w)
  case Nil
  show ?case by (simp add: r)
next
  case (Cons dir dirs)
  show ?case
  proof (cases "dir = []")
    case True
    with Cons show ?thesis by simp
  next
    case False
    show ?thesis
    proof (cases "fst (mkdirAll w dir)")
      case (Some e)
      with False s [of w dir] show ?thesis by simp
    next
      case None
      from t [OF s [of w dir] Cons.IH [of "snd (os_MkdirAll w dir)"]] None False
      show ?thesis by simp
    qed
  qed
qed

lemma ensureEach_sameProcess: "sameProcess w (snd (ensureEach w dirs))"
  by (rule ensureEach_rel) (auto intro: sameProcess_trans os_MkdirAll_sameProcess)

lemma ensureEach_addsDirs: "addsDirs w (snd (ensureEach w dirs))"
  by (rule ensureEach_rel) (auto intro: addsDirs_trans os_MkdirAll_addsDirs)

lemma ensureEach_files: "files (snd (ensureEach w dirs)) = files w"
  by (rule ensureEach_rel [where R = "\<lambda>a b. files b = files a"]) simp_all

lemma ensureEach_stderr: "stderr (snd (ensureEach w dirs)) = stderr w"
  by (rule ensureEach_rel [where R = "\<lambda>a b. stderr b = stderr a"]) simp_all

lemma ensureEach_ok:
  assumes "fst (ensureEach w dirs) = None" and "d \<in> set dirs" and "d \<noteq> []"
  shows "statNode (snd (ensureEach w dirs)) d = Inr Dir"
  using assms
proof (induction dirs arbitrary: w)
  case Nil
  then show ?case by simp
next
  case (Cons dir dirs)
  show ?case
  proof (cases "dir = []")
    case True
    with Cons.prems Cons.IH [of w] show ?thesis by simp
  next
    case False
    let ?w1 = "snd (os_MkdirAll w dir)"
    from Cons.prems(1) False have m: "fst (os_MkdirAll w dir) = None"
      by (cases "fst (mkdirAll w dir)") simp_all
    with Cons.prems(1) False have eq: "ensureEach w (dir # dirs) = ensureEach ?w1 dirs" by simp
    with Cons.prems(1) have ok: "fst (ensureEach ?w1 dirs) = None" by simp
    show ?thesis
    proof (cases "d \<in> set dirs")
      case True
      from Cons.IH [OF ok True Cons.prems(3)] show ?thesis unfolding eq .
    next
      case False
      with Cons.prems(2) have d: "d = dir" by simp
      have "statNode ?w1 d = Inr Dir" unfolding d by (rule os_MkdirAll_ok [OF m])
      moreover have "keepsKinds ?w1 (snd (ensureEach ?w1 dirs))"
        by (rule extends_keepsKinds [OF addsDirs_extends [OF ensureEach_addsDirs]])
      moreover have "sameNames ?w1 (snd (ensureEach ?w1 dirs))"
        by (rule sameProcess_names [OF ensureEach_sameProcess])
      ultimately show ?thesis unfolding eq by (metis statNode_keeps_Dir)
    qed
  qed
qed

text \<open>Directories that are there are left as they are, and nothing else changes.\<close>

lemma ensureEach_present:
  assumes "\<forall>d \<in> set dirs. d \<noteq> [] \<longrightarrow> statNode w d = Inr Dir"
  shows "fst (ensureEach w dirs) = None \<and> fs (snd (ensureEach w dirs)) = fs w"
  using assms
proof (induction dirs arbitrary: w)
  case Nil
  then show ?case by simp
next
  case (Cons dir dirs)
  show ?case
  proof (cases "dir = []")
    case True
    with Cons.prems Cons.IH [of w] show ?thesis by simp
  next
    case False
    let ?w1 = "snd (os_MkdirAll w dir)"
    from Cons.prems False have st: "statNode w dir = Inr Dir" by simp
    from os_MkdirAll_present [OF st]
    have m: "fst (os_MkdirAll w dir) = None" and f: "fs ?w1 = fs w" by simp_all
    have dn: "sameNames w ?w1" by (rule sameProcess_names [OF os_MkdirAll_sameProcess])
    have "\<forall>d \<in> set dirs. d \<noteq> [] \<longrightarrow> statNode ?w1 d = Inr Dir"
      using Cons.prems statNode_cong [OF f dn] by simp
    from Cons.IH [OF this] f m False show ?thesis by simp
  qed
qed

lemma EnsureDirectories_sameProcess: "sameProcess w (snd (EnsureDirectories w paths flags))"
  unfolding EnsureDirectories_def by (simp add: ensureEach_sameProcess del: ensureEach.simps)

lemma EnsureDirectories_addsDirs: "addsDirs w (snd (EnsureDirectories w paths flags))"
  unfolding EnsureDirectories_def by (simp add: ensureEach_addsDirs del: ensureEach.simps)

lemma EnsureDirectories_files: "files (snd (EnsureDirectories w paths flags)) = files w"
  unfolding EnsureDirectories_def by (simp add: ensureEach_files del: ensureEach.simps)

lemma EnsureDirectories_dry: "DryRun flags \<Longrightarrow> EnsureDirectories w paths flags = (None, w)"
  unfolding EnsureDirectories_def by simp

text \<open>Runs of calls that only read.\<close>

lemma onlyReadsI:
  "trace w' = trace w @ evs \<Longrightarrow> list_all readOnlyCall evs \<Longrightarrow> onlyReads w w'"
  by (simp add: onlyReads_def)

lemma onlyReadsD: "onlyReads w w' \<Longrightarrow> \<exists>evs. trace w' = trace w @ evs \<and> list_all readOnlyCall evs"
  unfolding onlyReads_def by (metis append_take_drop_id)

lemma onlyReads_refl [simp]: "onlyReads w w"
  by (simp add: onlyReads_def)

lemma onlyReads_trans:
  assumes "onlyReads a b" and "onlyReads b c"
  shows "onlyReads a c"
proof -
  from onlyReadsD [OF assms(1)] obtain e1 where 1: "trace b = trace a @ e1" "list_all readOnlyCall e1"
    by blast
  from onlyReadsD [OF assms(2)] obtain e2 where 2: "trace c = trace b @ e2" "list_all readOnlyCall e2"
    by blast
  show ?thesis by (rule onlyReadsI [where evs = "e1 @ e2"]) (simp_all add: 1 2)
qed

lemma onlyReads_eprint [simp]: "onlyReads w (eprint s w') = onlyReads w w'"
  by (simp add: onlyReads_def)

lemma onlyReads_traced:
  assumes "onlyReads w w'" and "readOnlyCall ev"
  shows "onlyReads w (traced ev w')"
proof -
  from onlyReadsD [OF assms(1)] obtain e1 where 1: "trace w' = trace w @ e1" "list_all readOnlyCall e1"
    by blast
  show ?thesis by (rule onlyReadsI [where evs = "e1 @ [ev]"]) (simp_all add: 1 assms(2))
qed

lemma readOnlyCall_simps [simp]:
  "readOnlyCall (SysStat p)" "readOnlyCall (SysReadFile p)"
  "\<not> readOnlyCall (SysMkdirAll p)" "\<not> readOnlyCall (SysWriteFile p)"
  "\<not> readOnlyCall (SysOpenFile p)" "\<not> readOnlyCall (SysWrite h)" "\<not> readOnlyCall (SysClose h)"
  by (simp_all add: readOnlyCall_def)

text \<open>Path discovery looks at the override path and changes nothing.\<close>

lemma resolveConfigFile_snd:
  "snd (resolveConfigFile w app override) = w
   \<or> (\<exists>p. snd (resolveConfigFile w app override) = traced (SysStat p) w)"
  unfolding resolveConfigFile_def
  by (auto split: sum.splits node.splits)

lemma DiscoverPaths_snd:
  "snd (DiscoverPaths w app override) = snd (resolveConfigFile w app override)"
  unfolding DiscoverPaths_def
  by (cases "resolveConfigFile w app override") (auto split: sum.splits)

lemma DiscoverPaths_fields:
  "fs (snd (DiscoverPaths w app override)) = fs w"
  "files (snd (DiscoverPaths w app override)) = files w"
  "stderr (snd (DiscoverPaths w app override)) = stderr w"
  "sameProcess w (snd (DiscoverPaths w app override))"
  "onlyReads w (snd (DiscoverPaths w app override))"
  unfolding DiscoverPaths_snd using resolveConfigFile_snd [of w app override]
  by (auto intro!: onlyReads_traced)

lemma statNode_DiscoverPaths [simp]:
  "statNode (snd (DiscoverPaths w app override)) p = statNode w p"
  by (rule statNode_cong) (simp_all add: DiscoverPaths_fields sameProcess_names)

text \<open>
  The paths discovered are the same in two worlds of one process that agree on whether
  the override path is a directory.
\<close>

lemma resolveConfigFile_cong:
  assumes sp: "sameProcess w w'"
    and d: "\<And>p. expandPath w override = Inr p
                 \<Longrightarrow> (statNode w' p = Inr Dir) = (statNode w p = Inr Dir)"
  shows "fst (resolveConfigFile w' app override) = fst (resolveConfigFile w app override)"
proof (cases "override = []")
  case True
  then show ?thesis
    unfolding resolveConfigFile_def defaultDirs_cong(1) [OF sp]
    by (simp split: sum.split)
next
  case False
  show ?thesis
  proof (cases "expandPath w override")
    case (Inl e)
    with False show ?thesis
      unfolding resolveConfigFile_def expandPath_sameProcess [OF sp] by simp
  next
    case (Inr p)
    have a: "fst (resolveConfigFile u app override)
               = Inr (if statNode u p = Inr Dir then filepath_Join [p, ''config.toml''] else p)"
      if "expandPath u override = Inr p" for u
      using that False unfolding resolveConfigFile_def
      by (auto split: sum.splits node.splits)
    from Inr have "expandPath w' override = Inr p"
      unfolding expandPath_sameProcess [OF sp] .
    from a [OF this] a [OF Inr] d [OF Inr] show ?thesis by simp
  qed
qed

lemma DiscoverPaths_fst:
  "fst (DiscoverPaths w app override) =
     (case fst (resolveConfigFile w app override) of
        Inl e \<Rightarrow> Inl e
      | Inr cf \<Rightarrow>
          (case defaultDataDir w app of
             Inl e \<Rightarrow> Inl e
           | Inr dataDir \<Rightarrow>
               (case defaultStateDir w app of
                  Inl e \<Rightarrow> Inl e
                | Inr stateDir \<Rightarrow>
                    Inr \<lparr>ConfigFile = cf, AppPaths.DataDir = dataDir,
                         AppPaths.StateDir = stateDir\<rparr>)))"
proof -
  have sp: "sameProcess w (snd (resolveConfigFile w app override))"
    using resolveConfigFile_snd [of w app override] by auto
  show ?thesis
    unfolding DiscoverPaths_def defaultDirs_cong [OF sp, symmetric]
    by (cases "resolveConfigFile w app override") (auto split: sum.splits)
qed

lemma DiscoverPaths_cong:
  assumes sp: "sameProcess w w'"
    and d: "\<And>p. expandPath w override = Inr p
                 \<Longrightarrow> (statNode w' p = Inr Dir) = (statNode w p = Inr Dir)"
  shows "fst (DiscoverPaths w' app override) = fst (DiscoverPaths w app override)"
proof -
  have r: "fst (resolveConfigFile w' app override) = fst (resolveConfigFile w app override)"
    using sp d by (rule resolveConfigFile_cong)
  show ?thesis
    unfolding DiscoverPaths_fst r defaultDirs_cong [OF sp] by (rule refl)
qed

text \<open>Resolving the log settings: the only call is the one that opens the log file.\<close>

lemma ResolveLogSettings_snd:
  "snd (ResolveLogSettings w flags cfg) =
     (if LoggingConfig.File (Logging cfg) \<noteq> [] \<and> \<not> DryRun flags
      then snd (os_OpenFile w (LoggingConfig.File (Logging cfg))) else w)"
  unfolding ResolveLogSettings_def Let_def by (simp split: sum.split)

lemma ResolveLogSettings_sameProcess: "sameProcess w (snd (ResolveLogSettings w flags cfg))"
  unfolding ResolveLogSettings_snd by (simp add: os_OpenFile_sameProcess)

lemma ResolveLogSettings_extends: "extends w (snd (ResolveLogSettings w flags cfg))"
  unfolding ResolveLogSettings_snd by (simp add: os_OpenFile_extends)

lemma ResolveLogSettings_stderr: "stderr (snd (ResolveLogSettings w flags cfg)) = stderr w"
  unfolding ResolveLogSettings_snd by (simp add: os_OpenFile_stderr)

text \<open>Without a log file, or in a dry run, the sinks are standard error or nothing.\<close>

lemma ResolveLogSettings_plain:
  assumes "LoggingConfig.File (Logging cfg) = [] \<or> DryRun flags"
  shows "snd (ResolveLogSettings w flags cfg) = w"
    and "\<exists>s. fst (ResolveLogSettings w flags cfg) = Inr s \<and> FileHandle s = None
             \<and> (Writers s = [Stderr] \<or> Writers s = [Discard])"
  using assms unfolding ResolveLogSettings_def Let_def by auto

text \<open>With a log file the handle is the one just opened, and the last sink writes to it.\<close>

lemma ResolveLogSettings_file:
  assumes "fst (ResolveLogSettings w flags cfg) = Inr s"
    and "LoggingConfig.File (Logging cfg) \<noteq> []" and "\<not> DryRun flags"
  shows "fst (os_OpenFile w (LoggingConfig.File (Logging cfg))) = Inr (length (files w))"
    and "FileHandle s = Some (length (files w))"
    and "Writers s = [Stderr, FileWriter (length (files w))]
         \<or> Writers s = [FileWriter (length (files w))]"
proof -
  let ?f = "LoggingConfig.File (Logging cfg)"
  from assms obtain h where h: "fst (os_OpenFile w ?f) = Inr h"
    unfolding ResolveLogSettings_def Let_def by (cases "fst (os_OpenFile w ?f)") auto
  from os_OpenFile_ok(1) [OF h] have l: "h = length (files w)" .
  from h l show "fst (os_OpenFile w ?f) = Inr (length (files w))" by simp
  from assms h l show "FileHandle s = Some (length (files w))"
    unfolding ResolveLogSettings_def Let_def by auto
  from assms h l show "Writers s = [Stderr, FileWriter (length (files w))]
         \<or> Writers s = [FileWriter (length (files w))]"
    unfolding ResolveLogSettings_def Let_def by auto
qed

text \<open>Writing a log line.\<close>

lemma io_WriteString_sameProcess: "sameProcess w (io_WriteString wr s w)"
  unfolding io_WriteString_def by (simp add: File_Write_sameProcess split: writer.split)

lemma io_WriteString_files: "files (io_WriteString wr s w) = files w"
  unfolding io_WriteString_def by (simp add: File_Write_files split: writer.split)

lemma io_WriteString_keepsKinds: "keepsKinds w (io_WriteString wr s w)"
proof (cases wr)
  case (FileWriter h)
  then show ?thesis unfolding io_WriteString_def by (simp add: File_Write_keepsKinds)
qed (simp_all add: io_WriteString_def keepsKinds_def)

lemma io_WriteString_elsewhere:
  assumes "\<And>h. wr = FileWriter h \<Longrightarrow> h < length (files w) \<and> p \<noteq> fst (files w ! h)"
  shows "fs (io_WriteString wr s w) p = fs w p"
  using assms unfolding io_WriteString_def
  by (auto simp: File_Write_elsewhere split: writer.split)

lemma io_WriteString_plain:
  assumes "wr = Stderr \<or> wr = Discard"
  shows "fs (io_WriteString wr s w) = fs w" "trace (io_WriteString wr s w) = trace w"
  using assms unfolding io_WriteString_def by auto

lemma Logger_log_rel:
  assumes r: "\<And>w. R w w" and t: "\<And>a b c. R a b \<Longrightarrow> R b c \<Longrightarrow> R a c"
    and s: "\<And>w wr s. wr \<in> set (Writers (settings l)) \<Longrightarrow> R w (io_WriteString wr s w)"
  shows "R w (Logger_log l level body w)"
proof -
  have "R w (fold (\<lambda>wr w1. io_WriteString wr t2 (io_WriteString wr t1 w1)) wrs w)"
    if "set wrs \<subseteq> set (Writers (settings l))" for wrs t1 t2
    using that
  proof (induction wrs arbitrary: w)
    case Nil
    show ?case by (simp add: r)
  next
    case (Cons wr wrs)
    from Cons.prems have m: "wr \<in> set (Writers (settings l))"
      and sub: "set wrs \<subseteq> set (Writers (settings l))" by simp_all
    have "R w (io_WriteString wr t2 (io_WriteString wr t1 w))"
      by (rule t [OF s [OF m] s [OF m]])
    from t [OF this Cons.IH [OF sub]] show ?case by simp
  qed
  then show ?thesis unfolding Logger_log_def Let_def by (simp add: r)
qed

lemma Logger_log_sameProcess: "sameProcess w (Logger_log l level body w)"
  by (rule Logger_log_rel) (auto intro: sameProcess_trans io_WriteString_sameProcess)

lemma Logger_log_files: "files (Logger_log l level body w) = files w"
  by (rule Logger_log_rel [where R = "\<lambda>a b. files b = files a"])
     (simp_all add: io_WriteString_files)

lemma Logger_log_keepsKinds: "keepsKinds w (Logger_log l level body w)"
  by (rule Logger_log_rel) (auto intro: keepsKinds_trans io_WriteString_keepsKinds)

lemma Logger_log_plain:
  assumes "\<And>wr. wr \<in> set (Writers (settings l)) \<Longrightarrow> wr = Stderr \<or> wr = Discard"
  shows "fs (Logger_log l level body w) = fs w \<and> trace (Logger_log l level body w) = trace w"
  by (rule Logger_log_rel [where R = "\<lambda>a b. fs b = fs a \<and> trace b = trace a"])
     (simp_all add: io_WriteString_plain assms)

lemma Logger_log_elsewhere:
  assumes "\<And>h. FileWriter h \<in> set (Writers (settings l))
             \<Longrightarrow> h < length (files w) \<and> p \<noteq> fst (files w ! h)"
  shows "fs (Logger_log l level body w) p = fs w p"
proof -
  have "files (Logger_log l level body w) = files w \<and> fs (Logger_log l level body w) p = fs w p"
  proof (rule Logger_log_rel [where R = "\<lambda>a b. files a = files w \<longrightarrow> files b = files a \<and> fs b p = fs a p",
        THEN mp])
    fix u wr s
    assume m: "wr \<in> set (Writers (settings l))"
    show "files u = files w \<longrightarrow>
            files (io_WriteString wr s u) = files u \<and> fs (io_WriteString wr s u) p = fs u p"
    proof
      assume f: "files u = files w"
      have "fs (io_WriteString wr s u) p = fs u p"
        by (rule io_WriteString_elsewhere) (use assms m f in auto)
      then show "files (io_WriteString wr s u) = files u \<and> fs (io_WriteString wr s u) p = fs u p"
        by (simp add: io_WriteString_files)
    qed
  qed simp_all
  then show ?thesis by simp
qed

lemma Logger_log_silent:
  "levelValue level > levelValue (LogSettings.Level (settings l)) \<Longrightarrow> Logger_log l level body w = w"
  by (simp add: Logger_log_def)

text \<open>The steps of \<^verbatim>\<open>NewRuntimeContext\<close>.\<close>

lemma NewRuntimeContext_steps:
  "NewRuntimeContext cdc w flags =
     (case fst (DiscoverPaths w appName (ConfigPath flags)) of
        Inl e \<Rightarrow> (Inl e, afterDiscover w flags)
      | Inr paths \<Rightarrow>
          (case fst (LoadOrInitConfig cdc (afterDiscover w flags) paths flags) of
             Inl e \<Rightarrow> (Inl e, afterLoad cdc w flags paths)
           | Inr cfg \<Rightarrow>
               (case ApplyPathOverrides (afterLoad cdc w flags paths) paths cfg of
                  Inl e \<Rightarrow> (Inl e, afterLoad cdc w flags paths)
                | Inr eff \<Rightarrow>
                    (case fst (EnsureDirectories (afterLoad cdc w flags paths) eff flags) of
                       Some e \<Rightarrow> (Inl e, afterDirs cdc w flags paths eff)
                     | None \<Rightarrow>
                         (case fst (ResolveLogSettings (afterDirs cdc w flags paths eff) flags cfg) of
                            Inl e \<Rightarrow> (Inl e, afterLog cdc w flags paths eff cfg)
                          | Inr ls \<Rightarrow>
                              (Inr \<lparr>Common = flags, RuntimeContext.Paths = eff, Config = cfg,
                                    Logger = ConfigureLogger ls, LogSettings = ls\<rparr>,
                               Logger_Debug (ConfigureLogger ls) (resolvedPathsMessage eff)
                                 (afterLog cdc w flags paths eff cfg)))))))"
  unfolding NewRuntimeContext_def afterDiscover_def afterLoad_def afterDirs_def afterLog_def Let_def
  by (simp add: split_beta split: sum.split option.split)

lemma NewRuntimeContext_InrI:
  assumes "fst (DiscoverPaths w appName (ConfigPath flags)) = Inr paths"
    and "fst (LoadOrInitConfig cdc (afterDiscover w flags) paths flags) = Inr cfg"
    and "ApplyPathOverrides (afterLoad cdc w flags paths) paths cfg = Inr eff"
    and "fst (EnsureDirectories (afterLoad cdc w flags paths) eff flags) = None"
    and "fst (ResolveLogSettings (afterDirs cdc w flags paths eff) flags cfg) = Inr ls"
  shows "NewRuntimeContext cdc w flags =
           (Inr \<lparr>Common = flags, RuntimeContext.Paths = eff, Config = cfg,
                 Logger = ConfigureLogger ls, LogSettings = ls\<rparr>,
            Logger_Debug (ConfigureLogger ls) (resolvedPathsMessage eff)
              (afterLog cdc w flags paths eff cfg))"
  unfolding NewRuntimeContext_steps by (simp add: assms)

lemma NewRuntimeContext_InrE:
  assumes "fst (NewRuntimeContext cdc w flags) = Inr rtx"
  obtains paths cfg eff ls where
    "fst (DiscoverPaths w appName (ConfigPath flags)) = Inr paths"
    "fst (LoadOrInitConfig cdc (afterDiscover w flags) paths flags) = Inr cfg"
    "ApplyPathOverrides (afterLoad cdc w flags paths) paths cfg = Inr eff"
    "fst (EnsureDirectories (afterLoad cdc w flags paths) eff flags) = None"
    "fst (ResolveLogSettings (afterDirs cdc w flags paths eff) flags cfg) = Inr ls"
    "rtx = \<lparr>Common = flags, RuntimeContext.Paths = eff, Config = cfg,
            Logger = ConfigureLogger ls, LogSettings = ls\<rparr>"
proof (cases "fst (DiscoverPaths w appName (ConfigPath flags))")
  case (Inl e)
  with assms show thesis unfolding NewRuntimeContext_steps by simp
next
  case (Inr paths)
  note 1 = this
  show thesis
  proof (cases "fst (LoadOrInitConfig cdc (afterDiscover w flags) paths flags)")
    case (Inl e)
    with assms 1 show thesis unfolding NewRuntimeContext_steps by simp
  next
    case (Inr cfg)
    note 2 = this
    show thesis
    proof (cases "ApplyPathOverrides (afterLoad cdc w flags paths) paths cfg")
      case (Inl e)
      with assms 1 2 show thesis unfolding NewRuntimeContext_steps by simp
    next
      case (Inr eff)
      note 3 = this
      show thesis
      proof (cases "fst (EnsureDirectories (afterLoad cdc w flags paths) eff flags)")
        case (Some e)
        with assms 1 2 3 show thesis unfolding NewRuntimeContext_steps by simp
      next
        case None
        note 4 = this
        show thesis
        proof (cases "fst (ResolveLogSettings (afterDirs cdc w flags paths eff) flags cfg)")
          case (Inl e)
          with assms 1 2 3 4 show thesis unfolding NewRuntimeContext_steps by simp
        next
          case (Inr ls)
          from assms have "rtx = \<lparr>Common = flags, RuntimeContext.Paths = eff, Config = cfg,
            Logger = ConfigureLogger ls, LogSettings = ls\<rparr>"
            unfolding NewRuntimeContext_InrI [OF 1 2 3 4 Inr] by simp
          with 1 2 3 4 Inr show thesis by (rule that)
        qed
      qed
    qed
  qed
qed

text \<open>A relation that every step respects holds from the start to the end of the whole.\<close>

lemma NewRuntimeContext_rel:
  assumes r: "\<And>w. R w w" and t: "\<And>a b c. R a b \<Longrightarrow> R b c \<Longrightarrow> R a c"
    and s1: "\<And>w. R w (snd (DiscoverPaths w appName (ConfigPath flags)))"
    and s2: "\<And>w paths. R w (snd (LoadOrInitConfig cdc w paths flags))"
    and s3: "\<And>w eff. R w (snd (EnsureDirectories w eff flags))"
    and s4: "\<And>w cfg. R w (snd (ResolveLogSettings w flags cfg))"
    and s5: "\<And>w u cfg ls msg. fst (ResolveLogSettings u flags cfg) = Inr ls
               \<Longrightarrow> R w (Logger_Debug (ConfigureLogger ls) msg w)"
  shows "R w (snd (NewRuntimeContext cdc w flags))"
proof -
  have 1: "R w (afterDiscover w flags)" unfolding afterDiscover_def by (rule s1)
  have 2: "R w (afterLoad cdc w flags paths)" for paths
    unfolding afterLoad_def by (rule t [OF 1 s2])
  have 3: "R w (afterDirs cdc w flags paths eff)" for paths eff
    unfolding afterDirs_def by (rule t [OF 2 s3])
  have 4: "R w (afterLog cdc w flags paths eff cfg)" for paths eff cfg
    unfolding afterLog_def by (rule t [OF 3 s4])
  have 5: "R w (Logger_Debug (ConfigureLogger ls) msg (afterLog cdc w flags paths eff cfg))"
    if "fst (ResolveLogSettings u flags cfg) = Inr ls" for paths eff cfg ls msg u
    by (rule t [OF 4 s5 [OF that]])
  show ?thesis
    unfolding NewRuntimeContext_steps
    by (auto simp: 1 2 3 4 intro: 5 split: sum.split option.split)
qed

lemma NewRuntimeContext_sameProcess: "sameProcess w (snd (NewRuntimeContext cdc w flags))"
proof (rule NewRuntimeContext_rel)
  show "sameProcess a c" if "sameProcess a b" "sameProcess b c" for a b c
    using that by (rule sameProcess_trans)
qed (simp_all add: DiscoverPaths_fields LoadOrInitConfig_sameProcess EnsureDirectories_sameProcess
       ResolveLogSettings_sameProcess Logger_Debug_def Logger_log_sameProcess)

lemma NewRuntimeContext_keepsKinds: "keepsKinds w (snd (NewRuntimeContext cdc w flags))"
proof (rule NewRuntimeContext_rel)
  show "keepsKinds a c" if "keepsKinds a b" "keepsKinds b c" for a b c
    using that by (rule keepsKinds_trans)
  show "keepsKinds u (snd (DiscoverPaths u appName (ConfigPath flags)))" for u
    by (simp add: keepsKinds_def DiscoverPaths_fields)
  show "keepsKinds u (snd (LoadOrInitConfig cdc u paths flags))" for u paths
    by (rule extends_keepsKinds [OF LoadOrInitConfig_extends])
  show "keepsKinds u (snd (EnsureDirectories u eff flags))" for u eff
    by (rule extends_keepsKinds [OF addsDirs_extends [OF EnsureDirectories_addsDirs]])
  show "keepsKinds u (snd (ResolveLogSettings u flags cfg))" for u cfg
    by (rule extends_keepsKinds [OF ResolveLogSettings_extends])
qed (simp_all add: Logger_Debug_def Logger_log_keepsKinds)

text \<open>Path overrides, case by case.\<close>

lemma ApplyPathOverrides_cases:
  "ApplyPathOverrides w paths cfg =
     (if PathsConfig.DataDir (AppConfig.Paths cfg) = [] then
        (if PathsConfig.StateDir (AppConfig.Paths cfg) = [] then Inr paths
         else (case expandPath w (PathsConfig.StateDir (AppConfig.Paths cfg)) of
                 Inl e \<Rightarrow> Inl e
               | Inr s \<Rightarrow> Inr (paths\<lparr>AppPaths.StateDir := s\<rparr>)))
      else (case expandPath w (PathsConfig.DataDir (AppConfig.Paths cfg)) of
              Inl e \<Rightarrow> Inl e
            | Inr d \<Rightarrow>
               (if PathsConfig.StateDir (AppConfig.Paths cfg) = [] then Inr (paths\<lparr>AppPaths.DataDir := d\<rparr>)
                else (case expandPath w (PathsConfig.StateDir (AppConfig.Paths cfg)) of
                        Inl e \<Rightarrow> Inl e
                      | Inr s \<Rightarrow> Inr (paths\<lparr>AppPaths.DataDir := d, AppPaths.StateDir := s\<rparr>)))))"
  unfolding ApplyPathOverrides_def
  by (simp split: sum.split)

lemma apo_Inr:
  assumes "ApplyPathOverrides w paths cfg = Inr p"
  shows "ConfigFile p = ConfigFile paths
     \<and> (if PathsConfig.DataDir (AppConfig.Paths cfg) = []
           then AppPaths.DataDir p = AppPaths.DataDir paths
           else expandPath w (PathsConfig.DataDir (AppConfig.Paths cfg)) = Inr (AppPaths.DataDir p))
     \<and> (if PathsConfig.StateDir (AppConfig.Paths cfg) = []
           then AppPaths.StateDir p = AppPaths.StateDir paths
           else expandPath w (PathsConfig.StateDir (AppConfig.Paths cfg)) = Inr (AppPaths.StateDir p))"
proof (cases "expandPath w (PathsConfig.DataDir (AppConfig.Paths cfg))")
  case dl: (Inl e1)
  show ?thesis
  proof (cases "expandPath w (PathsConfig.StateDir (AppConfig.Paths cfg))")
    case (Inl e2)
    with dl assms show ?thesis
      unfolding ApplyPathOverrides_cases by (clarsimp split: if_splits)
  next
    case (Inr s)
    with dl assms show ?thesis
      unfolding ApplyPathOverrides_cases by (clarsimp split: if_splits)
  qed
next
  case dr: (Inr d)
  show ?thesis
  proof (cases "expandPath w (PathsConfig.StateDir (AppConfig.Paths cfg))")
    case (Inl e2)
    with dr assms show ?thesis
      unfolding ApplyPathOverrides_cases by (clarsimp split: if_splits)
  next
    case (Inr s)
    with dr assms show ?thesis
      unfolding ApplyPathOverrides_cases by (clarsimp split: if_splits)
  qed
qed

lemma apo_Inl:
  assumes "ApplyPathOverrides w paths cfg = Inl e"
  shows "(PathsConfig.DataDir (AppConfig.Paths cfg) \<noteq> []
            \<and> expandPath w (PathsConfig.DataDir (AppConfig.Paths cfg)) = Inl e)
       \<or> (PathsConfig.StateDir (AppConfig.Paths cfg) \<noteq> []
            \<and> expandPath w (PathsConfig.StateDir (AppConfig.Paths cfg)) = Inl e)"
proof (cases "expandPath w (PathsConfig.DataDir (AppConfig.Paths cfg))")
  case dl: (Inl e1)
  show ?thesis
  proof (cases "expandPath w (PathsConfig.StateDir (AppConfig.Paths cfg))")
    case (Inl e2)
    with dl assms show ?thesis
      unfolding ApplyPathOverrides_cases by (clarsimp split: if_splits)
  next
    case (Inr s)
    with dl assms show ?thesis
      unfolding ApplyPathOverrides_cases by (clarsimp split: if_splits)
  qed
next
  case dr: (Inr d)
  show ?thesis
  proof (cases "expandPath w (PathsConfig.StateDir (AppConfig.Paths cfg))")
    case (Inl e2)
    with dr assms show ?thesis
      unfolding ApplyPathOverrides_cases by (clarsimp split: if_splits)
  next
    case (Inr s)
    with dr assms show ?thesis
      unfolding ApplyPathOverrides_cases by (clarsimp split: if_splits)
  qed
qed

lemma apo_cong:
  assumes "env w = env w'" and "goos w = goos w'"
  shows "ApplyPathOverrides w paths cfg = ApplyPathOverrides w' paths cfg"
proof -
  have eq: "expandPath w = expandPath w'" by (rule expandPath_cong [OF assms])
  show ?thesis unfolding ApplyPathOverrides_def eq by (rule refl)
qed

lemma onlyReads_same_trace: "trace w' = trace w \<Longrightarrow> onlyReads w w'"
  by (simp add: onlyReads_def)

lemma LoadOrInitConfig_dry_trace:
  assumes "DryRun flags"
  shows "onlyReads w (snd (LoadOrInitConfig cdc w paths flags))"
proof -
  let ?w1 = "snd (ensureConfigFile w paths flags)"
  have a: "onlyReads w ?w1"
    by (rule onlyReadsI [OF ensureConfigFile_dry(3) [OF assms]]) simp
  then have "onlyReads w (traced (SysReadFile p) ?w1)" for p
    by (rule onlyReads_traced) simp
  with a show ?thesis
    unfolding LoadOrInitConfig_snd by (simp add: ReadInConfig_snd split: option.split)
qed

lemma ConfigureLogger_settings:
  "Writers s \<noteq> [] \<Longrightarrow> settings (ConfigureLogger s) = s"
  by (simp add: ConfigureLogger_def)

text \<open>
  In a dry run every step leaves the file system and the table of opened files as they
  are, and only looks.
\<close>

lemma dry_run_frame:
  assumes dry: "DryRun flags"
  shows "fs (snd (NewRuntimeContext cdc w flags)) = fs w
         \<and> files (snd (NewRuntimeContext cdc w flags)) = files w
         \<and> onlyReads w (snd (NewRuntimeContext cdc w flags))"
proof (rule NewRuntimeContext_rel
         [where R = "\<lambda>a b. fs b = fs a \<and> files b = files a \<and> onlyReads a b"])
  show "fs c = fs a \<and> files c = files a \<and> onlyReads a c"
    if "fs b = fs a \<and> files b = files a \<and> onlyReads a b"
      and "fs c = fs b \<and> files c = files b \<and> onlyReads b c" for a b c
    using that by (auto intro: onlyReads_trans)
  show "fs (snd (LoadOrInitConfig cdc u paths flags)) = fs u
        \<and> files (snd (LoadOrInitConfig cdc u paths flags)) = files u
        \<and> onlyReads u (snd (LoadOrInitConfig cdc u paths flags))" for u paths
    by (simp add: LoadOrInitConfig_fs ensureConfigFile_dry(1) [OF dry] LoadOrInitConfig_files
          LoadOrInitConfig_dry_trace [OF dry])
  show "fs (Logger_Debug (ConfigureLogger ls) msg u) = fs u
        \<and> files (Logger_Debug (ConfigureLogger ls) msg u) = files u
        \<and> onlyReads u (Logger_Debug (ConfigureLogger ls) msg u)"
    if "fst (ResolveLogSettings v flags cfg) = Inr ls" for u v cfg ls msg
  proof -
    from ResolveLogSettings_plain(2) [of cfg flags v] dry that
    have p: "Writers ls = [Stderr] \<or> Writers ls = [Discard]" by auto
    then have "settings (ConfigureLogger ls) = ls" by (auto simp: ConfigureLogger_settings)
    with p have "wr = Stderr \<or> wr = Discard" if "wr \<in> set (Writers (settings (ConfigureLogger ls)))" for wr
      using that by auto
    from Logger_log_plain [OF this] show ?thesis
      unfolding Logger_Debug_def by (simp add: Logger_log_files onlyReads_same_trace)
  qed
qed (simp_all add: DiscoverPaths_fields EnsureDirectories_dry [OF dry]
       ResolveLogSettings_plain(1) [OF disjI2 [OF dry]])

text \<open>The worlds between the steps, under a relation every step respects.\<close>

lemma stages_rel:
  assumes r: "\<And>w. R w w" and t: "\<And>a b c. R a b \<Longrightarrow> R b c \<Longrightarrow> R a c"
    and s1: "\<And>w. R w (snd (DiscoverPaths w appName (ConfigPath flags)))"
    and s2: "\<And>w paths. R w (snd (LoadOrInitConfig cdc w paths flags))"
    and s3: "\<And>w eff. R w (snd (EnsureDirectories w eff flags))"
    and s4: "\<And>w cfg. R w (snd (ResolveLogSettings w flags cfg))"
  shows "R w (afterDiscover w flags)" "R w (afterLoad cdc w flags paths)"
    "R w (afterDirs cdc w flags paths eff)" "R w (afterLog cdc w flags paths eff cfg)"
proof -
  show 1: "R w (afterDiscover w flags)" unfolding afterDiscover_def by (rule s1)
  show 2: "R w (afterLoad cdc w flags paths)" for paths
    unfolding afterLoad_def by (rule t [OF 1 s2])
  show 3: "R w (afterDirs cdc w flags paths eff)" for paths eff
    unfolding afterDirs_def by (rule t [OF 2 s3])
  show "R w (afterLog cdc w flags paths eff cfg)"
    unfolding afterLog_def by (rule t [OF 3 s4])
qed

lemma stages_sameProcess:
  "sameProcess w (afterDiscover w flags)" "sameProcess w (afterLoad cdc w flags paths)"
  "sameProcess w (afterDirs cdc w flags paths eff)"
  "sameProcess w (afterLog cdc w flags paths eff cfg)"
proof -
  note st = stages_rel [where R = sameProcess and flags = flags and cdc = cdc,
      OF sameProcess_refl sameProcess_trans DiscoverPaths_fields(4) LoadOrInitConfig_sameProcess
         EnsureDirectories_sameProcess ResolveLogSettings_sameProcess]
  show "sameProcess w (afterDiscover w flags)" by (rule st(1))
  show "sameProcess w (afterLoad cdc w flags paths)" by (rule st(2))
  show "sameProcess w (afterDirs cdc w flags paths eff)" by (rule st(3))
  show "sameProcess w (afterLog cdc w flags paths eff cfg)" by (rule st(4))
qed

lemma afterLoad_sameProcess: "sameProcess w (afterLoad cdc w flags paths)"
  by (rule stages_sameProcess)

lemma DiscoverPaths_extends: "extends w (snd (DiscoverPaths w app override))"
  by (simp add: extends_def DiscoverPaths_fields)

lemma stages_extends:
  "extends w (afterDiscover w flags)" "extends w (afterLoad cdc w flags paths)"
  "extends w (afterDirs cdc w flags paths eff)"
  "extends w (afterLog cdc w flags paths eff cfg)"
proof -
  note st = stages_rel [where R = extends and flags = flags and cdc = cdc,
      OF extends_refl extends_trans DiscoverPaths_extends LoadOrInitConfig_extends
         addsDirs_extends [OF EnsureDirectories_addsDirs] ResolveLogSettings_extends]
  show "extends w (afterDiscover w flags)" by (rule st(1))
  show "extends w (afterLoad cdc w flags paths)" by (rule st(2))
  show "extends w (afterDirs cdc w flags paths eff)" by (rule st(3))
  show "extends w (afterLog cdc w flags paths eff cfg)" by (rule st(4))
qed

text \<open>More on what \<^verbatim>\<open>Stat\<close> sees, and on loading with the file in place.\<close>

lemma statNode_fs_at:
  assumes "fs w' (fileOf w p) = fs w (fileOf w p)" and "sameNames w w'"
    and "statNode w p = Inr n"
  shows "statNode w' p = Inr n"
  using assms(1,3)
  unfolding statNode_Inr sameNames_fileOf [OF assms(2)] sameNames_denied [OF assms(2)]
  by (auto split: if_splits)

lemma ensureConfigFile_fst_dry:
  assumes "DryRun flags"
  shows "fst (ensureConfigFile w paths flags) =
           (case statNode w (ConfigFile paths) of
              Inr n \<Rightarrow> None
            | Inl e \<Rightarrow> if e = ENOENT then None else Some (ErrStatConfig e))"
  using assms unfolding ensureConfigFile_def Let_def
  by (simp add: os_IsNotExist_def split: sum.split)

lemma ensureConfigFile_dry_stat:
  assumes "DryRun flags"
  shows "statNode (snd (ensureConfigFile w paths flags)) p = statNode w p"
  by (rule statNode_cong [OF ensureConfigFile_dry(1) [OF assms]
        sameProcess_names [OF ensureConfigFile_sameProcess]])

text \<open>
  A load that is not a dry run and succeeds has read a regular file: the one that was
  there, or the one it wrote.
\<close>

lemma LoadOrInitConfig_read_file:
  assumes ok: "fst (LoadOrInitConfig cdc w paths flags) = Inr cfg" and nd: "\<not> DryRun flags"
  shows "\<exists>body. statNode (snd (ensureConfigFile w paths flags)) (ConfigFile paths)
                  = Inr (RegFile body)
               \<and> decodeOutcome cdc w paths flags
                     (readOutcome cdc (configuredViper paths defaultConfig) (Inr (RegFile body)))
                   = Inr cfg"
proof -
  let ?u = "snd (ensureConfigFile w paths flags)"
  let ?v = "configuredViper paths defaultConfig"
  from ok have e: "fst (ensureConfigFile w paths flags) = None"
    unfolding LoadOrInitConfig_fst by (cases "fst (ensureConfigFile w paths flags)") simp_all
  with ok have dec: "decodeOutcome cdc w paths flags
      (readOutcome cdc ?v (statNode ?u (ConfigFile paths))) = Inr cfg"
    unfolding LoadOrInitConfig_fst by simp
  from ensureConfigFile_ok [OF e nd] obtain n where n: "statNode ?u (ConfigFile paths) = Inr n"
    by blast
  then have ne: "ConfigFile paths \<noteq> []" by (auto simp: statNode_def)
  show ?thesis
  proof (cases n)
    case Dir
    with n ne have "readOutcome cdc ?v (statNode ?u (ConfigFile paths)) = Inl (ReadError EISDIR)"
      unfolding readOutcome_def by (simp add: configuredViper_fields)
    with dec nd show ?thesis
      unfolding decodeOutcome_def by (simp add: isNotFound_def)
  next
    case (RegFile body)
    with n dec show ?thesis by simp
  qed
qed

text \<open>With the file in place, or in a dry run, loading only reads.\<close>

lemma LoadOrInitConfig_reads:
  assumes "DryRun flags \<or> (\<exists>n. statNode w (ConfigFile paths) = Inr n)"
  shows "fs (snd (LoadOrInitConfig cdc w paths flags)) = fs w"
    and "onlyReads w (snd (LoadOrInitConfig cdc w paths flags))"
proof -
  show "fs (snd (LoadOrInitConfig cdc w paths flags)) = fs w"
  proof (cases "DryRun flags")
    case True
    then show ?thesis by (simp add: LoadOrInitConfig_fs ensureConfigFile_dry(1))
  next
    case False
    with assms obtain n where "statNode w (ConfigFile paths) = Inr n" by blast
    from LoadOrInitConfig_present(2) [OF this] show ?thesis by simp
  qed
  show "onlyReads w (snd (LoadOrInitConfig cdc w paths flags))"
  proof (cases "DryRun flags")
    case True
    then show ?thesis by (rule LoadOrInitConfig_dry_trace)
  next
    case False
    with assms obtain n where "statNode w (ConfigFile paths) = Inr n" by blast
    from LoadOrInitConfig_present(2) [OF this] show ?thesis
      by (simp add: onlyReads_traced)
  qed
qed

text \<open>
  Loading gives the same in two worlds of one process in which \<^verbatim>\<open>Stat\<close> says the same
  about the configuration file, when that file is there or the run is a dry run.
\<close>

lemma LoadOrInitConfig_fst_cong:
  assumes sp: "sameProcess w w'"
    and st: "statNode w' (ConfigFile paths) = statNode w (ConfigFile paths)"
    and c: "DryRun flags \<or> (\<exists>n. statNode w (ConfigFile paths) = Inr n)"
  shows "fst (LoadOrInitConfig cdc w' paths flags) = fst (LoadOrInitConfig cdc w paths flags)"
proof (cases "DryRun flags")
  case True
  show ?thesis
    unfolding LoadOrInitConfig_fst ensureConfigFile_fst_dry [OF True]
      ensureConfigFile_dry_stat [OF True] st decodeOutcome_cong [OF sp]
    by (rule refl)
next
  case False
  with c obtain n where n: "statNode w (ConfigFile paths) = Inr n" by blast
  with st have n': "statNode w' (ConfigFile paths) = Inr n" by simp
  show ?thesis
    unfolding LoadOrInitConfig_present(1) [OF n] LoadOrInitConfig_present(1) [OF n']
    by (rule decodeOutcome_cong [OF sp])
qed

lemma ResolveLogSettings_opens:
  assumes "fst (os_OpenFile w (LoggingConfig.File (Logging cfg))) = Inr h"
  shows "\<exists>s. fst (ResolveLogSettings w flags cfg) = Inr s"
  using assms unfolding ResolveLogSettings_def Let_def by simp

lemma DiscoverPaths_ConfigFile:
  assumes "fst (DiscoverPaths w app override) = Inr paths"
  shows "fst (resolveConfigFile w app override) = Inr (ConfigFile paths)"
  using assms unfolding DiscoverPaths_fst
  by (auto split: sum.splits)

lemma resolveConfigFile_override:
  assumes "expandPath w override = Inr p" and "fst (resolveConfigFile w app override) = Inr cf"
    and "override \<noteq> []" and "statNode w p \<noteq> Inr Dir"
  shows "cf = p"
  using assms unfolding resolveConfigFile_def
  by (auto split: sum.splits node.splits)

text \<open>The log settings are refused only when the log file cannot be opened.\<close>

lemma ResolveLogSettings_Inl:
  assumes "fst (ResolveLogSettings w flags cfg) = Inl e"
  shows "LoggingConfig.File (Logging cfg) \<noteq> [] \<and> \<not> DryRun flags
         \<and> (\<exists>en. fst (os_OpenFile w (LoggingConfig.File (Logging cfg))) = Inl en
                  \<and> e = ErrOpenLogFile (LoggingConfig.File (Logging cfg)) en)"
proof (cases "LoggingConfig.File (Logging cfg) \<noteq> [] \<and> \<not> DryRun flags")
  case True
  with assms show ?thesis
    unfolding ResolveLogSettings_def Let_def
    by (cases "fst (os_OpenFile w (LoggingConfig.File (Logging cfg)))") simp_all
next
  case False
  with assms show ?thesis unfolding ResolveLogSettings_def Let_def by auto
qed

text \<open>The settings of the configured instance.\<close>

lemma EnvPrefix_nonempty: "EnvPrefix \<noteq> []"
  by code_simp

lemma envName_timeout:
  assumes "envPrefix v = EnvPrefix"
  shows "Replacer_Replace CHR ''.'' ''__'' (mergeWithEnvPrefix v ''runtime.timeout'')
           = ''GO_CLI_RUNTIME__TIMEOUT''"
proof -
  have c: "Replacer_Replace CHR ''.'' ''__'' (strings_ToUpper (EnvPrefix @ ''_'' @ ''runtime.timeout''))
     = ''GO_CLI_RUNTIME__TIMEOUT''"
    by code_simp
  show ?thesis unfolding mergeWithEnvPrefix_def assms
    by (simp only: EnvPrefix_nonempty c simp_thms if_True)
qed

lemma lower_keys:
  "strings_ToLower ''runtime.fail_fast'' = ''runtime.fail_fast''"
  "strings_ToLower ''runtime.timeout'' = ''runtime.timeout''"
  "strings_ToLower ''logging.level'' = ''logging.level''"
  "strings_ToLower ''profile'' = ''profile''"
  by code_simp+

lemma configuredViper_default_timeout:
  "defaults (configuredViper paths cfg) ''runtime.timeout'' = Some (VInt 60)"
  by (simp add: configuredViper_def SetDefault_def AutomaticEnv_def SetEnvKeyReplacer_def
      SetEnvPrefix_def SetConfigType_def SetConfigFile_def viper_New_def lower_keys)

lemma timeout_setting:
  assumes v: "v = configuredViper paths cfg0 \<or> v = (configuredViper paths cfg0)\<lparr>config := s\<rparr>"
    and s: "config v ''runtime.timeout'' = None"
    and e: "os_Getenv w ''GO_CLI_RUNTIME__TIMEOUT'' = []"
  shows "viper_setting v w ''runtime.timeout'' = Some (VInt 60)"
proof -
  from v have d: "defaults v ''runtime.timeout'' = Some (VInt 60)"
    and a: "automaticEnvApplied v" and p: "envPrefix v = EnvPrefix"
    and r: "envKeyReplacer v = Some (CHR ''.'', ''__'')"
    by (auto simp: configuredViper_default_timeout configuredViper_fields)
  from e have "getEnv v w (mergeWithEnvPrefix v ''runtime.timeout'') = None"
    unfolding getEnv_def r
    by (simp add: envName_timeout [OF p] os_LookupEnv_def os_Getenv_def split: option.splits)
  with d a s show ?thesis
    unfolding viper_setting_def viper_isKey_def viper_find_def by simp
qed

subsection \<open>Log level resolution\<close>

lemma char_of_plus32:
  assumes "(of_char x :: nat) \<le> 90"
  shows "(char_of ((of_char x :: nat) + 32) = y) = ((of_char y :: nat) = of_char x + 32)"
proof -
  have "(of_char x + 32 :: nat) mod 256 = of_char x + 32" using assms by simp
  then have "take_bit 8 (of_char x + 32 :: nat) = of_char x + 32" by (simp add: take_bit_eq_mod)
  then show ?thesis unfolding char_of_eq_iff by auto
qed

lemma toLowerByte_eq_iff: "isLowerAZ y \<Longrightarrow> (toLowerByte x = y) = sameLetter x y"
  unfolding toLowerByte_def sameLetter_def isLowerAZ_def isUpperAZ_def asciiRange_def
  by (auto simp: char_of_plus32)

lemma ToLower_eq_iff:
  "list_all isLowerAZ t \<Longrightarrow> (strings_ToLower s = t) = equalIgnoringCase s t"
proof (induction s arbitrary: t)
  case Nil
  then show ?case by (auto simp: strings_ToLower_def equalIgnoringCase_def)
next
  case (Cons c cs)
  show ?case
  proof (cases t)
    case Nil
    then show ?thesis by (simp add: strings_ToLower_def equalIgnoringCase_def)
  next
    case (Cons y ys)
    with Cons.prems have y: "isLowerAZ y" and ys: "list_all isLowerAZ ys" by simp_all
    from Cons.IH [OF ys] have "(map toLowerByte cs = ys) = list_all2 sameLetter cs ys"
      by (simp add: strings_ToLower_def equalIgnoringCase_def)
    with toLowerByte_eq_iff [OF y] Cons show ?thesis
      by (simp add: strings_ToLower_def equalIgnoringCase_def)
  qed
qed

lemma lower_names:
  "list_all isLowerAZ ''error''" "list_all isLowerAZ ''warn''" "list_all isLowerAZ ''info''"
  "list_all isLowerAZ ''debug''" "list_all isLowerAZ ''trace''"
  by (simp_all add: isLowerAZ_def asciiRange_def)

lemma parseLevel_spec: "parseLevel v = spec_configuredLevel v"
  unfolding parseLevel_def spec_configuredLevel_def Let_def
  by (simp add: ToLower_eq_iff [OF lower_names(1), symmetric] ToLower_eq_iff [OF lower_names(2), symmetric]
      ToLower_eq_iff [OF lower_names(3), symmetric] ToLower_eq_iff [OF lower_names(4), symmetric]
      ToLower_eq_iff [OF lower_names(5), symmetric])

lemma resolved_level:
  assumes "fst (ResolveLogSettings w flags cfg) = Inr s"
  shows "LogSettings.Level s =
     (if Trace flags then LevelTrace
      else if Debug flags then LevelDebug
      else if Verbose flags \<ge> 2 then LevelTrace
      else if Verbose flags = 1 then LevelDebug
      else if Quiet flags \<and> levelValue (parseLevel (LoggingConfig.Level (Logging cfg))) > levelValue LevelError
        then LevelError
      else parseLevel (LoggingConfig.Level (Logging cfg)))"
proof (cases "LoggingConfig.File (Logging cfg) \<noteq> [] \<and> \<not> DryRun flags")
  case True
  with assms show ?thesis
    unfolding ResolveLogSettings_def Let_def by (auto split: sum.splits)
next
  case False
  with assms show ?thesis
    unfolding ResolveLogSettings_def Let_def by auto
qed

text \<open>
  C1. For all flags and every configuration, \<^verbatim>\<open>ResolveLogSettings\<close> returns settings
  unless there is a log file to open, the run is no dry run and opening it fails, in
  which case it returns that error; and the level of the settings it returns follows
  the precedence of the specification: the trace flag gives trace; else the debug flag
  gives debug; else a verbosity count of two or more gives trace; else a count of one
  gives debug; else quiet clamps the configured level to at most error; else the level
  is the configured one, read ignoring case, with \<open>info\<close> for an unknown name. The
  witness evaluates the code at each step of the precedence, among them quiet with a
  configured \<open>debug\<close> (error) and the same with the trace flag (trace).
\<close>

theorem C1_level_precedence:
  "(case fst (ResolveLogSettings w flags cfg) of
      Inr s \<Rightarrow> LogSettings.Level s = spec_effectiveLevel flags cfg
    | Inl e \<Rightarrow>
        LoggingConfig.File (Logging cfg) \<noteq> [] \<and> \<not> DryRun flags
        \<and> (\<exists>en. fst (os_OpenFile w (LoggingConfig.File (Logging cfg))) = Inl en
                 \<and> e = ErrOpenLogFile (LoggingConfig.File (Logging cfg)) en))"
proof (cases "fst (ResolveLogSettings w flags cfg)")
  case (Inl e)
  from ResolveLogSettings_Inl [OF Inl] Inl show ?thesis by simp
next
  case (Inr s)
  have "LogSettings.Level s = spec_effectiveLevel flags cfg"
    unfolding resolved_level [OF Inr] spec_effectiveLevel_def parseLevel_spec
    by (cases "spec_configuredLevel (LoggingConfig.Level (Logging cfg))")
       (simp_all add: spec_clampToError_def)
  with Inr show ?thesis by simp
qed

theorem C1_level_precedence_witness:
  "map (\<lambda>flags. map_sum id LogSettings.Level
                    (fst (ResolveLogSettings linuxWorld flags debugLevelConfig)))
     [quietFlags\<lparr>Trace := True\<rparr>, quietFlags\<lparr>Debug := True\<rparr>, quietFlags\<lparr>Verbose := 2\<rparr>,
      quietFlags\<lparr>Verbose := 1\<rparr>, quietFlags, noFlags]
     = [Inr LevelTrace, Inr LevelDebug, Inr LevelTrace, Inr LevelDebug, Inr LevelError,
        Inr LevelDebug]
   \<and> map (\<lambda>flags. spec_effectiveLevel flags debugLevelConfig)
     [quietFlags\<lparr>Trace := True\<rparr>, quietFlags\<lparr>Debug := True\<rparr>, quietFlags\<lparr>Verbose := 2\<rparr>,
      quietFlags\<lparr>Verbose := 1\<rparr>, quietFlags, noFlags]
     = [LevelTrace, LevelDebug, LevelTrace, LevelDebug, LevelError, LevelDebug]
   \<and> map_sum id LogSettings.Level
       (fst (ResolveLogSettings (withConfig profileOnlyText) quietFlags
              (debugLevelConfig\<lparr>Logging := (Logging debugLevelConfig)\<lparr>LoggingConfig.File := ''/home/u/app.log''\<rparr>\<rparr>)))
     = Inr LevelError
   \<and> fst (ResolveLogSettings linuxWorld quietFlags
              (debugLevelConfig\<lparr>Logging := (Logging debugLevelConfig)\<lparr>LoggingConfig.File := ''/nowhere/app.log''\<rparr>\<rparr>))
     = Inl (ErrOpenLogFile ''/nowhere/app.log'' ENOENT)"
proof -
  have h: "fst (ResolveLogSettings linuxWorld quietFlags debugLevelConfig)
     = Inr \<lparr>LogSettings.Level = LevelError, LogSettings.Diagnostics = False, Colorize = True,
            Writers = [Discard], FileHandle = None\<rparr>"
    by code_simp
  from C1_level_precedence [where w = linuxWorld and flags = quietFlags and cfg = debugLevelConfig] h
  have "spec_effectiveLevel quietFlags debugLevelConfig = LevelError" by simp
  moreover have "map (\<lambda>flags. map_sum id LogSettings.Level
                    (fst (ResolveLogSettings linuxWorld flags debugLevelConfig)))
     [quietFlags\<lparr>Trace := True\<rparr>, quietFlags\<lparr>Debug := True\<rparr>, quietFlags\<lparr>Verbose := 2\<rparr>,
      quietFlags\<lparr>Verbose := 1\<rparr>, quietFlags, noFlags]
     = [Inr LevelTrace, Inr LevelDebug, Inr LevelTrace, Inr LevelDebug, Inr LevelError,
        Inr LevelDebug]"
    by code_simp
  moreover have "map (\<lambda>flags. spec_effectiveLevel flags debugLevelConfig)
     [quietFlags\<lparr>Trace := True\<rparr>, quietFlags\<lparr>Debug := True\<rparr>, quietFlags\<lparr>Verbose := 2\<rparr>,
      quietFlags\<lparr>Verbose := 1\<rparr>, noFlags]
     = [LevelTrace, LevelDebug, LevelTrace, LevelDebug, LevelDebug]"
    by code_simp
  moreover have "map_sum id LogSettings.Level
       (fst (ResolveLogSettings (withConfig profileOnlyText) quietFlags
              (debugLevelConfig\<lparr>Logging := (Logging debugLevelConfig)\<lparr>LoggingConfig.File := ''/home/u/app.log''\<rparr>\<rparr>)))
     = Inr LevelError"
    by code_simp
  moreover have "fst (ResolveLogSettings linuxWorld quietFlags
              (debugLevelConfig\<lparr>Logging := (Logging debugLevelConfig)\<lparr>LoggingConfig.File := ''/nowhere/app.log''\<rparr>\<rparr>))
     = Inl (ErrOpenLogFile ''/nowhere/app.log'' ENOENT)"
    by code_simp
  ultimately show ?thesis by simp
qed

subsection \<open>Color policy\<close>

lemma resolved_colorize:
  assumes "fst (ResolveLogSettings w flags cfg) = Inr s"
  shows "Colorize s = shouldColorize w (if NoColor flags then ''never'' else Color flags)"
proof (cases "LoggingConfig.File (Logging cfg) \<noteq> [] \<and> \<not> DryRun flags")
  case True
  with assms show ?thesis
    unfolding ResolveLogSettings_def Let_def by (auto split: sum.splits)
next
  case False
  with assms show ?thesis
    unfolding ResolveLogSettings_def Let_def by auto
qed

text \<open>
  C8 fails as stated, in two ways. With quiet set the only sink is the discard target,
  yet under the policy \<open>auto\<close> the settings ask for color when standard error is a
  terminal. And with standard error redirected to the null device, which is no
  interactive terminal, \<open>auto\<close> still asks for color: the test the code makes is
  whether standard error is a character device.
\<close>

theorem C8_quiet_auto_colorizes:
  "fst (ResolveLogSettings linuxWorld quietFlags defaultConfig)
     = Inr \<lparr>LogSettings.Level = LevelError, LogSettings.Diagnostics = False, Colorize = True,
            Writers = [Discard], FileHandle = None\<rparr>
   \<and> Color quietFlags = ''auto''
   \<and> spec_colorize linuxWorld quietFlags [Discard] = False
   \<and> fst (ResolveLogSettings nullStderrWorld noFlags defaultConfig)
     = Inr \<lparr>LogSettings.Level = LevelInfo, LogSettings.Diagnostics = False, Colorize = True,
            Writers = [Stderr], FileHandle = None\<rparr>
   \<and> Color noFlags = ''auto''
   \<and> spec_colorize nullStderrWorld noFlags [Stderr] = False"
  by code_simp

lemma isTerminal_char_device:
  "isTerminal f = (f = Attached Terminal \<or> f = Attached OtherCharDevice)"
proof (cases f)
  case (Attached a)
  then show ?thesis by (cases a) (simp_all add: isTerminal_def File_Stat_def)
qed (simp_all add: isTerminal_def File_Stat_def)

text \<open>
  C8, amended. \<^verbatim>\<open>ResolveLogSettings\<close> returns settings unless the log file cannot be
  opened, and in the settings it returns: \<open>noColor\<close> forces no color; else \<open>always\<close>
  colorizes and \<open>never\<close> does not; else (\<open>auto\<close>, or any other value) the output is
  colorized exactly when standard error is a character device, be it a terminal or
  another one such as the null device, whatever the sinks are, also under quiet.
\<close>

theorem C8_color_policy:
  "(case fst (ResolveLogSettings w flags cfg) of
      Inr s \<Rightarrow>
        Colorize s =
          (if NoColor flags then False
           else if Color flags = ''always'' then True
           else if Color flags = ''never'' then False
           else (osStderr w = Attached Terminal \<or> osStderr w = Attached OtherCharDevice))
    | Inl e \<Rightarrow>
        LoggingConfig.File (Logging cfg) \<noteq> [] \<and> \<not> DryRun flags
        \<and> (\<exists>en. fst (os_OpenFile w (LoggingConfig.File (Logging cfg))) = Inl en
                 \<and> e = ErrOpenLogFile (LoggingConfig.File (Logging cfg)) en))"
proof (cases "fst (ResolveLogSettings w flags cfg)")
  case (Inl e)
  from ResolveLogSettings_Inl [OF Inl] Inl show ?thesis by simp
next
  case (Inr s)
  have "Colorize s =
          (if NoColor flags then False
           else if Color flags = ''always'' then True
           else if Color flags = ''never'' then False
           else (osStderr w = Attached Terminal \<or> osStderr w = Attached OtherCharDevice))"
    unfolding resolved_colorize [OF Inr] shouldColorize_def isTerminal_char_device by simp
  with Inr show ?thesis by simp
qed

theorem C8_color_policy_witness:
  "map (\<lambda>(w, flags). map_sum id Colorize (fst (ResolveLogSettings w flags defaultConfig)))
     [(linuxWorld, noFlags\<lparr>Color := ''always'', NoColor := True\<rparr>),
      (linuxWorld\<lparr>osStderr := Attached NotCharDevice\<rparr>, noFlags\<lparr>Color := ''always''\<rparr>),
      (linuxWorld, noFlags\<lparr>Color := ''never''\<rparr>),
      (linuxWorld, noFlags),
      (nullStderrWorld, quietFlags),
      (linuxWorld\<lparr>osStderr := Attached NotCharDevice\<rparr>, noFlags),
      (linuxWorld\<lparr>osStderr := ClosedFile\<rparr>, noFlags),
      (linuxWorld\<lparr>osStderr := NilFile\<rparr>, noFlags)]
     = [Inr False, Inr True, Inr False, Inr True, Inr True, Inr False, Inr False, Inr False]
   \<and> osStderr nullStderrWorld = Attached OtherCharDevice"
proof -
  have a: "fst (ResolveLogSettings nullStderrWorld quietFlags defaultConfig)
     = Inr \<lparr>LogSettings.Level = LevelError, LogSettings.Diagnostics = False, Colorize = True,
            Writers = [Discard], FileHandle = None\<rparr>"
    by code_simp
  have f: "\<not> NoColor quietFlags \<and> Color quietFlags = ''auto''" by code_simp
  from C8_color_policy [where w = nullStderrWorld and flags = quietFlags and cfg = defaultConfig] a f
  have "osStderr nullStderrWorld = Attached Terminal
        \<or> osStderr nullStderrWorld = Attached OtherCharDevice"
    by simp
  moreover have "osStderr nullStderrWorld \<noteq> Attached Terminal" by code_simp
  moreover have "map (\<lambda>(w, flags). map_sum id Colorize (fst (ResolveLogSettings w flags defaultConfig)))
     [(linuxWorld, noFlags\<lparr>Color := ''always'', NoColor := True\<rparr>),
      (linuxWorld\<lparr>osStderr := Attached NotCharDevice\<rparr>, noFlags\<lparr>Color := ''always''\<rparr>),
      (linuxWorld, noFlags\<lparr>Color := ''never''\<rparr>),
      (linuxWorld, noFlags),
      (nullStderrWorld, quietFlags),
      (linuxWorld\<lparr>osStderr := Attached NotCharDevice\<rparr>, noFlags),
      (linuxWorld\<lparr>osStderr := ClosedFile\<rparr>, noFlags),
      (linuxWorld\<lparr>osStderr := NilFile\<rparr>, noFlags)]
     = [Inr False, Inr True, Inr False, Inr True, Inr True, Inr False, Inr False, Inr False]"
    by code_simp
  ultimately show ?thesis by simp
qed

subsection \<open>The logger's sinks\<close>

text \<open>
  C10. A logger built by \<^verbatim>\<open>ConfigureLogger\<close> has the sinks of its settings, or the
  discard sink alone when the settings have none; so its list of sinks is never empty,
  and a message logged through a logger built from settings without sinks goes to the
  discard sink and changes nothing.
\<close>

theorem C10_logger_has_sink:
  "Writers (settings (ConfigureLogger s)) = (if Writers s = [] then [Discard] else Writers s)
   \<and> Writers (settings (ConfigureLogger s)) \<noteq> []
   \<and> Logger_log (ConfigureLogger (s\<lparr>Writers := []\<rparr>)) level body w = w"
  by (simp add: ConfigureLogger_def Logger_log_def io_WriteString_def)

subsection \<open>Conflicting output formats\<close>

text \<open>
  C9. With both the JSON and the YAML flag set, the persistent pre-run hook, run on a
  command whose context carries no runtime context yet, returns the conflicting-format
  error and hands the context and the world back as it got them: the check comes before
  path discovery, loading, the directories and the log file, so no path was looked at,
  no file read or written, and nothing was added to the trace of calls. The witness runs
  the hook on the background context, and also shows that with one of the two flags
  alone the hook does reach the file system.
\<close>

theorem C9_conflict_before_io:
  assumes "JSON commonFlags" and "YAML commonFlags" and "FromContext ctx = None"
  shows "PersistentPreRunE cdc w ctx commonFlags timeoutFlag parallelFlag
           = (Some ErrConflictingOutputFormat, ctx, w)"
  using assms
  unfolding PersistentPreRunE_def Let_def
  by (auto split: option.splits)

theorem C9_conflict_before_io_witness:
  "JSON (noFlags\<lparr>JSON := True, YAML := True\<rparr>) \<and> YAML (noFlags\<lparr>JSON := True, YAML := True\<rparr>)
   \<and> FromContext CtxBackground = None
   \<and> PersistentPreRunE exampleCodec linuxWorld CtxBackground
         (noFlags\<lparr>JSON := True, YAML := True\<rparr>) None None
       = (Some ErrConflictingOutputFormat, CtxBackground, linuxWorld)
   \<and> trace (snd (snd (PersistentPreRunE exampleCodec linuxWorld CtxBackground
                         (noFlags\<lparr>JSON := True, YAML := True\<rparr>) None None))) = []
   \<and> trace (snd (snd (PersistentPreRunE exampleCodec linuxWorld CtxBackground
                         (noFlags\<lparr>JSON := True\<rparr>) None None))) \<noteq> []"
proof -
  have j: "JSON (noFlags\<lparr>JSON := True, YAML := True\<rparr>)" and y: "YAML (noFlags\<lparr>JSON := True, YAML := True\<rparr>)"
    by (simp_all add: noFlags_def)
  have c: "FromContext CtxBackground = None" by (simp add: FromContext_def)
  have t: "trace linuxWorld = []" by (simp add: linuxWorld_def)
  have n: "trace (snd (snd (PersistentPreRunE exampleCodec linuxWorld CtxBackground
                         (noFlags\<lparr>JSON := True\<rparr>) None None))) \<noteq> []"
    by code_simp
  from C9_conflict_before_io [OF j y c, of exampleCodec linuxWorld None None] j y c t n
  show ?thesis by simp
qed

subsection \<open>Closing a runtime context\<close>

lemma File_Close_twice:
  assumes "fst (File_Close w h) = None"
  shows "File_Close (snd (File_Close w h)) h = (Some ErrClosed, snd (File_Close w h))"
proof -
  from assms have o: "isOpen w h" unfolding File_Close_def by (auto split: if_splits)
  then have "\<not> isOpen (snd (File_Close w h)) h"
    unfolding File_Close_def isOpen_def traced_def by simp
  then show ?thesis unfolding File_Close_def [of "snd (File_Close w h)"] by simp
qed

text \<open>
  C7 fails as stated: the context that the bootstrap builds for a configuration with a
  log file closes without error once, and the second \<^verbatim>\<open>Close\<close> returns the
  already-closed error of the file.
\<close>

theorem C7_second_close_fails:
  "(case NewRuntimeContext exampleCodec (withConfig logFileText) noFlags of
      (Inr rtx, w1) \<Rightarrow>
         FileHandle (settings (Logger rtx)) = Some 0
         \<and> fst (RuntimeContext_Close (Some rtx) w1) = None
         \<and> fst (RuntimeContext_Close (Some rtx) (snd (RuntimeContext_Close (Some rtx) w1)))
             = Some ErrClosed
    | (Inl e, w1) \<Rightarrow> False)"
  by code_simp

text \<open>
  C7, amended. \<^verbatim>\<open>Close\<close> on a nil context returns no error and changes nothing. After
  a \<^verbatim>\<open>Close\<close> that returned no error, a second one changes nothing; it returns no
  error when the context holds no log-file handle and the already-closed error of the
  file when it holds one.
\<close>

theorem C7_close_again:
  "RuntimeContext_Close None w = (None, w)
   \<and> (fst (RuntimeContext_Close (Some rtx) w) = None \<longrightarrow>
        RuntimeContext_Close (Some rtx) (snd (RuntimeContext_Close (Some rtx) w))
          = (if FileHandle (settings (Logger rtx)) = None then None else Some ErrClosed,
             snd (RuntimeContext_Close (Some rtx) w)))"
  unfolding RuntimeContext_Close_def Logger_Close_def
  by (auto split: option.splits simp: File_Close_twice)

theorem C7_close_again_witness:
  "(case NewRuntimeContext exampleCodec (withConfig logFileText) noFlags of
      (Inr rtx, w1) \<Rightarrow>
         fst (RuntimeContext_Close (Some rtx) w1) = None
         \<and> RuntimeContext_Close (Some rtx) (snd (RuntimeContext_Close (Some rtx) w1))
             = (Some ErrClosed, snd (RuntimeContext_Close (Some rtx) w1))
    | (Inl e, w1) \<Rightarrow> False)"
proof -
  have "(case NewRuntimeContext exampleCodec (withConfig logFileText) noFlags of
      (Inr rtx, w1) \<Rightarrow>
         FileHandle (settings (Logger rtx)) = Some 0
         \<and> fst (RuntimeContext_Close (Some rtx) w1) = None
    | (Inl e, w1) \<Rightarrow> False)"
    by code_simp
  then obtain rtx w1
    where r: "NewRuntimeContext exampleCodec (withConfig logFileText) noFlags = (Inr rtx, w1)"
      and h: "FileHandle (settings (Logger rtx)) = Some 0"
      and c: "fst (RuntimeContext_Close (Some rtx) w1) = None"
    by (auto split: prod.splits sum.splits)
  from C7_close_again [of w1 rtx] c h
  have "RuntimeContext_Close (Some rtx) (snd (RuntimeContext_Close (Some rtx) w1))
             = (Some ErrClosed, snd (RuntimeContext_Close (Some rtx) w1))" by simp
  with r c show ?thesis by simp
qed

subsection \<open>Path overrides\<close>

text \<open>
  C6 fails as stated: the result is not a function of the paths and the configuration
  document alone. With the same two arguments, two processes that differ in one
  environment variable get different data directories.
\<close>

theorem C6_depends_on_environment:
  "ApplyPathOverrides storeWorldA examplePaths storeConfig
     = Inr (examplePaths\<lparr>AppPaths.DataDir := ''/mnt/a/data''\<rparr>)
   \<and> ApplyPathOverrides storeWorldB examplePaths storeConfig
     = Inr (examplePaths\<lparr>AppPaths.DataDir := ''/mnt/b/data''\<rparr>)
   \<and> ApplyPathOverrides storeWorldA examplePaths storeConfig
       \<noteq> ApplyPathOverrides storeWorldB examplePaths storeConfig"
  by code_simp

text \<open>
  C6, amended. \<^verbatim>\<open>ApplyPathOverrides\<close> changes nothing outside its result, and its
  result is a function of the paths, the configuration document and the process
  environment that the path expander reads (environment variables and the target
  system; nothing of the file system). On success the configuration file is the one
  passed in, and for each of the data and state directory the field is the expansion of
  the document's value when that is non-empty and the value passed in otherwise. An
  error is the expansion error of a non-empty value of the document.
\<close>

theorem C6_apply_path_overrides:
  "(ApplyPathOverrides w paths cfg = Inr p \<longrightarrow>
       ConfigFile p = ConfigFile paths
     \<and> (if PathsConfig.DataDir (AppConfig.Paths cfg) = []
           then AppPaths.DataDir p = AppPaths.DataDir paths
           else expandPath w (PathsConfig.DataDir (AppConfig.Paths cfg)) = Inr (AppPaths.DataDir p))
     \<and> (if PathsConfig.StateDir (AppConfig.Paths cfg) = []
           then AppPaths.StateDir p = AppPaths.StateDir paths
           else expandPath w (PathsConfig.StateDir (AppConfig.Paths cfg)) = Inr (AppPaths.StateDir p)))
   \<and> (ApplyPathOverrides w paths cfg = Inl e \<longrightarrow>
         (PathsConfig.DataDir (AppConfig.Paths cfg) \<noteq> []
            \<and> expandPath w (PathsConfig.DataDir (AppConfig.Paths cfg)) = Inl e)
       \<or> (PathsConfig.StateDir (AppConfig.Paths cfg) \<noteq> []
            \<and> expandPath w (PathsConfig.StateDir (AppConfig.Paths cfg)) = Inl e))
   \<and> (env w = env w' \<and> goos w = goos w' \<longrightarrow>
         ApplyPathOverrides w paths cfg = ApplyPathOverrides w' paths cfg)"
  using apo_Inr [of w paths cfg p] apo_Inl [of w paths cfg e] apo_cong [of w w' paths cfg]
  by blast

theorem C6_apply_path_overrides_witness:
  "ApplyPathOverrides storeWorldA examplePaths storeConfig = Inr storePaths
   \<and> (ConfigFile storePaths = ConfigFile examplePaths
     \<and> (if PathsConfig.DataDir (AppConfig.Paths storeConfig) = []
           then AppPaths.DataDir storePaths = AppPaths.DataDir examplePaths
           else expandPath storeWorldA (PathsConfig.DataDir (AppConfig.Paths storeConfig))
                  = Inr (AppPaths.DataDir storePaths))
     \<and> (if PathsConfig.StateDir (AppConfig.Paths storeConfig) = []
           then AppPaths.StateDir storePaths = AppPaths.StateDir examplePaths
           else expandPath storeWorldA (PathsConfig.StateDir (AppConfig.Paths storeConfig))
                  = Inr (AppPaths.StateDir storePaths)))
   \<and> ApplyPathOverrides homelessWorld examplePaths tildeStateConfig = Inl (ErrExpand ''~/state'')
   \<and> expandPath homelessWorld (PathsConfig.StateDir (AppConfig.Paths tildeStateConfig))
       = Inl (ErrExpand ''~/state'')
   \<and> ApplyPathOverrides storeWorldA examplePaths storeConfig
       = ApplyPathOverrides (withConfig profileOnlyText\<lparr>env := env storeWorldA\<rparr>) examplePaths storeConfig"
proof -
  have a: "ApplyPathOverrides storeWorldA examplePaths storeConfig = Inr storePaths"
    by code_simp
  have b: "ApplyPathOverrides homelessWorld examplePaths tildeStateConfig = Inl (ErrExpand ''~/state'')"
    by code_simp
  have d: "PathsConfig.DataDir (AppConfig.Paths tildeStateConfig) = []"
    by (simp add: tildeStateConfig_def)
  have e: "env storeWorldA = env (withConfig profileOnlyText\<lparr>env := env storeWorldA\<rparr>)
           \<and> goos storeWorldA = goos (withConfig profileOnlyText\<lparr>env := env storeWorldA\<rparr>)"
    by (simp add: storeWorldA_def withConfig_def)
  note t = C6_apply_path_overrides [of storeWorldA examplePaths storeConfig storePaths
      "ErrExpand []" "withConfig profileOnlyText\<lparr>env := env storeWorldA\<rparr>"]
  note u = C6_apply_path_overrides [of homelessWorld examplePaths tildeStateConfig storePaths
      "ErrExpand ''~/state''" homelessWorld]
  from t a have p1: "ConfigFile storePaths = ConfigFile examplePaths
     \<and> (if PathsConfig.DataDir (AppConfig.Paths storeConfig) = []
           then AppPaths.DataDir storePaths = AppPaths.DataDir examplePaths
           else expandPath storeWorldA (PathsConfig.DataDir (AppConfig.Paths storeConfig))
                  = Inr (AppPaths.DataDir storePaths))
     \<and> (if PathsConfig.StateDir (AppConfig.Paths storeConfig) = []
           then AppPaths.StateDir storePaths = AppPaths.StateDir examplePaths
           else expandPath storeWorldA (PathsConfig.StateDir (AppConfig.Paths storeConfig))
                  = Inr (AppPaths.StateDir storePaths))"
    by (rule mp [OF conjunct1])
  from t e have p3: "ApplyPathOverrides storeWorldA examplePaths storeConfig
       = ApplyPathOverrides (withConfig profileOnlyText\<lparr>env := env storeWorldA\<rparr>) examplePaths storeConfig"
    by (rule mp [OF conjunct2 [OF conjunct2]])
  from u b have "(PathsConfig.DataDir (AppConfig.Paths tildeStateConfig) \<noteq> []
            \<and> expandPath homelessWorld (PathsConfig.DataDir (AppConfig.Paths tildeStateConfig)) = Inl (ErrExpand ''~/state''))
       \<or> (PathsConfig.StateDir (AppConfig.Paths tildeStateConfig) \<noteq> []
            \<and> expandPath homelessWorld (PathsConfig.StateDir (AppConfig.Paths tildeStateConfig)) = Inl (ErrExpand ''~/state''))"
    by (rule mp [OF conjunct1 [OF conjunct2]])
  with d have p2: "expandPath homelessWorld (PathsConfig.StateDir (AppConfig.Paths tildeStateConfig))
       = Inl (ErrExpand ''~/state'')" by blast
  show ?thesis by (rule conjI [OF a conjI [OF p1 conjI [OF b conjI [OF p2 p3]]]])
qed

subsection \<open>Path expansion\<close>

lemma expandPath_examples:
  "expandPath linuxWorld ''~/logs/app.log'' = Inr ''/home/u/logs/app.log''
   \<and> expandPath linuxWorld ''$HOME/x'' = Inr ''/home/u/x''
   \<and> expandPath linuxWorld ''~'' = Inr ''/home/u''
   \<and> expandPath linuxWorld ''~bob/x'' = Inr ''~bob/x''
   \<and> expandPath w [] = Inr []"
proof -
  have "expandPath w [] = Inr []" by (simp add: expandPath_def)
  moreover have "expandPath linuxWorld ''~/logs/app.log'' = Inr ''/home/u/logs/app.log''
   \<and> expandPath linuxWorld ''$HOME/x'' = Inr ''/home/u/x''
   \<and> expandPath linuxWorld ''~'' = Inr ''/home/u''
   \<and> expandPath linuxWorld ''~bob/x'' = Inr ''~bob/x''" by code_simp
  ultimately show ?thesis by simp
qed

lemma HasPrefix_tilde_slash: "strings_HasPrefix r ''~/'' \<Longrightarrow> strings_HasPrefix r ''~''"
  unfolding strings_HasPrefix_def by (cases r) auto

lemma expandPath_agrees:
  assumes "os_UserHomeDir w \<noteq> None \<or> \<not> strings_HasPrefix (os_ExpandEnv w path) ''~''
           \<or> os_ExpandEnv w path = ''~'' \<or> strings_HasPrefix (os_ExpandEnv w path) ''~/''"
  shows "expandPath w path = spec_expandPath w path"
proof (cases "os_ExpandEnv w path = ''~'' \<or> strings_HasPrefix (os_ExpandEnv w path) ''~/''")
  case True
  then have "strings_HasPrefix (os_ExpandEnv w path) ''~''"
    using HasPrefix_tilde_slash by (auto simp: strings_HasPrefix_def)
  with True show ?thesis
    unfolding expandPath_def spec_expandPath_def Let_def by (auto split: option.splits)
next
  case False
  with assms show ?thesis
    unfolding expandPath_def spec_expandPath_def Let_def by (auto split: option.splits)
qed

text \<open>
  C5 at the input where the code leaves it: a process without a home directory expands
  \<open>~bob/x\<close>. The claim, and the comment in the code, leave a \<open>~user\<close> form
  untouched; the code looks the home directory up for every result that starts with a
  tilde and returns the error of the lookup before it reaches that branch.
\<close>

theorem C5_tilde_user_without_home:
  "expandPath homelessWorld ''~bob/x'' = Inl (ErrExpand ''~bob/x'')
   \<and> spec_expandPath homelessWorld ''~bob/x'' = Inr ''~bob/x''
   \<and> os_UserHomeDir homelessWorld = None"
  by code_simp

subsection \<open>The timeout after loading\<close>


lemma finishConfig_timeout:
  assumes "finishConfig w cfg = Inr cfg'"
  shows "RuntimeConfig.TimeoutSeconds (Runtime cfg') =
           (case RuntimeConfig.TimeoutSeconds (Runtime cfg) of None \<Rightarrow> Some 60 | Some t \<Rightarrow> Some t)"
proof (cases "LoggingConfig.File (Logging cfg) \<noteq> []")
  case True
  with assms show ?thesis
    unfolding finishConfig_def by (cases "expandPath w (LoggingConfig.File (Logging cfg))") (auto split: option.splits)
next
  case False
  with assms show ?thesis
    unfolding finishConfig_def by (auto split: option.splits)
qed

lemma Unmarshal_timeout:
  assumes "Unmarshal cdc v w cfg = Inr cfg'"
  shows "ptrField (decode_int cdc) (viper_setting v w ''runtime.timeout'')
           (RuntimeConfig.TimeoutSeconds (Runtime cfg))
         = Some (RuntimeConfig.TimeoutSeconds (Runtime cfg'))"
  using assms unfolding Unmarshal_def
  by (auto split: option.splits)

lemma decoded_default_timeout:
  assumes u: "Unmarshal cdc v1 w2 defaultConfig = Inr cfg1"
    and f: "finishConfig w2 cfg1 = Inr cfg"
    and t: "viper_setting v1 w2 ''runtime.timeout'' = Some (VInt 60)"
  shows "RuntimeConfig.TimeoutSeconds (Runtime cfg) = Some 60"
proof -
  from Unmarshal_timeout [OF u] t have "RuntimeConfig.TimeoutSeconds (Runtime cfg1) = Some 60"
    by (simp add: ptrField_def decode_int_def)
  with finishConfig_timeout [OF f] show ?thesis by simp
qed

text \<open>What a successful decoding went through.\<close>

lemma decodeOutcome_Inr:
  assumes "decodeOutcome cdc w paths flags r = Inr cfg"
  shows "\<exists>v1 cfg1. (r = Inr v1 \<or> (v1 = configuredViper paths defaultConfig \<and> (\<exists>err. r = Inl err)))
            \<and> Unmarshal cdc v1 w defaultConfig = Inr cfg1 \<and> finishConfig w cfg1 = Inr cfg"
proof (cases r)
  case (Inr v1)
  with assms show ?thesis
    unfolding decodeOutcome_def by (cases "Unmarshal cdc v1 w defaultConfig") auto
next
  case (Inl err)
  let ?v = "configuredViper paths defaultConfig"
  from assms Inl have "\<not> (\<not> isNotFound err \<and> \<not> (DryRun flags \<and> viper_IsNotExist err))"
    unfolding decodeOutcome_def
    by (cases "\<not> isNotFound err \<and> \<not> (DryRun flags \<and> viper_IsNotExist err)") simp_all
  with assms Inl show ?thesis
    unfolding decodeOutcome_def by (cases "Unmarshal cdc ?v w defaultConfig") auto
qed

lemma LoadOrInitConfig_decoded:
  assumes "fst (LoadOrInitConfig cdc w paths flags) = Inr cfg"
  shows "fst (ensureConfigFile w paths flags) = None"
    and "decodeOutcome cdc w paths flags
           (readOutcome cdc (configuredViper paths defaultConfig)
              (statNode (snd (ensureConfigFile w paths flags)) (ConfigFile paths))) = Inr cfg"
  using assms unfolding LoadOrInitConfig_fst
  by (cases "fst (ensureConfigFile w paths flags)"; simp)+

lemma timeout_when_absent:
  assumes ok: "fst (LoadOrInitConfig cdc w paths flags) = Inr cfg"
    and absent: "timeoutAbsentFromFile cdc w (ConfigFile paths)
                 \<or> (DryRun flags \<and> statNode w (ConfigFile paths) = Inl ENOENT)"
    and noenv: "os_Getenv w ''GO_CLI_RUNTIME__TIMEOUT'' = []"
  shows "RuntimeConfig.TimeoutSeconds (Runtime cfg) = Some 60"
proof -
  let ?cf = "ConfigFile paths"
  let ?v = "configuredViper paths defaultConfig"
  let ?w1 = "snd (ensureConfigFile w paths flags)"
  have st: "statNode ?w1 ?cf = statNode w ?cf"
  proof (cases "DryRun flags")
    case True
    show ?thesis
      by (rule statNode_cong [OF ensureConfigFile_dry(1) [OF True]
               sameProcess_names [OF ensureConfigFile_sameProcess]])
  next
    case False
    with absent obtain n where "statNode w ?cf = Inr n"
      unfolding timeoutAbsentFromFile_def by (cases "statNode w ?cf") auto
    from ensureConfigFile_present [OF this] show ?thesis by simp
  qed
  from LoadOrInitConfig_decoded(2) [OF ok]
  have dec: "decodeOutcome cdc w paths flags (readOutcome cdc ?v (statNode w ?cf)) = Inr cfg"
    unfolding st .
  from decodeOutcome_Inr [OF dec] obtain v1 cfg1 where
    rd: "readOutcome cdc ?v (statNode w ?cf) = Inr v1
         \<or> (v1 = ?v \<and> (\<exists>err. readOutcome cdc ?v (statNode w ?cf) = Inl err))"
    and u: "Unmarshal cdc v1 w defaultConfig = Inr cfg1"
    and f: "finishConfig w cfg1 = Inr cfg"
    by blast
  have "viper_setting v1 w ''runtime.timeout'' = Some (VInt 60)"
  proof (cases "timeoutAbsentFromFile cdc w ?cf")
    case True
    then obtain body s where n: "statNode w ?cf = Inr (RegFile body)"
      and p: "toml_parse cdc body = Some s" and k: "s ''runtime.timeout'' = None"
      unfolding timeoutAbsentFromFile_def by (auto split: sum.splits node.splits option.splits)
    from n have ne: "?cf \<noteq> []" by (auto simp: statNode_def)
    from n p ne have "readOutcome cdc ?v (statNode w ?cf) = Inr (?v\<lparr>config := s\<rparr>)"
      unfolding readOutcome_def by (simp add: configuredViper_fields)
    with rd have v1: "v1 = ?v\<lparr>config := s\<rparr>" by auto
    show ?thesis
      by (rule timeout_setting [where s = s and paths = paths and ?cfg0.0 = defaultConfig])
         (simp_all add: v1 k noenv)
  next
    case False
    with absent have d: "DryRun flags" and n: "statNode w ?cf = Inl ENOENT" by auto
    from n have "\<exists>err. readOutcome cdc ?v (statNode w ?cf) = Inl err"
      unfolding readOutcome_def by simp
    with rd have v1: "v1 = ?v" by auto
    show ?thesis
      by (rule timeout_setting [where s = Map.empty and paths = paths and ?cfg0.0 = defaultConfig])
         (simp_all add: v1 configuredViper_fields noenv)
  qed
  with u f show ?thesis by (rule decoded_default_timeout)
qed

text \<open>
  C2, as the code has it. A configuration that \<^verbatim>\<open>LoadOrInitConfig\<close> returns has its
  timeout set. When the file does not mention \<open>runtime.timeout\<close> (or, in a dry run,
  there is no file) and the environment does not set \<^verbatim>\<open>GO_CLI_RUNTIME__TIMEOUT\<close>,
  the timeout is 60, the number the generated file carries as well.
\<close>

theorem C2_timeout_default:
  assumes "fst (LoadOrInitConfig cdc w paths flags) = Inr cfg"
  shows "RuntimeConfig.TimeoutSeconds (Runtime cfg) \<noteq> None
     \<and> ((timeoutAbsentFromFile cdc w (ConfigFile paths)
           \<or> (DryRun flags \<and> statNode w (ConfigFile paths) = Inl ENOENT))
          \<and> os_Getenv w ''GO_CLI_RUNTIME__TIMEOUT'' = []
         \<longrightarrow> RuntimeConfig.TimeoutSeconds (Runtime cfg) = Some 60)
     \<and> ''timeout = 60'' \<in> set defaultConfigLines"
proof -
  from decodeOutcome_Inr [OF LoadOrInitConfig_decoded(2) [OF assms]]
  obtain cfg1 where "finishConfig w cfg1 = Inr cfg" by blast
  from finishConfig_timeout [OF this] have "RuntimeConfig.TimeoutSeconds (Runtime cfg) \<noteq> None"
    by (simp split: option.splits)
  moreover have "''timeout = 60'' \<in> set defaultConfigLines"
    by (simp add: defaultConfigLines_def)
  ultimately show ?thesis using timeout_when_absent [OF assms] by blast
qed

text \<open>
  C2 as it is stated fails where the environment sets the timeout: the file says nothing
  about it and the loaded value is 30.
\<close>

theorem C2_environment_overrides_default:
  "fst (LoadOrInitConfig exampleCodec timeoutEnvWorld examplePaths noFlags)
     = Inr (defaultConfig\<lparr>Profile := ''dev'',
              Runtime := \<lparr>RuntimeConfig.Parallelism = None, RuntimeConfig.TimeoutSeconds = Some 30,
                           FailFast = True\<rparr>\<rparr>)
   \<and> timeoutAbsentFromFile exampleCodec timeoutEnvWorld (ConfigFile examplePaths)"
  by code_simp

theorem C2_timeout_default_witness:
  "fst (LoadOrInitConfig exampleCodec (withConfig profileOnlyText) examplePaths noFlags)
     = Inr (defaultConfig\<lparr>Profile := ''dev''\<rparr>)
   \<and> timeoutAbsentFromFile exampleCodec (withConfig profileOnlyText) (ConfigFile examplePaths)
   \<and> os_Getenv (withConfig profileOnlyText) ''GO_CLI_RUNTIME__TIMEOUT'' = []
   \<and> RuntimeConfig.TimeoutSeconds (Runtime (defaultConfig\<lparr>Profile := ''dev''\<rparr>)) = Some 60"
proof -
  have a: "fst (LoadOrInitConfig exampleCodec (withConfig profileOnlyText) examplePaths noFlags)
     = Inr (defaultConfig\<lparr>Profile := ''dev''\<rparr>)"
    by code_simp
  have b: "timeoutAbsentFromFile exampleCodec (withConfig profileOnlyText) (ConfigFile examplePaths)"
    by code_simp
  have c: "os_Getenv (withConfig profileOnlyText) ''GO_CLI_RUNTIME__TIMEOUT'' = []"
    by code_simp
  from C2_timeout_default [OF a] b c
  have "RuntimeConfig.TimeoutSeconds (Runtime (defaultConfig\<lparr>Profile := ''dev''\<rparr>)) = Some 60"
    by blast
  with a b c show ?thesis by blast
qed

subsection \<open>A dry run creates nothing\<close>

text \<open>The values of a dry run, with the configuration file in place.\<close>

lemma decodeOutcome_dry:
  assumes "decodeOutcome cdc w paths (flags\<lparr>DryRun := False\<rparr>) r = Inr cfg"
  shows "decodeOutcome cdc w paths flags r = Inr cfg"
proof (cases r)
  case (Inr v1)
  with assms show ?thesis unfolding decodeOutcome_def by simp
next
  case (Inl err)
  with assms have "isNotFound err"
    unfolding decodeOutcome_def by (cases "isNotFound err") simp_all
  with assms Inl show ?thesis unfolding decodeOutcome_def by simp
qed

lemma dry_run_values:
  assumes dry: "DryRun flags"
    and present: "configFilePresent w flags"
    and run: "fst (NewRuntimeContext cdc w (flags\<lparr>DryRun := False\<rparr>)) = Inr rtx'"
  shows "\<exists>rtx. fst (NewRuntimeContext cdc w flags) = Inr rtx
               \<and> RuntimeContext.Paths rtx = RuntimeContext.Paths rtx'
               \<and> Config rtx = Config rtx'"
proof (rule NewRuntimeContext_InrE [OF run])
  let ?nd = "flags\<lparr>DryRun := False\<rparr>"
  fix paths cfg eff ls
  assume d: "fst (DiscoverPaths w appName (ConfigPath ?nd)) = Inr paths"
    and l: "fst (LoadOrInitConfig cdc (afterDiscover w ?nd) paths ?nd) = Inr cfg"
    and a: "ApplyPathOverrides (afterLoad cdc w ?nd paths) paths cfg = Inr eff"
    and rtx': "rtx' = \<lparr>Common = ?nd, RuntimeContext.Paths = eff, Config = cfg,
                  Logger = ConfigureLogger ls, LogSettings = ls\<rparr>"
  from d have 1: "fst (DiscoverPaths w appName (ConfigPath flags)) = Inr paths" by simp
  have ad: "afterDiscover w ?nd = afterDiscover w flags" by (simp add: afterDiscover_def)
  from present 1 obtain n where "statNode w (ConfigFile paths) = Inr n"
    unfolding configFilePresent_def by (auto split: sum.splits)
  then have n: "statNode (afterDiscover w flags) (ConfigFile paths) = Inr n"
    by (simp add: afterDiscover_def)
  from l have "decodeOutcome cdc (afterDiscover w flags) paths ?nd
                 (readOutcome cdc (configuredViper paths defaultConfig) (Inr n)) = Inr cfg"
    unfolding ad LoadOrInitConfig_present(1) [OF n] .
  then have 2: "fst (LoadOrInitConfig cdc (afterDiscover w flags) paths flags) = Inr cfg"
    unfolding LoadOrInitConfig_present(1) [OF n] by (rule decodeOutcome_dry)
  from a have "ApplyPathOverrides w paths cfg = Inr eff"
    unfolding ApplyPathOverrides_cong [OF afterLoad_sameProcess] .
  then have 3: "ApplyPathOverrides (afterLoad cdc w flags paths) paths cfg = Inr eff"
    unfolding ApplyPathOverrides_cong [OF afterLoad_sameProcess] .
  have 4: "fst (EnsureDirectories (afterLoad cdc w flags paths) eff flags) = None"
    by (simp add: EnsureDirectories_dry [OF dry])
  from ResolveLogSettings_plain(2) [OF disjI2 [OF dry]] obtain s where
    5: "fst (ResolveLogSettings (afterDirs cdc w flags paths eff) flags cfg) = Inr s"
    by blast
  show ?thesis
    unfolding NewRuntimeContext_InrI [OF 1 2 3 4 5] rtx' by simp
qed

lemma dry_run_no_handle:
  assumes dry: "DryRun flags" and run: "fst (NewRuntimeContext cdc w flags) = Inr rtx"
  shows "FileHandle (LogSettings rtx) = None"
proof (rule NewRuntimeContext_InrE [OF run])
  fix paths cfg eff ls
  assume 5: "fst (ResolveLogSettings (afterDirs cdc w flags paths eff) flags cfg) = Inr ls"
    and rtx: "rtx = \<lparr>Common = flags, RuntimeContext.Paths = eff, Config = cfg,
                  Logger = ConfigureLogger ls, LogSettings = ls\<rparr>"
  from ResolveLogSettings_plain(2) [OF disjI2 [OF dry], of "afterDirs cdc w flags paths eff" cfg] 5
  have "FileHandle ls = None" by auto
  then show ?thesis by (simp add: rtx)
qed

text \<open>The values of a dry run without a configuration file.\<close>

lemma envNames:
  assumes "envPrefix v = EnvPrefix"
  shows "Replacer_Replace CHR ''.'' ''__'' (mergeWithEnvPrefix v ''profile'') = ''GO_CLI_PROFILE''"
    and "Replacer_Replace CHR ''.'' ''__'' (mergeWithEnvPrefix v ''logging.level'')
           = ''GO_CLI_LOGGING__LEVEL''"
    and "Replacer_Replace CHR ''.'' ''__'' (mergeWithEnvPrefix v ''runtime.fail_fast'')
           = ''GO_CLI_RUNTIME__FAIL_FAST''"
proof -
  have c: "Replacer_Replace CHR ''.'' ''__'' (strings_ToUpper (EnvPrefix @ ''_'' @ ''profile''))
             = ''GO_CLI_PROFILE''"
    "Replacer_Replace CHR ''.'' ''__'' (strings_ToUpper (EnvPrefix @ ''_'' @ ''logging.level''))
             = ''GO_CLI_LOGGING__LEVEL''"
    "Replacer_Replace CHR ''.'' ''__'' (strings_ToUpper (EnvPrefix @ ''_'' @ ''runtime.fail_fast''))
             = ''GO_CLI_RUNTIME__FAIL_FAST''"
    by code_simp+
  show "Replacer_Replace CHR ''.'' ''__'' (mergeWithEnvPrefix v ''profile'') = ''GO_CLI_PROFILE''"
    unfolding mergeWithEnvPrefix_def assms
    by (simp only: EnvPrefix_nonempty c simp_thms if_True)
  show "Replacer_Replace CHR ''.'' ''__'' (mergeWithEnvPrefix v ''logging.level'')
           = ''GO_CLI_LOGGING__LEVEL''"
    unfolding mergeWithEnvPrefix_def assms
    by (simp only: EnvPrefix_nonempty c simp_thms if_True)
  show "Replacer_Replace CHR ''.'' ''__'' (mergeWithEnvPrefix v ''runtime.fail_fast'')
           = ''GO_CLI_RUNTIME__FAIL_FAST''"
    unfolding mergeWithEnvPrefix_def assms
    by (simp only: EnvPrefix_nonempty c simp_thms if_True)
qed

lemma configuredViper_defaults:
  "defaults (configuredViper paths defaultConfig) = templateSettings"
  by (rule ext)
     (simp add: configuredViper_def SetDefault_def AutomaticEnv_def SetEnvKeyReplacer_def
        SetEnvPrefix_def SetConfigType_def SetConfigFile_def viper_New_def lower_keys
        templateSettings_def defaultConfig_def)

text \<open>A setting that has a default and no environment variable is the default.\<close>

lemma default_setting:
  assumes d: "templateSettings key = Some x"
    and n: "Replacer_Replace CHR ''.'' ''__''
              (mergeWithEnvPrefix (configuredViper paths defaultConfig) key) = name"
    and e: "os_Getenv w name = []"
  shows "viper_setting (configuredViper paths defaultConfig) w key = Some x"
proof -
  let ?v = "configuredViper paths defaultConfig"
  from e have "getEnv ?v w (mergeWithEnvPrefix ?v key) = None"
    unfolding getEnv_def configuredViper_fields
    by (simp add: n os_LookupEnv_def os_Getenv_def split: option.splits)
  with d show ?thesis
    unfolding viper_setting_def viper_isKey_def viper_find_def
    by (simp add: configuredViper_fields configuredViper_defaults)
qed

lemma no_setting:
  assumes "templateSettings key = None"
  shows "viper_setting (configuredViper paths defaultConfig) w key = None"
  using assms unfolding viper_setting_def viper_isKey_def
  by (simp add: configuredViper_fields configuredViper_defaults)

lemma default_settings:
  assumes "noEnvOverrides w"
  shows "viper_setting (configuredViper paths defaultConfig) w ''profile'' = Some (VString ''default'')"
    and "viper_setting (configuredViper paths defaultConfig) w ''logging.level'' = Some (VString ''info'')"
    and "viper_setting (configuredViper paths defaultConfig) w ''runtime.timeout'' = Some (VInt 60)"
    and "viper_setting (configuredViper paths defaultConfig) w ''runtime.fail_fast'' = Some (VBool True)"
    and "viper_setting (configuredViper paths defaultConfig) w ''logging.file'' = None"
    and "viper_setting (configuredViper paths defaultConfig) w ''runtime.parallelism'' = None"
    and "viper_setting (configuredViper paths defaultConfig) w ''paths.data_dir'' = None"
    and "viper_setting (configuredViper paths defaultConfig) w ''paths.state_dir'' = None"
proof -
  let ?v = "configuredViper paths defaultConfig"
  have p: "envPrefix ?v = EnvPrefix" by (simp add: configuredViper_fields)
  from assms have e: "os_Getenv w ''GO_CLI_PROFILE'' = []" "os_Getenv w ''GO_CLI_LOGGING__LEVEL'' = []"
    "os_Getenv w ''GO_CLI_RUNTIME__TIMEOUT'' = []" "os_Getenv w ''GO_CLI_RUNTIME__FAIL_FAST'' = []"
    by (simp_all add: noEnvOverrides_def)
  show "viper_setting ?v w ''profile'' = Some (VString ''default'')"
    by (rule default_setting [OF _ envNames(1) [OF p] e(1)]) (simp add: templateSettings_def)
  show "viper_setting ?v w ''logging.level'' = Some (VString ''info'')"
    by (rule default_setting [OF _ envNames(2) [OF p] e(2)]) (simp add: templateSettings_def)
  show "viper_setting ?v w ''runtime.timeout'' = Some (VInt 60)"
    by (rule default_setting [OF _ envName_timeout [OF p] e(3)]) (simp add: templateSettings_def)
  show "viper_setting ?v w ''runtime.fail_fast'' = Some (VBool True)"
    by (rule default_setting [OF _ envNames(3) [OF p] e(4)]) (simp add: templateSettings_def)
  show "viper_setting ?v w ''logging.file'' = None"
    by (rule no_setting) (simp add: templateSettings_def)
  show "viper_setting ?v w ''runtime.parallelism'' = None"
    by (rule no_setting) (simp add: templateSettings_def)
  show "viper_setting ?v w ''paths.data_dir'' = None"
    by (rule no_setting) (simp add: templateSettings_def)
  show "viper_setting ?v w ''paths.state_dir'' = None"
    by (rule no_setting) (simp add: templateSettings_def)
qed

lemma Unmarshal_defaults:
  assumes "noEnvOverrides w"
  shows "Unmarshal cdc (configuredViper paths defaultConfig) w defaultConfig = Inr defaultConfig"
  unfolding Unmarshal_def default_settings [OF assms]
  by (simp add: field_def ptrField_def decode_string_def decode_int_def decode_bool_def
        defaultConfig_def)

lemma finishConfig_defaults: "finishConfig w defaultConfig = Inr defaultConfig"
  by (simp add: finishConfig_def defaultConfig_def)

text \<open>
  In a dry run without a configuration file the loader decodes the registered defaults
  and the environment.
\<close>

lemma LoadOrInitConfig_dry_missing:
  assumes dry: "DryRun flags" and m: "statNode w (ConfigFile paths) = Inl ENOENT"
  shows "fst (LoadOrInitConfig cdc w paths flags) =
           (case Unmarshal cdc (configuredViper paths defaultConfig) w defaultConfig of
              Inl e \<Rightarrow> Inl e
            | Inr cfg1 \<Rightarrow> finishConfig w cfg1)"
proof -
  let ?v = "configuredViper paths defaultConfig"
  have r: "readOutcome cdc ?v (Inl ENOENT) = Inl ConfigFileNotFoundError
           \<or> readOutcome cdc ?v (Inl ENOENT) = Inl (ReadError ENOENT)"
    unfolding readOutcome_def by simp
  have "decodeOutcome cdc w paths flags (readOutcome cdc ?v (Inl ENOENT)) =
           (case Unmarshal cdc ?v w defaultConfig of
              Inl e \<Rightarrow> Inl e
            | Inr cfg1 \<Rightarrow> finishConfig w cfg1)"
    using r dry unfolding decodeOutcome_def
    by (auto simp: isNotFound_def viper_IsNotExist_def os_IsNotExist_def)
  then show ?thesis
    unfolding LoadOrInitConfig_fst ensureConfigFile_fst_dry [OF dry]
      ensureConfigFile_dry_stat [OF dry] m
    by simp
qed

lemma ApplyPathOverrides_defaults: "ApplyPathOverrides w paths defaultConfig = Inr paths"
  by (simp add: ApplyPathOverrides_def defaultConfig_def)

lemma dry_run_missing:
  assumes dry: "DryRun flags"
    and d: "fst (DiscoverPaths w appName (ConfigPath flags)) = Inr paths"
    and m: "statNode w (ConfigFile paths) = Inl ENOENT"
    and l: "fst (LoadOrInitConfig cdc (afterDiscover w flags) paths flags) = Inr cfg"
    and a: "ApplyPathOverrides w paths cfg = Inr eff"
  shows "\<exists>rtx. fst (NewRuntimeContext cdc w flags) = Inr rtx
               \<and> RuntimeContext.Paths rtx = eff \<and> Config rtx = cfg
               \<and> Common rtx = flags"
proof -
  have 3: "ApplyPathOverrides (afterLoad cdc w flags paths) paths cfg = Inr eff"
    unfolding ApplyPathOverrides_cong [OF stages_sameProcess(2)] by (rule a)
  have 4: "fst (EnsureDirectories (afterLoad cdc w flags paths) eff flags) = None"
    by (simp add: EnsureDirectories_dry [OF dry])
  from ResolveLogSettings_plain(2) [OF disjI2 [OF dry]] obtain s where
    5: "fst (ResolveLogSettings (afterDirs cdc w flags paths eff) flags cfg) = Inr s"
    by blast
  show ?thesis unfolding NewRuntimeContext_InrI [OF d l 3 4 5] by simp
qed

text \<open>
  With nothing set through the environment that is the built-in configuration, on the
  paths discovered.
\<close>

lemma dry_run_missing_defaults:
  assumes dry: "DryRun flags" and miss: "configFileMissing w flags" and env: "noEnvOverrides w"
  shows "\<exists>rtx paths. fst (NewRuntimeContext cdc w flags) = Inr rtx
               \<and> fst (DiscoverPaths w appName (ConfigPath flags)) = Inr paths
               \<and> RuntimeContext.Paths rtx = paths \<and> Config rtx = defaultConfig"
proof -
  from miss obtain paths where d: "fst (DiscoverPaths w appName (ConfigPath flags)) = Inr paths"
    and m: "statNode w (ConfigFile paths) = Inl ENOENT"
    unfolding configFileMissing_def
    by (cases "fst (DiscoverPaths w appName (ConfigPath flags))") auto
  let ?w1 = "afterDiscover w flags"
  have m1: "statNode ?w1 (ConfigFile paths) = Inl ENOENT" using m by (simp add: afterDiscover_def)
  have e1: "noEnvOverrides ?w1"
    using env stages_sameProcess(1) [of w flags]
    by (simp add: noEnvOverrides_def os_Getenv_def sameProcess_def)
  have l: "fst (LoadOrInitConfig cdc ?w1 paths flags) = Inr defaultConfig"
    unfolding LoadOrInitConfig_dry_missing [OF dry m1] Unmarshal_defaults [OF e1]
    by (simp add: finishConfig_defaults)
  from dry_run_missing [OF dry d m l ApplyPathOverrides_defaults] d show ?thesis by blast
qed

text \<open>
  The run that is no dry run writes the generated document and reads it back; what it
  decodes is what the dry run decodes from the defaults.
\<close>

lemma template_setting:
  "viper_setting ((configuredViper paths defaultConfig)\<lparr>config := templateSettings\<rparr>) w key
     = viper_setting (configuredViper paths defaultConfig) w key"
proof -
  let ?v = "configuredViper paths defaultConfig"
  let ?u = "?v\<lparr>config := templateSettings\<rparr>"
  have m: "mergeWithEnvPrefix ?u key = mergeWithEnvPrefix ?v key"
    by (simp add: mergeWithEnvPrefix_def)
  have r: "envKeyReplacer ?u = envKeyReplacer ?v" by simp
  have g: "getEnv ?u w (mergeWithEnvPrefix ?u key) = getEnv ?v w (mergeWithEnvPrefix ?v key)"
    unfolding getEnv_def m r by (rule refl)
  have c: "config ?u key = templateSettings key" "defaults ?u key = templateSettings key"
    "config ?v key = None" "defaults ?v key = templateSettings key"
    "automaticEnvApplied ?u" "automaticEnvApplied ?v"
    by (simp_all add: configuredViper_fields configuredViper_defaults)
  show ?thesis
    unfolding viper_setting_def viper_isKey_def viper_find_def g c
    by (simp split: option.split)
qed

lemma Unmarshal_template:
  "Unmarshal cdc ((configuredViper paths defaultConfig)\<lparr>config := templateSettings\<rparr>) w cfg
     = Unmarshal cdc (configuredViper paths defaultConfig) w cfg"
  unfolding Unmarshal_def template_setting by (rule refl)

lemma LoadOrInitConfig_created:
  assumes nd: "\<not> DryRun flags" and m: "statNode w (ConfigFile paths) = Inl ENOENT"
    and rt: "readsTemplate cdc (ConfigFile paths)"
    and ok: "fst (LoadOrInitConfig cdc w paths flags) = Inr cfg"
  shows "(case Unmarshal cdc (configuredViper paths defaultConfig) w defaultConfig of
            Inl e \<Rightarrow> Inl e
          | Inr cfg1 \<Rightarrow> finishConfig w cfg1) = Inr cfg"
proof -
  let ?cf = "ConfigFile paths"
  let ?v = "configuredViper paths defaultConfig"
  let ?w0 = "traced (SysStat ?cf) w"
  let ?body = "defaultConfigHeader ?cf @ defaultConfigBody"
  have en: "ensureConfigFile w paths flags = writeDefaultConfig ?w0 ?cf"
    unfolding ensureConfigFile_def Let_def using nd m by (simp add: os_IsNotExist_def)
  from ok have e: "fst (writeDefaultConfig ?w0 ?cf) = None"
    unfolding LoadOrInitConfig_fst en by (cases "fst (writeDefaultConfig ?w0 ?cf)") simp_all
  from writeDefaultConfig_ok [OF e]
  have n: "statNode (snd (writeDefaultConfig ?w0 ?cf)) ?cf = Inr (RegFile ?body)" .
  then have ne: "?cf \<noteq> []" by (auto simp: statNode_def)
  from rt ne have r: "readOutcome cdc ?v (Inr (RegFile ?body)) = Inr (?v\<lparr>config := templateSettings\<rparr>)"
    unfolding readOutcome_def readsTemplate_def by (simp add: configuredViper_fields)
  from ok have "decodeOutcome cdc w paths flags (Inr (?v\<lparr>config := templateSettings\<rparr>)) = Inr cfg"
    unfolding LoadOrInitConfig_fst en e n r by simp
  then show ?thesis by (simp add: decodeOutcome_def Unmarshal_template)
qed

lemma dry_run_as_created:
  assumes dry: "DryRun flags" and miss: "configFileMissing w flags"
    and rg: "readsGenerated cdc w flags"
    and run: "fst (NewRuntimeContext cdc w (flags\<lparr>DryRun := False\<rparr>)) = Inr rtx'"
  shows "\<exists>rtx. fst (NewRuntimeContext cdc w flags) = Inr rtx
               \<and> RuntimeContext.Paths rtx = RuntimeContext.Paths rtx'
               \<and> Config rtx = Config rtx'"
proof (rule NewRuntimeContext_InrE [OF run])
  let ?nd = "flags\<lparr>DryRun := False\<rparr>"
  fix paths cfg eff ls
  assume d: "fst (DiscoverPaths w appName (ConfigPath ?nd)) = Inr paths"
    and l: "fst (LoadOrInitConfig cdc (afterDiscover w ?nd) paths ?nd) = Inr cfg"
    and a: "ApplyPathOverrides (afterLoad cdc w ?nd paths) paths cfg = Inr eff"
    and rtx': "rtx' = \<lparr>Common = ?nd, RuntimeContext.Paths = eff, Config = cfg,
                  Logger = ConfigureLogger ls, LogSettings = ls\<rparr>"
  from d have 1: "fst (DiscoverPaths w appName (ConfigPath flags)) = Inr paths" by simp
  have ad: "afterDiscover w ?nd = afterDiscover w flags" by (simp add: afterDiscover_def)
  let ?w1 = "afterDiscover w flags"
  from miss 1 have "statNode w (ConfigFile paths) = Inl ENOENT"
    unfolding configFileMissing_def by simp
  then have m1: "statNode ?w1 (ConfigFile paths) = Inl ENOENT" by (simp add: afterDiscover_def)
  from rg 1 have rt: "readsTemplate cdc (ConfigFile paths)" unfolding readsGenerated_def by simp
  have nd: "\<not> DryRun ?nd" by simp
  from l have l': "fst (LoadOrInitConfig cdc ?w1 paths ?nd) = Inr cfg" unfolding ad .
  have 2: "fst (LoadOrInitConfig cdc ?w1 paths flags) = Inr cfg"
    unfolding LoadOrInitConfig_dry_missing [OF dry m1]
    by (rule LoadOrInitConfig_created [OF nd m1 rt l'])
  from a have 3: "ApplyPathOverrides w paths cfg = Inr eff"
    unfolding ApplyPathOverrides_cong [OF stages_sameProcess(2)] .
  from miss 1 have m: "statNode w (ConfigFile paths) = Inl ENOENT"
    unfolding configFileMissing_def by simp
  from dry_run_missing [OF dry 1 m 2 3] show ?thesis unfolding rtx' by auto
qed

text \<open>
  C3. In a dry run the whole of \<^verbatim>\<open>NewRuntimeContext\<close> (path discovery, loading, the
  directories, the log settings, the first log line) leaves the file system and the
  table of opened files exactly as they were, and every call it makes is a \<^verbatim>\<open>Stat\<close> or
  a read: no configuration file is written, no directory made, no log file opened, and
  a context that is returned holds no log-file handle. When the configuration file is
  in place and the same invocation without the dry-run flag returns a context, the dry
  run returns one too, with the same effective paths and the same configuration. When
  the configuration file is missing, the same holds against the invocation without the
  flag, which writes the generated document and reads it back, for a codec that reads
  that document as what it says; and with nothing set through the environment the dry
  run returns the built-in configuration on the paths discovered.
\<close>

theorem C3_dry_run_creates_nothing:
  assumes "DryRun flags"
  shows "fs (snd (NewRuntimeContext cdc w flags)) = fs w
     \<and> files (snd (NewRuntimeContext cdc w flags)) = files w
     \<and> onlyReads w (snd (NewRuntimeContext cdc w flags))
     \<and> (\<forall>rtx. fst (NewRuntimeContext cdc w flags) = Inr rtx
            \<longrightarrow> FileHandle (LogSettings rtx) = None)
     \<and> (\<forall>rtx'. configFilePresent w flags
              \<and> fst (NewRuntimeContext cdc w (flags\<lparr>DryRun := False\<rparr>)) = Inr rtx'
            \<longrightarrow> (\<exists>rtx. fst (NewRuntimeContext cdc w flags) = Inr rtx
                   \<and> RuntimeContext.Paths rtx = RuntimeContext.Paths rtx'
                   \<and> Config rtx = Config rtx'))
     \<and> (\<forall>rtx'. configFileMissing w flags \<and> readsGenerated cdc w flags
              \<and> fst (NewRuntimeContext cdc w (flags\<lparr>DryRun := False\<rparr>)) = Inr rtx'
            \<longrightarrow> (\<exists>rtx. fst (NewRuntimeContext cdc w flags) = Inr rtx
                   \<and> RuntimeContext.Paths rtx = RuntimeContext.Paths rtx'
                   \<and> Config rtx = Config rtx'))
     \<and> (configFileMissing w flags \<and> noEnvOverrides w
            \<longrightarrow> (\<exists>rtx paths. fst (NewRuntimeContext cdc w flags) = Inr rtx
                   \<and> fst (DiscoverPaths w appName (ConfigPath flags)) = Inr paths
                   \<and> RuntimeContext.Paths rtx = paths \<and> Config rtx = defaultConfig))"
proof -
  note f = dry_run_frame [OF assms, of cdc w]
  have h: "\<forall>rtx. fst (NewRuntimeContext cdc w flags) = Inr rtx
            \<longrightarrow> FileHandle (LogSettings rtx) = None"
    using dry_run_no_handle [OF assms, of cdc w] by blast
  have p: "\<forall>rtx'. configFilePresent w flags
              \<and> fst (NewRuntimeContext cdc w (flags\<lparr>DryRun := False\<rparr>)) = Inr rtx'
            \<longrightarrow> (\<exists>rtx. fst (NewRuntimeContext cdc w flags) = Inr rtx
                   \<and> RuntimeContext.Paths rtx = RuntimeContext.Paths rtx'
                   \<and> Config rtx = Config rtx')"
    using dry_run_values [OF assms, of w cdc] by blast
  have m: "\<forall>rtx'. configFileMissing w flags \<and> readsGenerated cdc w flags
              \<and> fst (NewRuntimeContext cdc w (flags\<lparr>DryRun := False\<rparr>)) = Inr rtx'
            \<longrightarrow> (\<exists>rtx. fst (NewRuntimeContext cdc w flags) = Inr rtx
                   \<and> RuntimeContext.Paths rtx = RuntimeContext.Paths rtx'
                   \<and> Config rtx = Config rtx')"
    using dry_run_as_created [OF assms, of w cdc] by blast
  have d: "configFileMissing w flags \<and> noEnvOverrides w
            \<longrightarrow> (\<exists>rtx paths. fst (NewRuntimeContext cdc w flags) = Inr rtx
                   \<and> fst (DiscoverPaths w appName (ConfigPath flags)) = Inr paths
                   \<and> RuntimeContext.Paths rtx = paths \<and> Config rtx = defaultConfig)"
    using dry_run_missing_defaults [OF assms, of w cdc] by blast
  from f h p m d show ?thesis by (intro conjI) simp_all
qed

theorem C3_dry_run_creates_nothing_witness:
  "DryRun dryFlags
   \<and> configFilePresent (withConfig profileOnlyText) dryFlags
   \<and> (case fst (NewRuntimeContext exampleCodec (withConfig profileOnlyText)
                   (dryFlags\<lparr>DryRun := False\<rparr>)) of
          Inl e \<Rightarrow> False
        | Inr rtx' \<Rightarrow> RuntimeContext.Paths rtx' = examplePaths
                    \<and> Config rtx' = defaultConfig\<lparr>Profile := ''dev''\<rparr>)
   \<and> (case fst (NewRuntimeContext exampleCodec (withConfig profileOnlyText) dryFlags) of
          Inl e \<Rightarrow> False
        | Inr rtx \<Rightarrow> RuntimeContext.Paths rtx = examplePaths
                   \<and> Config rtx = defaultConfig\<lparr>Profile := ''dev''\<rparr>
                   \<and> FileHandle (LogSettings rtx) = None)
   \<and> fs (snd (NewRuntimeContext exampleCodec (withConfig profileOnlyText) dryFlags))
         ''/home/u/.local/share/go-cli'' = None
   \<and> fs (snd (NewRuntimeContext exampleCodec (withConfig profileOnlyText)
                  (dryFlags\<lparr>DryRun := False\<rparr>)))
         ''/home/u/.local/share/go-cli'' = Some Dir
   \<and> files (snd (NewRuntimeContext exampleCodec (withConfig profileOnlyText) dryFlags)) = []
   \<and> onlyReads (withConfig profileOnlyText)
         (snd (NewRuntimeContext exampleCodec (withConfig profileOnlyText) dryFlags))
   \<and> configFileMissing linuxWorld dryFlags \<and> noEnvOverrides linuxWorld
   \<and> readsGenerated exampleCodec linuxWorld dryFlags
   \<and> (case fst (NewRuntimeContext exampleCodec linuxWorld dryFlags) of
          Inl e \<Rightarrow> False
        | Inr rtx \<Rightarrow> RuntimeContext.Paths rtx = examplePaths \<and> Config rtx = defaultConfig
                   \<and> FileHandle (LogSettings rtx) = None)
   \<and> (case fst (NewRuntimeContext exampleCodec linuxWorld (dryFlags\<lparr>DryRun := False\<rparr>)) of
          Inl e \<Rightarrow> False
        | Inr rtx' \<Rightarrow> RuntimeContext.Paths rtx' = examplePaths \<and> Config rtx' = defaultConfig)
   \<and> fs (snd (NewRuntimeContext exampleCodec linuxWorld dryFlags)) configPath = None
   \<and> fs (snd (NewRuntimeContext exampleCodec linuxWorld (dryFlags\<lparr>DryRun := False\<rparr>))) configPath
       = Some (RegFile (defaultConfigHeader configPath @ defaultConfigBody))
   \<and> stderr (snd (NewRuntimeContext exampleCodec linuxWorld dryFlags))
       = [''dry-run: would create default config at '' @ configPath @ ''\<newline>'']"
proof -
  let ?w = "withConfig profileOnlyText"
  have d: "DryRun dryFlags" by code_simp
  have p: "configFilePresent ?w dryFlags" by code_simp
  have n: "(case fst (NewRuntimeContext exampleCodec ?w (dryFlags\<lparr>DryRun := False\<rparr>)) of
          Inl e \<Rightarrow> False
        | Inr rtx' \<Rightarrow> RuntimeContext.Paths rtx' = examplePaths
                    \<and> Config rtx' = defaultConfig\<lparr>Profile := ''dev''\<rparr>)"
    by code_simp
  have r: "(case fst (NewRuntimeContext exampleCodec ?w dryFlags) of
          Inl e \<Rightarrow> False
        | Inr rtx \<Rightarrow> RuntimeContext.Paths rtx = examplePaths
                   \<and> Config rtx = defaultConfig\<lparr>Profile := ''dev''\<rparr>
                   \<and> FileHandle (LogSettings rtx) = None)"
    by code_simp
  have m: "fs (snd (NewRuntimeContext exampleCodec ?w (dryFlags\<lparr>DryRun := False\<rparr>)))
         ''/home/u/.local/share/go-cli'' = Some Dir"
    by code_simp
  have f: "fs ?w ''/home/u/.local/share/go-cli'' = None" "files ?w = []"
    by code_simp+
  from C3_dry_run_creates_nothing [OF d, of exampleCodec ?w] f
  have one: "fs (snd (NewRuntimeContext exampleCodec ?w dryFlags))
         ''/home/u/.local/share/go-cli'' = None
   \<and> files (snd (NewRuntimeContext exampleCodec ?w dryFlags)) = []
   \<and> onlyReads ?w (snd (NewRuntimeContext exampleCodec ?w dryFlags))"
    by simp
  have cm: "configFileMissing linuxWorld dryFlags" by code_simp
  have ne: "noEnvOverrides linuxWorld" by code_simp
  have dp: "fst (DiscoverPaths linuxWorld appName (ConfigPath dryFlags)) = Inr examplePaths"
    by code_simp
  have tx: "defaultConfigHeader configPath @ defaultConfigBody \<noteq> profileOnlyText
        \<and> defaultConfigHeader configPath @ defaultConfigBody \<noteq> logFileText
        \<and> defaultConfigHeader configPath @ defaultConfigBody \<noteq> selfLogText
        \<and> defaultConfigHeader configPath @ defaultConfigBody \<noteq> workLogText"
    by code_simp
  have rg: "readsGenerated exampleCodec linuxWorld dryFlags"
    unfolding readsGenerated_def dp readsTemplate_def
    by (simp add: exampleCodec_def exampleToml_def examplePaths_def tx)
  have fl: "fs linuxWorld configPath = None" by code_simp
  from C3_dry_run_creates_nothing [OF d, of exampleCodec linuxWorld] cm ne dp
  have two: "case fst (NewRuntimeContext exampleCodec linuxWorld dryFlags) of
          Inl e \<Rightarrow> False
        | Inr rtx \<Rightarrow> RuntimeContext.Paths rtx = examplePaths \<and> Config rtx = defaultConfig
                   \<and> FileHandle (LogSettings rtx) = None"
    by auto
  from C3_dry_run_creates_nothing [OF d, of exampleCodec linuxWorld] fl
  have three: "fs (snd (NewRuntimeContext exampleCodec linuxWorld dryFlags)) configPath = None"
    by simp
  have four: "(case fst (NewRuntimeContext exampleCodec linuxWorld (dryFlags\<lparr>DryRun := False\<rparr>)) of
          Inl e \<Rightarrow> False
        | Inr rtx' \<Rightarrow> RuntimeContext.Paths rtx' = examplePaths \<and> Config rtx' = defaultConfig)"
    by code_simp
  have five: "fs (snd (NewRuntimeContext exampleCodec linuxWorld (dryFlags\<lparr>DryRun := False\<rparr>))) configPath
       = Some (RegFile (defaultConfigHeader configPath @ defaultConfigBody))"
    by code_simp
  have six: "stderr (snd (NewRuntimeContext exampleCodec linuxWorld dryFlags))
       = [''dry-run: would create default config at '' @ configPath @ ''\<newline>'']"
    by code_simp
  from d p n r m one cm ne rg two three four five six show ?thesis by simp
qed

subsection \<open>Running the bootstrap again\<close>

text \<open>
  The second run starts in the world the first one left. The first run went through the
  five steps with the results named in the assumptions, and the log file, if there is
  one, is not the configuration file: the two paths denote different files.
\<close>

lemma bootstrap_again:
  assumes d: "fst (DiscoverPaths w appName (ConfigPath flags)) = Inr paths"
    and l: "fst (LoadOrInitConfig cdc (afterDiscover w flags) paths flags) = Inr cfg"
    and a: "ApplyPathOverrides (afterLoad cdc w flags paths) paths cfg = Inr eff"
    and e: "fst (EnsureDirectories (afterLoad cdc w flags paths) eff flags) = None"
    and r: "fst (ResolveLogSettings (afterDirs cdc w flags paths eff) flags cfg) = Inr ls"
    and apart: "LoggingConfig.File (Logging cfg) = []
                \<or> fileOf w (LoggingConfig.File (Logging cfg)) \<noteq> fileOf w (ConfigFile paths)"
    and w': "w' = Logger_Debug (ConfigureLogger ls) (resolvedPathsMessage eff)
                    (afterLog cdc w flags paths eff cfg)"
  shows "fst (DiscoverPaths w' appName (ConfigPath flags)) = Inr paths"
    and "fst (LoadOrInitConfig cdc (afterDiscover w' flags) paths flags) = Inr cfg"
    and "ApplyPathOverrides (afterLoad cdc w' flags paths) paths cfg = Inr eff"
    and "fst (EnsureDirectories (afterLoad cdc w' flags paths) eff flags) = None"
    and "\<exists>ls'. fst (ResolveLogSettings (afterDirs cdc w' flags paths eff) flags cfg) = Inr ls'"
    and "fs (afterLoad cdc w' flags paths) = fs w'"
    and "onlyReads w' (afterLoad cdc w' flags paths)"
proof -
  let ?cf = "ConfigFile paths"
  let ?lf = "LoggingConfig.File (Logging cfg)"
  let ?w1 = "afterDiscover w flags"
  let ?u = "snd (ensureConfigFile ?w1 paths flags)"
  let ?w2 = "afterLoad cdc w flags paths"
  let ?w3 = "afterDirs cdc w flags paths eff"
  let ?w4 = "afterLog cdc w flags paths eff cfg"
  let ?lg = "ConfigureLogger ls"
  let ?v1 = "afterDiscover w' flags"
  let ?v2 = "afterLoad cdc w' flags paths"
  let ?v3 = "afterDirs cdc w' flags paths eff"
  let ?v = "configuredViper paths defaultConfig"

  have w'_eq: "w' = snd (NewRuntimeContext cdc w flags)"
    unfolding NewRuntimeContext_InrI [OF d l a e r] w' by simp
  have sp: "sameProcess w w'" unfolding w'_eq by (rule NewRuntimeContext_sameProcess)
  have kk: "keepsKinds w w'" unfolding w'_eq by (rule NewRuntimeContext_keepsKinds)
  have dn: "sameNames w w'" by (rule sameProcess_names [OF sp])
  have sp4: "sameProcess ?w4 w'"
    unfolding w' Logger_Debug_def by (rule Logger_log_sameProcess)
  have kk4: "keepsKinds ?w4 w'"
    unfolding w' Logger_Debug_def by (rule Logger_log_keepsKinds)
  have kk34: "keepsKinds ?w3 ?w4"
    unfolding afterLog_def by (rule extends_keepsKinds [OF ResolveLogSettings_extends])
  have sp34: "sameProcess ?w3 ?w4"
    unfolding afterLog_def by (rule ResolveLogSettings_sameProcess)
  have sp23: "sameProcess ?w2 ?w3"
    unfolding afterDirs_def by (rule EnsureDirectories_sameProcess)
  have sp1u: "sameProcess ?w1 ?u" by (rule ensureConfigFile_sameProcess)
  have sp12: "sameProcess ?w1 ?w2"
    unfolding afterLoad_def by (rule LoadOrInitConfig_sameProcess)
  have sp1v: "sameProcess ?w1 ?v1"
    by (rule sameProcess_trans [OF sameProcess_sym [OF stages_sameProcess(1)]
          sameProcess_trans [OF sp stages_sameProcess(1)]])
  have dryfs: "fs w' = fs w" if "DryRun flags"
    unfolding w'_eq using dry_run_frame [OF that] by simp
  have st1: "statNode ?v1 p = statNode w' p" for p by (simp add: afterDiscover_def)
  have st0: "statNode ?w1 p = statNode w p" for p by (simp add: afterDiscover_def)

  have cfst: "statNode w' ?cf = statNode ?u ?cf"
  proof (cases "DryRun flags")
    case True
    have "statNode w' ?cf = statNode w ?cf" by (rule statNode_cong [OF dryfs [OF True] dn])
    then show ?thesis unfolding ensureConfigFile_dry_stat [OF True] st0 .
  next
    case False
    from LoadOrInitConfig_read_file [OF l False] obtain body where
      n: "statNode ?u ?cf = Inr (RegFile body)" by blast
    have fs2: "fs ?w2 = fs ?u" unfolding afterLoad_def by (rule LoadOrInitConfig_fs)
    have dn2: "sameNames ?u ?w2"
      using sameProcess_names [OF sp1u] sameProcess_names [OF sp12] by (simp add: sameNames_def)
    have n2: "statNode ?w2 ?cf = Inr (RegFile body)"
      using statNode_cong [OF fs2 dn2] n by simp
    have ex24: "extends ?w2 ?w4"
      unfolding afterLog_def afterDirs_def
      by (rule extends_trans [OF addsDirs_extends [OF EnsureDirectories_addsDirs]
            ResolveLogSettings_extends])
    have dn24: "sameNames ?w2 ?w4"
      by (rule sameProcess_names [OF sameProcess_trans [OF sp23 sp34]])
    have n4: "statNode ?w4 ?cf = Inr (RegFile body)"
      by (rule statNode_extends [OF ex24 dn24 n2])
    have id4: "fileOf ?w4 p = fileOf w p" for p
      by (rule sameProcess_fileOf [OF stages_sameProcess(4)])
    have id3: "fileOf ?w3 p = fileOf w p" for p
      by (rule sameProcess_fileOf [OF stages_sameProcess(3)])
    have "fs w' (fileOf ?w4 ?cf) = fs ?w4 (fileOf ?w4 ?cf)"
      unfolding w' Logger_Debug_def
    proof (rule Logger_log_elsewhere)
      fix h
      assume m: "FileWriter h \<in> set (Writers (settings ?lg))"
      show "h < length (files ?w4) \<and> fileOf ?w4 ?cf \<noteq> fst (files ?w4 ! h)"
      proof (cases "?lf = []")
        case True
        from ResolveLogSettings_plain(2) [OF disjI1 [OF True], of ?w3 flags] r
        have "Writers ls = [Stderr] \<or> Writers ls = [Discard]" by auto
        with m show ?thesis by (auto simp: ConfigureLogger_settings)
      next
        case F2: False
        note rf = ResolveLogSettings_file [OF r F2 False]
        have w4: "?w4 = snd (os_OpenFile ?w3 ?lf)"
          unfolding afterLog_def ResolveLogSettings_snd using F2 False by simp
        from os_OpenFile_ok(2) [OF rf(1)]
        have fl: "files ?w4 = files ?w3 @ [(fileOf ?w3 ?lf, True)]" unfolding w4 .
        from rf(3) m have "h = length (files ?w3)"
          by (auto simp: ConfigureLogger_settings)
        with fl apart F2 show ?thesis by (simp add: nth_append id3 id4)
      qed
    qed
    then have "statNode w' ?cf = Inr (RegFile body)"
      by (rule statNode_fs_at [OF _ sameProcess_names [OF sp4] n4])
    with n show ?thesis by simp
  qed

  show 1: "fst (DiscoverPaths w' appName (ConfigPath flags)) = Inr paths"
  proof -
    have "fst (DiscoverPaths w' appName (ConfigPath flags))
            = fst (DiscoverPaths w appName (ConfigPath flags))"
    proof (rule DiscoverPaths_cong [OF sp])
      fix p
      assume x: "expandPath w (ConfigPath flags) = Inr p"
      show "(statNode w' p = Inr Dir) = (statNode w p = Inr Dir)"
      proof (cases "statNode w p = Inr Dir")
        case True
        with statNode_keeps_Dir [OF kk dn True] show ?thesis by simp
      next
        case False
        have "statNode w' p \<noteq> Inr Dir"
        proof (cases "DryRun flags")
          case True
          from statNode_cong [OF dryfs [OF True] dn] False show ?thesis by simp
        next
          case nd: False
          show ?thesis
          proof (cases "ConfigPath flags = []")
            case True
            with x have "p = []" by (simp add: expandPath_def)
            then show ?thesis by (simp add: statNode_def)
          next
            case ne: False
            from resolveConfigFile_override [OF x DiscoverPaths_ConfigFile [OF d] ne False]
            have "?cf = p" .
            with cfst LoadOrInitConfig_read_file [OF l nd] show ?thesis by auto
          qed
        qed
        with False show ?thesis by simp
      qed
    qed
    with d show ?thesis by simp
  qed

  show 2: "fst (LoadOrInitConfig cdc ?v1 paths flags) = Inr cfg"
  proof (cases "DryRun flags")
    case True
    have "fst (LoadOrInitConfig cdc ?v1 paths flags) = fst (LoadOrInitConfig cdc ?w1 paths flags)"
    proof (rule LoadOrInitConfig_fst_cong [OF sp1v])
      show "statNode ?v1 ?cf = statNode ?w1 ?cf"
        unfolding st1 st0 by (rule statNode_cong [OF dryfs [OF True] dn])
      show "DryRun flags \<or> (\<exists>n. statNode ?w1 ?cf = Inr n)" using True by simp
    qed
    with l show ?thesis by simp
  next
    case False
    from LoadOrInitConfig_read_file [OF l False] obtain body where
      n: "statNode ?u ?cf = Inr (RegFile body)" and
      dec: "decodeOutcome cdc ?w1 paths flags (readOutcome cdc ?v (Inr (RegFile body))) = Inr cfg"
      by blast
    from cfst n have n': "statNode ?v1 ?cf = Inr (RegFile body)" by (simp add: st1)
    show ?thesis
      unfolding LoadOrInitConfig_present(1) [OF n'] decodeOutcome_cong [OF sp1v] by (rule dec)
  qed

  show 3: "ApplyPathOverrides ?v2 paths cfg = Inr eff"
  proof -
    from a have "ApplyPathOverrides w paths cfg = Inr eff"
      unfolding ApplyPathOverrides_cong [OF stages_sameProcess(2)] .
    then have "ApplyPathOverrides w' paths cfg = Inr eff"
      unfolding ApplyPathOverrides_cong [OF sp] .
    then show ?thesis
      unfolding ApplyPathOverrides_cong [OF stages_sameProcess(2)] .
  qed

  show 4: "fst (EnsureDirectories ?v2 eff flags) = None"
  proof (cases "DryRun flags")
    case True
    then show ?thesis by (simp add: EnsureDirectories_dry)
  next
    case False
    let ?dirs = "[AppPaths.DataDir eff, AppPaths.StateDir eff]"
    from e False have e': "fst (ensureEach ?w2 ?dirs) = None"
      unfolding EnsureDirectories_def by (simp del: ensureEach.simps)
    have w3: "?w3 = snd (ensureEach ?w2 ?dirs)"
      unfolding afterDirs_def EnsureDirectories_def using False by (simp del: ensureEach.simps)
    have kk3v: "keepsKinds ?w3 ?v2"
      by (rule keepsKinds_trans [OF kk34 keepsKinds_trans [OF kk4
            extends_keepsKinds [OF stages_extends(2)]]])
    have dn3v: "sameNames ?w3 ?v2"
      by (rule sameProcess_names [OF sameProcess_trans [OF sp34
            sameProcess_trans [OF sp4 stages_sameProcess(2)]]])
    have "\<forall>d \<in> set ?dirs. d \<noteq> [] \<longrightarrow> statNode ?v2 d = Inr Dir"
    proof (intro ballI impI)
      fix d
      assume "d \<in> set ?dirs" and "d \<noteq> []"
      from ensureEach_ok [OF e' this] have "statNode ?w3 d = Inr Dir" unfolding w3 .
      then show "statNode ?v2 d = Inr Dir" by (rule statNode_keeps_Dir [OF kk3v dn3v])
    qed
    from ensureEach_present [OF this] False show ?thesis
      unfolding EnsureDirectories_def by (simp del: ensureEach.simps)
  qed

  show "\<exists>ls'. fst (ResolveLogSettings ?v3 flags cfg) = Inr ls'"
  proof (cases "?lf = [] \<or> DryRun flags")
    case True
    from ResolveLogSettings_plain(2) [OF True] show ?thesis by blast
  next
    case False
    then have F2: "?lf \<noteq> []" and nd: "\<not> DryRun flags" by simp_all
    note rf = ResolveLogSettings_file [OF r F2 nd]
    have w4: "?w4 = snd (os_OpenFile ?w3 ?lf)"
      unfolding afterLog_def ResolveLogSettings_snd using F2 nd by simp
    from os_OpenFile_ok(3) [OF rf(1)] obtain c where c: "statNode ?w4 ?lf = Inr (RegFile c)"
      unfolding w4 by blast
    have kk4v: "keepsKinds ?w4 ?v3"
      by (rule keepsKinds_trans [OF kk4 extends_keepsKinds [OF stages_extends(3)]])
    have dn4v: "sameNames ?w4 ?v3"
      by (rule sameProcess_names [OF sameProcess_trans [OF sp4 stages_sameProcess(3)]])
    from statNode_keeps_File [OF kk4v dn4v c] obtain c' where
      "statNode ?v3 ?lf = Inr (RegFile c')" by blast
    from os_OpenFile_present(1) [OF this] show ?thesis by (rule ResolveLogSettings_opens)
  qed

  have c2: "DryRun flags \<or> (\<exists>n. statNode ?v1 ?cf = Inr n)"
  proof (cases "DryRun flags")
    case False
    from LoadOrInitConfig_read_file [OF l False] cfst show ?thesis by (auto simp: st1)
  qed simp
  show "fs ?v2 = fs w'"
    unfolding afterLoad_def LoadOrInitConfig_reads(1) [OF c2]
    by (simp add: afterDiscover_def DiscoverPaths_fields)
  show "onlyReads w' ?v2"
    unfolding afterLoad_def
    by (rule onlyReads_trans [OF _ LoadOrInitConfig_reads(2) [OF c2]])
       (simp add: afterDiscover_def DiscoverPaths_fields)
qed


text \<open>
  C4 fails as stated where the configuration names the configuration file itself as the
  log file and asks for debug logging: the first run succeeds and appends its first log
  line to the configuration file, which the second run then cannot parse. The same
  happens when the two paths differ and denote one file: the configuration file given
  by a relative name, the log file by the absolute name of the same file.
\<close>

theorem C4_log_file_is_config_file:
  "(case fst (NewRuntimeContext exampleCodec (withConfig selfLogText) noFlags) of
      Inl e \<Rightarrow> False
    | Inr rtx \<Rightarrow> RuntimeContext.Paths rtx = examplePaths
                 \<and> LoggingConfig.File (Logging (Config rtx)) = configPath)
   \<and> fs (withConfig selfLogText) configPath = Some (RegFile selfLogText)
   \<and> fs (snd (NewRuntimeContext exampleCodec (withConfig selfLogText) noFlags)) configPath
       = Some (RegFile (selfLogText @ esc @ ''[35mDEBUG'' @ esc @ ''[0m ''
                          @ resolvedPathsMessage examplePaths @ ''\<newline>''))
   \<and> fst (NewRuntimeContext exampleCodec
            (snd (NewRuntimeContext exampleCodec (withConfig selfLogText) noFlags)) noFlags)
       = Inl (ErrReadConfig ConfigParseError)
   \<and> (case fst (NewRuntimeContext exampleCodec workWorld workFlags) of
        Inl e \<Rightarrow> False
      | Inr rtx \<Rightarrow> ConfigFile (RuntimeContext.Paths rtx) = ''config.toml''
                   \<and> LoggingConfig.File (Logging (Config rtx)) = ''/home/u/work/config.toml'')
   \<and> fst (NewRuntimeContext exampleCodec
            (snd (NewRuntimeContext exampleCodec workWorld workFlags)) workFlags)
       = Inl (ErrReadConfig ConfigParseError)"
  by code_simp

text \<open>
  C4, amended: the configured log file, if there is one, is not the configuration file,
  that is, the two paths do not denote the same file. When the bootstrap returns a
  context, running it again in the world the first run left returns a context with
  the same effective paths and the same configuration. In
  that second run \<^verbatim>\<open>LoadOrInitConfig\<close> leaves the file system as it finds it and only
  makes \<^verbatim>\<open>Stat\<close> and read calls; and in any world, when the configuration file is
  there, all it does is one \<^verbatim>\<open>Stat\<close> and one read.
\<close>

theorem C4_second_run:
  assumes first: "fst (NewRuntimeContext cdc w flags) = Inr rtx"
    and apart: "LoggingConfig.File (Logging (Config rtx)) = []
                \<or> fileOf w (LoggingConfig.File (Logging (Config rtx)))
                     \<noteq> fileOf w (ConfigFile (RuntimeContext.Paths rtx))"
  shows "(\<exists>rtx2. fst (NewRuntimeContext cdc (snd (NewRuntimeContext cdc w flags)) flags) = Inr rtx2
            \<and> RuntimeContext.Paths rtx2 = RuntimeContext.Paths rtx
            \<and> Config rtx2 = Config rtx)
     \<and> (\<forall>paths. fst (DiscoverPaths (snd (NewRuntimeContext cdc w flags)) appName
                       (ConfigPath flags)) = Inr paths
          \<longrightarrow> fs (afterLoad cdc (snd (NewRuntimeContext cdc w flags)) flags paths)
                = fs (snd (NewRuntimeContext cdc w flags))
              \<and> onlyReads (snd (NewRuntimeContext cdc w flags))
                    (afterLoad cdc (snd (NewRuntimeContext cdc w flags)) flags paths))
     \<and> (\<forall>u paths n. statNode u (ConfigFile paths) = Inr n
          \<longrightarrow> snd (LoadOrInitConfig cdc u paths flags)
                = traced (SysReadFile (ConfigFile paths)) (traced (SysStat (ConfigFile paths)) u))"
proof (rule NewRuntimeContext_InrE [OF first])
  fix paths cfg eff ls
  let ?w' = "snd (NewRuntimeContext cdc w flags)"
  assume d: "fst (DiscoverPaths w appName (ConfigPath flags)) = Inr paths"
    and l: "fst (LoadOrInitConfig cdc (afterDiscover w flags) paths flags) = Inr cfg"
    and a: "ApplyPathOverrides (afterLoad cdc w flags paths) paths cfg = Inr eff"
    and e: "fst (EnsureDirectories (afterLoad cdc w flags paths) eff flags) = None"
    and r: "fst (ResolveLogSettings (afterDirs cdc w flags paths eff) flags cfg) = Inr ls"
    and rtx: "rtx = \<lparr>Common = flags, RuntimeContext.Paths = eff, Config = cfg,
                    Logger = ConfigureLogger ls, LogSettings = ls\<rparr>"
  from apo_Inr [OF a] have cf: "ConfigFile eff = ConfigFile paths" by simp
  from apart have ap: "LoggingConfig.File (Logging cfg) = []
      \<or> fileOf w (LoggingConfig.File (Logging cfg)) \<noteq> fileOf w (ConfigFile paths)"
    unfolding rtx by (simp add: cf)
  have w': "?w' = Logger_Debug (ConfigureLogger ls) (resolvedPathsMessage eff)
                    (afterLog cdc w flags paths eff cfg)"
    unfolding NewRuntimeContext_InrI [OF d l a e r] by simp
  note again = bootstrap_again [OF d l a e r ap w']
  from again(5) obtain ls' where
    r': "fst (ResolveLogSettings (afterDirs cdc ?w' flags paths eff) flags cfg) = Inr ls'"
    by blast
  have "fst (NewRuntimeContext cdc ?w' flags)
          = Inr \<lparr>Common = flags, RuntimeContext.Paths = eff, Config = cfg,
                 Logger = ConfigureLogger ls', LogSettings = ls'\<rparr>"
    unfolding NewRuntimeContext_InrI [OF again(1) again(2) again(3) again(4) r'] by simp
  then have one: "\<exists>rtx2. fst (NewRuntimeContext cdc ?w' flags) = Inr rtx2
            \<and> RuntimeContext.Paths rtx2 = RuntimeContext.Paths rtx
            \<and> Config rtx2 = Config rtx"
    unfolding rtx by simp
  have two: "\<forall>paths'. fst (DiscoverPaths ?w' appName (ConfigPath flags)) = Inr paths'
          \<longrightarrow> fs (afterLoad cdc ?w' flags paths') = fs ?w'
              \<and> onlyReads ?w' (afterLoad cdc ?w' flags paths')"
    using again(1) again(6) again(7) by simp
  have three: "\<forall>u paths n. statNode u (ConfigFile paths) = Inr n
          \<longrightarrow> snd (LoadOrInitConfig cdc u paths flags)
                = traced (SysReadFile (ConfigFile paths)) (traced (SysStat (ConfigFile paths)) u)"
    using LoadOrInitConfig_present(2) by blast
  from one two three show ?thesis by (intro conjI)
qed

theorem C4_second_run_witness:
  "fst (NewRuntimeContext exampleCodec linuxWorld noFlags) = Inr firstContext
   \<and> LoggingConfig.File (Logging (Config firstContext)) = []
   \<and> fs linuxWorld configPath = None
   \<and> (case fst (NewRuntimeContext exampleCodec
                  (snd (NewRuntimeContext exampleCodec linuxWorld noFlags)) noFlags) of
          Inl e \<Rightarrow> False
        | Inr rtx2 \<Rightarrow> RuntimeContext.Paths rtx2 = examplePaths \<and> Config rtx2 = defaultConfig)
   \<and> fst (DiscoverPaths (snd (NewRuntimeContext exampleCodec linuxWorld noFlags)) appName
            (ConfigPath noFlags)) = Inr examplePaths
   \<and> fs (afterLoad exampleCodec (snd (NewRuntimeContext exampleCodec linuxWorld noFlags))
            noFlags examplePaths) configPath
       = Some (RegFile (defaultConfigHeader configPath @ defaultConfigBody))
   \<and> onlyReads (snd (NewRuntimeContext exampleCodec linuxWorld noFlags))
         (afterLoad exampleCodec (snd (NewRuntimeContext exampleCodec linuxWorld noFlags))
            noFlags examplePaths)
   \<and> fst (NewRuntimeContext exampleCodec (withConfig logFileText) noFlags) = Inr logContext
   \<and> fileOf (withConfig logFileText) (LoggingConfig.File (Logging (Config logContext)))
       = ''/home/u/app.log''
   \<and> fileOf (withConfig logFileText) (ConfigFile (RuntimeContext.Paths logContext)) = configPath
   \<and> (case fst (NewRuntimeContext exampleCodec
                  (snd (NewRuntimeContext exampleCodec (withConfig logFileText) noFlags)) noFlags) of
          Inl e \<Rightarrow> False
        | Inr rtx2 \<Rightarrow> RuntimeContext.Paths rtx2 = examplePaths \<and> Config rtx2 = logConfig)"
proof -
  let ?w' = "snd (NewRuntimeContext exampleCodec linuxWorld noFlags)"
  let ?u = "withConfig logFileText"
  have a: "fst (NewRuntimeContext exampleCodec linuxWorld noFlags) = Inr firstContext"
    by code_simp
  have b: "LoggingConfig.File (Logging (Config firstContext)) = []" by code_simp
  have c: "fs linuxWorld configPath = None" by code_simp
  have d: "fst (DiscoverPaths ?w' appName (ConfigPath noFlags)) = Inr examplePaths"
    by code_simp
  have f: "fs ?w' configPath = Some (RegFile (defaultConfigHeader configPath @ defaultConfigBody))"
    by code_simp
  have p: "RuntimeContext.Paths firstContext = examplePaths" "Config firstContext = defaultConfig"
    by (simp_all add: firstContext_def)
  note t = C4_second_run [OF a disjI1 [OF b]]
  from t p have one: "case fst (NewRuntimeContext exampleCodec ?w' noFlags) of
          Inl e \<Rightarrow> False
        | Inr rtx2 \<Rightarrow> RuntimeContext.Paths rtx2 = examplePaths \<and> Config rtx2 = defaultConfig"
    by auto
  from t d f have two: "fs (afterLoad exampleCodec ?w' noFlags examplePaths) configPath
       = Some (RegFile (defaultConfigHeader configPath @ defaultConfigBody))
     \<and> onlyReads ?w' (afterLoad exampleCodec ?w' noFlags examplePaths)"
    by simp
  have g: "fst (NewRuntimeContext exampleCodec ?u noFlags) = Inr logContext" by code_simp
  have h: "fileOf ?u (LoggingConfig.File (Logging (Config logContext))) = ''/home/u/app.log''"
    "fileOf ?u (ConfigFile (RuntimeContext.Paths logContext)) = configPath"
    by code_simp+
  have "''/home/u/app.log'' \<noteq> configPath" by code_simp
  with h have ne: "fileOf ?u (LoggingConfig.File (Logging (Config logContext)))
                   \<noteq> fileOf ?u (ConfigFile (RuntimeContext.Paths logContext))"
    by simp
  have q: "RuntimeContext.Paths logContext = examplePaths" "Config logContext = logConfig"
    by (simp_all add: logContext_def)
  from C4_second_run [OF g disjI2 [OF ne]] q
  have three: "case fst (NewRuntimeContext exampleCodec
                  (snd (NewRuntimeContext exampleCodec ?u noFlags)) noFlags) of
          Inl e \<Rightarrow> False
        | Inr rtx2 \<Rightarrow> RuntimeContext.Paths rtx2 = examplePaths \<and> Config rtx2 = logConfig"
    by auto
  from a b c d one two g h three show ?thesis by simp
qed

end
